(* ===== verification/Prelude.thy ===== *)
theory Prelude
  imports Main "HOL-Library.Char_ord"
begin

text \<open>
  Shared vocabulary of the development: Go byte strings and the few operations of the
  package \<^verbatim>\<open>strings\<close> the sources use, fallible computations as sums, and a small
  calculus of postconditions (\<open>rspec\<close>) that carries the safety proofs of the
  components.
\<close>

section \<open>Byte strings\<close>

text \<open>A Go string is a sequence of bytes; the model uses lists of 8-bit characters.\<close>

type_synonym bytes = "char list"

abbreviation chNUL :: char where "chNUL \<equiv> CHR 0x00"
abbreviation chTAB :: char where "chTAB \<equiv> CHR 0x09"
abbreviation chNL :: char where "chNL \<equiv> CHR 0x0A"
abbreviation chCR :: char where "chCR \<equiv> CHR 0x0D"
abbreviation chDQ :: char where "chDQ \<equiv> CHR 0x22"
abbreviation chSQ :: char where "chSQ \<equiv> CHR 0x27"
abbreviation chBS :: char where "chBS \<equiv> CHR 0x5C"
abbreviation chBT :: char where "chBT \<equiv> CHR 0x60"

definition hasPrefix :: "'a list \<Rightarrow> 'a list \<Rightarrow> bool" where
  "hasPrefix xs p \<longleftrightarrow> take (length p) xs = p"

definition hasSuffix :: "'a list \<Rightarrow> 'a list \<Rightarrow> bool" where
  "hasSuffix xs p \<longleftrightarrow> length p \<le> length xs \<and> drop (length xs - length p) xs = p"

lemma hasPrefix_iff: "hasPrefix xs p \<longleftrightarrow> (\<exists>zs. xs = p @ zs)"
  unfolding hasPrefix_def by (metis append_eq_conv_conj append_take_drop_id)

lemma hasSuffix_iff: "hasSuffix xs p \<longleftrightarrow> (\<exists>zs. xs = zs @ p)"
proof
  assume "hasSuffix xs p"
  then show "\<exists>zs. xs = zs @ p"
    unfolding hasSuffix_def by (metis append_take_drop_id)
qed (auto simp: hasSuffix_def)

lemma hasPrefix_append [simp]: "hasPrefix (p @ zs) p"
  by (simp add: hasPrefix_def)

lemma hasSuffix_append [simp]: "hasSuffix (zs @ p) p"
  by (simp add: hasSuffix_def)

text \<open>
  The scanning loop \<^verbatim>\<open>for j < len(s) && P(s[j]) { j++ }\<close>: the index of the first byte
  at or after \<open>j\<close> that does not satisfy \<open>P\<close>.
\<close>

definition skipWhile :: "('a \<Rightarrow> bool) \<Rightarrow> 'a list \<Rightarrow> nat \<Rightarrow> nat" where
  "skipWhile P xs j = j + length (takeWhile P (drop j xs))"

lemma skipWhile_ge [simp]: "j \<le> skipWhile P xs j"
  by (simp add: skipWhile_def)

lemma skipWhile_gt [simp]: "i < j \<Longrightarrow> i < skipWhile P xs j"
  by (rule less_le_trans [OF _ skipWhile_ge])

lemma skipWhile_le [simp]: "j \<le> length xs \<Longrightarrow> skipWhile P xs j \<le> length xs"
  unfolding skipWhile_def using length_takeWhile_le [of P "drop j xs"] by simp

lemma skipWhile_step:
  "skipWhile P xs j = (if j < length xs \<and> P (xs ! j) then skipWhile P xs (Suc j) else j)"
  by (cases "j < length xs") (auto simp: skipWhile_def simp flip: Cons_nth_drop_Suc)

lemma skipWhile_stop:
  "skipWhile P xs j < length xs \<Longrightarrow> \<not> P (xs ! skipWhile P xs j)"
proof -
  assume a: "skipWhile P xs j < length xs"
  then have b: "length (takeWhile P (drop j xs)) < length (drop j xs)"
    by (simp add: skipWhile_def)
  then have "\<not> P (drop j xs ! length (takeWhile P (drop j xs)))"
    by (rule nth_length_takeWhile)
  then show ?thesis using a by (simp add: skipWhile_def)
qed

section \<open>Fallible computations\<close>

text \<open>\<open>Inl\<close> carries the error of a failed computation, \<open>Inr\<close> its result.\<close>

fun sbind :: "'e + 'a \<Rightarrow> ('a \<Rightarrow> 'e + 'b) \<Rightarrow> 'e + 'b" where
  "sbind (Inl e) f = Inl e"
| "sbind (Inr x) f = f x"

lemma sbind_cong [fundef_cong]:
  "m = m' \<Longrightarrow> (\<And>x. m' = Inr x \<Longrightarrow> f x = f' x) \<Longrightarrow> sbind m f = sbind m' f'"
  by (cases m') auto

lemma sbind_Inr_iff: "sbind m f = Inr y \<longleftrightarrow> (\<exists>x. m = Inr x \<and> f x = Inr y)"
  by (cases m) auto

lemma sbind_Inl_iff: "sbind m f = Inl e \<longleftrightarrow> m = Inl e \<or> (\<exists>x. m = Inr x \<and> f x = Inl e)"
  by (cases m) auto

text \<open>
  \<open>rspec P Q r\<close>: the error of \<open>r\<close>, if it failed, satisfies \<open>P\<close>, and its result, if it
  returned, satisfies \<open>Q\<close>. The equations below push \<open>rspec\<close> through the control
  structure of a definition, so that a safety proof reduces to its leaves.
\<close>

definition rspec :: "('e \<Rightarrow> bool) \<Rightarrow> ('a \<Rightarrow> bool) \<Rightarrow> 'e + 'a \<Rightarrow> bool" where
  "rspec P Q r = (case r of Inl e \<Rightarrow> P e | Inr x \<Rightarrow> Q x)"

named_theorems rspec_rules

lemma rspec_Inl [rspec_rules, simp]: "rspec P Q (Inl e) = P e"
  by (simp add: rspec_def)

lemma rspec_Inr [rspec_rules, simp]: "rspec P Q (Inr x) = Q x"
  by (simp add: rspec_def)

lemma rspec_if [rspec_rules]:
  "rspec P Q (if b then r else r') = ((b \<longrightarrow> rspec P Q r) \<and> (\<not> b \<longrightarrow> rspec P Q r'))"
  by simp

lemma rspec_sbind [rspec_rules]:
  "rspec P Q (sbind m f) = rspec P (\<lambda>x. rspec P Q (f x)) m"
  by (cases m) auto

lemma rspec_mono:
  "rspec P Q r \<Longrightarrow> (\<And>e. P e \<Longrightarrow> P' e) \<Longrightarrow> (\<And>x. Q x \<Longrightarrow> Q' x) \<Longrightarrow> rspec P' Q' r"
  by (cases r) auto

lemma rspec_InrD: "rspec P Q r \<Longrightarrow> r = Inr x \<Longrightarrow> Q x"
  by simp

lemma rspec_InlD: "rspec P Q r \<Longrightarrow> r = Inl e \<Longrightarrow> P e"
  by simp

section \<open>Lists and numbers\<close>

lemma sum_list_update_group:
  fixes f :: "'a \<Rightarrow> 'b::ab_group_add"
  shows "i < length xs \<Longrightarrow> sum_list (map f (xs[i := x])) = sum_list (map f xs) + (f x - f (xs ! i))"
  by (induction xs arbitrary: i) (auto split: nat.split simp: algebra_simps)

lemma nth_update_any: "xs[i := x] ! k = (if k = i \<and> i < length xs then x else xs ! k)"
  by (cases "i < length xs") (auto simp: nth_list_update list_update_beyond)

text \<open>Decimal printing, as \<^verbatim>\<open>strconv.Itoa\<close> and the verb \<^verbatim>\<open>%d\<close> do it.\<close>

fun utoa :: "nat \<Rightarrow> bytes" where
  "utoa n = (if n < 10 then [char_of (48 + n)] else utoa (n div 10) @ [char_of (48 + n mod 10)])"

declare utoa.simps [simp del]

definition itoa :: "int \<Rightarrow> bytes" where
  "itoa i = (if i < 0 then CHR ''-'' # utoa (nat (- i)) else utoa (nat i))"

end
