(* ===== verification/Nesting.thy ===== *)
theory Nesting
  imports Prelude
begin

text \<open>
  The nesting guards of \<^verbatim>\<open>interp/nesting.go\<close>: the lexical pre-scan that bounds how deeply a
  script nests before the recursive-descent parser sees it (\<open>checkScriptNestingDepth\<close>),
  and the iterative depth check of the parsed tree (\<open>checkNestingDepth\<close>).

  A scanner state is the record \<open>nestScanner\<close>. The source's stacks \<^verbatim>\<open>kinds\<close> and
  \<^verbatim>\<open>heredocs\<close> grow at the end of a slice; here their top is the head of the list. Every
  slice access that Go checks at run time is a branch of the model: an access out of range
  is the result \<open>Inl IndexPanic\<close>.
\<close>

section \<open>Scanner state\<close>

definition MaxNestingDepth :: int where
  "MaxNestingDepth = 5000"

datatype nestKind =
    kindParen | kindParam | kindBrace | kindBacktick | kindIf | kindElif | kindLoop
  | kindCase | kindArith | kindArithSq | kindArithParen | kindArithIndex | kindPatGroup
  | kindSingle | kindAnsi | kindDouble | kindHeredocExpand | kindHeredocLiteral
  | kindCaseHead0 | kindCaseHead1 | kindCasePat | kindLet | kindNone

text \<open>The \<^verbatim>\<open>iota\<close> values of the constants; \<^verbatim>\<open>counted\<close> compares them.\<close>

fun kindCode :: "nestKind \<Rightarrow> nat" where
  "kindCode kindParen = 0"
| "kindCode kindParam = 1"
| "kindCode kindBrace = 2"
| "kindCode kindBacktick = 3"
| "kindCode kindIf = 4"
| "kindCode kindElif = 5"
| "kindCode kindLoop = 6"
| "kindCode kindCase = 7"
| "kindCode kindArith = 8"
| "kindCode kindArithSq = 9"
| "kindCode kindArithParen = 10"
| "kindCode kindArithIndex = 11"
| "kindCode kindPatGroup = 12"
| "kindCode kindSingle = 13"
| "kindCode kindAnsi = 14"
| "kindCode kindDouble = 15"
| "kindCode kindHeredocExpand = 16"
| "kindCode kindHeredocLiteral = 17"
| "kindCode kindCaseHead0 = 18"
| "kindCode kindCaseHead1 = 19"
| "kindCode kindCasePat = 20"
| "kindCode kindLet = 21"
| "kindCode kindNone = 255"

definition counted :: "nestKind \<Rightarrow> bool" where
  "counted k \<longleftrightarrow> kindCode k < kindCode kindSingle"

definition isHeredoc :: "nestKind \<Rightarrow> bool" where
  "isHeredoc k \<longleftrightarrow> k = kindHeredocExpand \<or> k = kindHeredocLiteral"

record heredocInfo =
  delim :: bytes
  stripTabs :: bool
  expandBody :: bool

record nestScanner =
  sc_s :: bytes
  sc_i :: nat
  kinds :: "nestKind list"
  depth :: int
  heredocs :: "heredocInfo list"
  pending :: "heredocInfo list"
  lineStart :: bool
  cmdPos :: bool
  wordStart :: bool
  argWords :: nat
  inDecl :: bool
  redirTarget :: bool
  afterTime :: bool
  patStart :: bool
  prevSpace :: bool

datatype scanError = NestingTooDeep | IndexPanic

type_synonym scan = "scanError + nestScanner"

definition topFrame :: "nestScanner \<Rightarrow> nestKind" where
  "topFrame sc = (case kinds sc of [] \<Rightarrow> kindNone | k # _ \<Rightarrow> k)"

definition push :: "nestKind \<Rightarrow> nestScanner \<Rightarrow> scan" where
  "push k sc0 =
     (let sc = sc0\<lparr>kinds := k # kinds sc0\<rparr> in
      if \<not> counted k then Inr sc
      else let sc = sc\<lparr>depth := depth sc + 1\<rparr> in
           if depth sc > MaxNestingDepth then Inl NestingTooDeep else Inr sc)"

definition replaceTop :: "nestKind \<Rightarrow> nestScanner \<Rightarrow> scan" where
  "replaceTop k sc =
     (case kinds sc of [] \<Rightarrow> Inl IndexPanic | _ # ks \<Rightarrow> Inr (sc\<lparr>kinds := k # ks\<rparr>))"

definition pop :: "nestScanner \<Rightarrow> scan" where
  "pop sc =
     (case kinds sc of
        [] \<Rightarrow> Inl IndexPanic
      | k # ks \<Rightarrow>
          if isHeredoc k then
            (case heredocs sc of
               [] \<Rightarrow> Inl IndexPanic
             | _ # hs \<Rightarrow> Inr (sc\<lparr>kinds := ks, heredocs := hs\<rparr>))
          else if counted k then Inr (sc\<lparr>kinds := ks, depth := depth sc - 1\<rparr>)
          else Inr (sc\<lparr>kinds := ks\<rparr>))"

definition startCmd :: "nestScanner \<Rightarrow> nestScanner" where
  "startCmd sc = sc\<lparr>cmdPos := True, wordStart := True, argWords := 0, inDecl := False,
                    redirTarget := False, afterTime := False\<rparr>"

definition startNextHeredoc :: "nestScanner \<Rightarrow> nestScanner" where
  "startNextHeredoc sc =
     (case pending sc of
        [] \<Rightarrow> sc
      | info # rest \<Rightarrow>
          if isHeredoc (topFrame sc) then sc
          else sc\<lparr>pending := rest,
                  kinds := (if expandBody info then kindHeredocExpand
                            else kindHeredocLiteral) # kinds sc,
                  heredocs := info # heredocs sc\<rparr>)"

definition peek :: "nat \<Rightarrow> nestScanner \<Rightarrow> char" where
  "peek off sc = (let j = sc_i sc + off in
                  if j < length (sc_s sc) then sc_s sc ! j else chNUL)"

text \<open>\<^verbatim>\<open>sc.s[sc.i]\<close>: a bounds-checked read of the current byte.\<close>

definition withByte :: "nestScanner \<Rightarrow> (char \<Rightarrow> scanError + 'a) \<Rightarrow> scanError + 'a" where
  "withByte sc f =
     (if sc_i sc < length (sc_s sc) then f (sc_s sc ! sc_i sc) else Inl IndexPanic)"

definition advance :: "nat \<Rightarrow> nestScanner \<Rightarrow> nestScanner" where
  "advance n sc = sc\<lparr>sc_i := sc_i sc + n\<rparr>"

section \<open>Character classes\<close>

definition isASCIILetter :: "char \<Rightarrow> bool" where
  "isASCIILetter c \<longleftrightarrow> (CHR ''a'' \<le> c \<and> c \<le> CHR ''z'') \<or> (CHR ''A'' \<le> c \<and> c \<le> CHR ''Z'')"

definition isASCIIDigit :: "char \<Rightarrow> bool" where
  "isASCIIDigit c \<longleftrightarrow> CHR ''0'' \<le> c \<and> c \<le> CHR ''9''"

definition isBlank :: "char \<Rightarrow> bool" where
  "isBlank c \<longleftrightarrow> c = CHR '' '' \<or> c = chTAB \<or> c = chCR"

definition isWordSep :: "char \<Rightarrow> bool" where
  "isWordSep c \<longleftrightarrow>
     c \<in> set [CHR '' '', chTAB, chNL, chCR, CHR '';'', CHR ''&'', CHR ''|'', CHR ''('',
              CHR '')'', CHR ''<'', CHR ''>'', chBT]"

definition cmdPosOrSep :: "bytes \<Rightarrow> nat \<Rightarrow> bool" where
  "cmdPosOrSep script i \<longleftrightarrow>
     i = 0 \<or> script ! (i - 1) \<in> set [CHR '' '', chTAB, chNL, chCR, CHR '';'', CHR ''&'',
                                     CHR ''|'', CHR ''('']"

text \<open>\<^verbatim>\<open>j >= len(s) || isWordSep(s[j])\<close>\<close>

definition sepAt :: "bytes \<Rightarrow> nat \<Rightarrow> bool" where
  "sepAt script j \<longleftrightarrow> (j < length script \<longrightarrow> isWordSep (script ! j))"

section \<open>Heredoc operators and bodies\<close>

function readHeredocDelim :: "bytes \<Rightarrow> nat \<Rightarrow> bytes \<Rightarrow> bool \<Rightarrow> bytes \<times> bool \<times> nat" where
  "readHeredocDelim script i b ex =
     (if i < length script then
        (let c = script ! i in
         if c \<in> set [CHR '' '', chTAB, chNL, chCR, CHR '';'', CHR ''&'', CHR ''|'', CHR ''<'',
                      CHR ''>'', CHR ''('', CHR '')'']
         then (b, ex, i)
         else if c = chSQ \<or> c = chDQ then
           (let e = skipWhile (\<lambda>d. d \<noteq> c) script (i + 1) in
            readHeredocDelim script (if e < length script then e + 1 else e)
              (b @ take (e - (i + 1)) (drop (i + 1) script)) False)
         else if c = chBS then
           (if i + 1 < length script
            then readHeredocDelim script (i + 2) (b @ [script ! (i + 1)]) False
            else readHeredocDelim script (i + 1) b False)
         else readHeredocDelim script (i + 1) (b @ [c]) ex)
      else (b, ex, i))"
  by pat_completeness auto
termination
proof (relation "measure (\<lambda>(script, i, b, ex). length script - i)", goal_cases)
  case (2 script i b ex c e)
  then have "i + 1 \<le> e" by simp
  then show ?case using 2(1) by auto
qed auto

declare readHeredocDelim.simps [simp del]

definition scanRedirOrHeredoc ::
  "bytes \<Rightarrow> nat \<Rightarrow> heredocInfo list \<Rightarrow> nat \<times> heredocInfo list" where
  "scanRedirOrHeredoc script i pend =
     (let n = length script in
      if i + 1 \<ge> n \<or> script ! (i + 1) \<noteq> CHR ''<'' then (i + 1, pend)
      else if i + 2 < n \<and> script ! (i + 2) = CHR ''<'' then (i + 3, pend)
      else
        (let strip = (i + 2 < n \<and> script ! (i + 2) = CHR ''-'');
             j = skipWhile (\<lambda>c. c = CHR '' '' \<or> c = chTAB) script (if strip then i + 3 else i + 2);
             (d, ex, e) = readHeredocDelim script j [] True
         in (e, if d \<noteq> [] then pend @ [\<lparr>delim = d, stripTabs = strip, expandBody = ex\<rparr>]
                else pend)))"

definition heredocLine :: "nestKind \<Rightarrow> nestScanner \<Rightarrow> scanError + bool \<times> nestScanner" where
  "heredocLine k sc =
     (let eol = skipWhile (\<lambda>c. c \<noteq> chNL) (sc_s sc) (sc_i sc);
          consume = (\<lambda>sc. sc\<lparr>sc_i := (if eol < length (sc_s sc) then eol + 1 else eol),
                             lineStart := True\<rparr>)
      in case heredocs sc of
           [] \<Rightarrow> Inl IndexPanic
         | info # _ \<Rightarrow>
             (let line = take (eol - sc_i sc) (drop (sc_i sc) (sc_s sc));
                  line = (if line \<noteq> [] \<and> last line = chCR then butlast line else line);
                  line = (if stripTabs info then dropWhile (\<lambda>c. c = chTAB) line else line)
              in if line = delim info
                 then sbind (pop sc) (\<lambda>sc. Inr (True, startNextHeredoc (consume sc)))
                 else if k = kindHeredocLiteral then Inr (True, consume sc)
                 else Inr (False, sc)))"

section \<open>The modes of the scanner\<close>

definition dollar :: "bool \<Rightarrow> nestScanner \<Rightarrow> scan" where
  "dollar ansi sc =
     (let c = peek 1 sc in
      if c = CHR ''('' then
        (if peek 2 sc = CHR ''('' then push kindArith (advance 3 sc)
         else push kindParen (startCmd (advance 2 sc)))
      else if c = CHR ''{'' then push kindParam (advance 2 sc)
      else if c = CHR ''['' then push kindArithSq (advance 2 sc)
      else if c = chSQ \<and> ansi then push kindAnsi (advance 2 sc)
      else Inr (advance 1 sc))"

definition backtick :: "nestScanner \<Rightarrow> scan" where
  "backtick sc = push kindBacktick (startCmd (advance 1 sc))"

definition stepSingle :: "nestScanner \<Rightarrow> scan" where
  "stepSingle sc = withByte sc (\<lambda>c.
     sbind (if c = chSQ then pop sc else Inr sc) (\<lambda>sc. Inr (advance 1 sc)))"

definition stepAnsi :: "nestScanner \<Rightarrow> scan" where
  "stepAnsi sc = withByte sc (\<lambda>c.
     sbind (if c = chBS then Inr (advance 1 sc) else if c = chSQ then pop sc else Inr sc)
       (\<lambda>sc. Inr (advance 1 sc)))"

definition stepDouble :: "nestKind \<Rightarrow> nestScanner \<Rightarrow> scan" where
  "stepDouble k sc = withByte sc (\<lambda>c.
     if c = chBT then backtick sc
     else if c = CHR ''$'' then dollar False sc
     else sbind (if c = chBS then Inr (advance 1 sc)
                 else if c = chDQ then (if k = kindDouble then pop sc else Inr sc)
                 else if c = chNL then Inr (sc\<lparr>lineStart := True\<rparr>)
                 else Inr sc)
            (\<lambda>sc. Inr (advance 1 sc)))"

definition stepParam :: "nestScanner \<Rightarrow> scan" where
  "stepParam sc = withByte sc (\<lambda>c.
     if c = chSQ then push kindSingle (advance 1 sc)
     else if c = chDQ then push kindDouble (advance 1 sc)
     else if c = chBT then backtick sc
     else if c = CHR ''$'' then dollar True sc
     else sbind (if c = CHR ''}'' then pop sc
                 else if c = chBS then Inr (advance 1 sc)
                 else Inr sc)
            (\<lambda>sc. Inr (advance 1 sc)))"

definition stepArith :: "nestKind \<Rightarrow> nestScanner \<Rightarrow> scan" where
  "stepArith k sc = withByte sc (\<lambda>c.
     if k = kindLet \<and>
        (c = CHR '';'' \<or> c = chNL \<or> c = CHR '')'' \<or> c = chBT \<or>
         prevSpace sc \<and> (c = CHR ''&'' \<or> c = CHR ''|'' \<or> c = CHR ''<'' \<or> c = CHR ''>''))
     then sbind (pop sc) (\<lambda>sc. Inr (sc\<lparr>cmdPos := False\<rparr>))
     else if k = kindLet \<and> (c = CHR '' '' \<or> c = chTAB \<or> c = chCR)
     then Inr (advance 1 (sc\<lparr>prevSpace := True\<rparr>))
     else
       (let sc = sc\<lparr>prevSpace := False\<rparr> in
        if c = CHR ''('' then push kindArithParen (advance 1 sc)
        else if c = CHR ''['' then push kindArithIndex (advance 1 sc)
        else if c = chSQ then push kindSingle (advance 1 sc)
        else if c = chDQ then push kindDouble (advance 1 sc)
        else if c = chBT then backtick sc
        else if c = CHR ''$'' then dollar True sc
        else sbind
          (if c = CHR '')'' then
             (if k = kindArithParen then pop sc
              else if k = kindArith \<and> peek 1 sc = CHR '')'' then
                sbind (pop sc) (\<lambda>sc. Inr (advance 1 (sc\<lparr>cmdPos := False\<rparr>)))
              else if k = kindArith then pop sc
              else Inr sc)
           else if c = CHR '']'' then
             (if k = kindArithIndex \<or> k = kindArithSq then pop sc else Inr sc)
           else if c = chBS then Inr (advance 1 sc)
           else Inr sc)
          (\<lambda>sc. Inr (advance 1 sc))))"

definition skipComment :: "nestScanner \<Rightarrow> nestScanner" where
  "skipComment sc = sc\<lparr>sc_i := skipWhile (\<lambda>c. c \<noteq> chNL) (sc_s sc) (sc_i sc)\<rparr>"

definition stepPattern :: "nestKind \<Rightarrow> nestScanner \<Rightarrow> scan" where
  "stepPattern k sc = withByte sc (\<lambda>c.
     if c = CHR '' '' \<or> c = chTAB \<or> c = chCR then Inr (advance 1 sc)
     else if c = chNL then Inr (startNextHeredoc ((advance 1 sc)\<lparr>lineStart := True\<rparr>))
     else if c = CHR ''#'' \<and> cmdPosOrSep (sc_s sc) (sc_i sc) then Inr (skipComment sc)
     else if isASCIILetter c then
       (let j = skipWhile isASCIILetter (sc_s sc) (sc_i sc + 1);
            word = take (j - sc_i sc) (drop (sc_i sc) (sc_s sc)) in
        sbind
          (if k = kindCasePat \<and> patStart sc \<and> word = ''esac'' \<and> sepAt (sc_s sc) j then
             sbind (pop sc) (\<lambda>sc.
             sbind (if topFrame sc = kindCase then pop sc else Inr sc) (\<lambda>sc.
             Inr ((startCmd sc)\<lparr>cmdPos := False\<rparr>)))
           else Inr sc)
          (\<lambda>sc. Inr (sc\<lparr>patStart := False, sc_i := j\<rparr>)))
     else
       (let start = patStart sc; sc = sc\<lparr>patStart := False\<rparr> in
        if c = CHR ''('' then
          (if k = kindCasePat \<and> start then Inr (advance 1 sc)
           else push kindPatGroup (advance 1 sc))
        else if c = CHR '')'' then
          sbind (pop (advance 1 sc)) (\<lambda>sc.
          Inr (if k = kindCasePat then startCmd sc else sc))
        else if c = chBS then Inr (advance 2 sc)
        else if c = chSQ then push kindSingle (advance 1 sc)
        else if c = chDQ then push kindDouble (advance 1 sc)
        else if c = chBT then backtick sc
        else if c = CHR ''$'' then dollar True sc
        else Inr (advance 1 sc)))"

section \<open>Command context\<close>

definition compoundOpeners :: "bytes list" where
  "compoundOpeners = [''if'', ''while'', ''until'', ''for'', ''select'', ''case'']"

definition coprocNamed :: "bytes \<Rightarrow> nat \<Rightarrow> bool" where
  "coprocNamed script j =
     (let k = skipWhile (\<lambda>c. \<not> isWordSep c) script j;
          w = take (k - j) (drop j script) in
      if k = j then False
      else if w \<in> set (compoundOpeners @ [''{'']) then False
      else
        (let k = skipWhile isBlank script k in
         if k \<ge> length script then False
         else if script ! k = CHR ''('' \<or> script ! k = CHR ''{'' then True
         else (let e = skipWhile isASCIILetter script k in
               take (e - k) (drop k script) \<in> set compoundOpeners)))"

function popElifs :: "nestScanner \<Rightarrow> scan" where
  "popElifs sc = (if topFrame sc = kindElif then sbind (pop sc) popElifs else Inr sc)"
  by pat_completeness auto
termination
proof (relation "measure (\<lambda>sc. length (kinds sc))", goal_cases)
  case (2 sc sc')
  then show ?case
    by (auto simp: topFrame_def pop_def isHeredoc_def counted_def split: list.splits if_splits)
qed auto

declare popElifs.simps [simp del]

definition keyword :: "bytes \<Rightarrow> nestScanner \<Rightarrow> scan" where
  "keyword word sc =
     (let tp = topFrame sc in
      if word = ''if'' then push kindIf (startCmd sc)
      else if word = ''elif'' then push kindElif (startCmd sc)
      else if word = ''while'' \<or> word = ''until'' then push kindLoop (startCmd sc)
      else if word = ''for'' \<or> word = ''select'' then push kindLoop (sc\<lparr>cmdPos := False\<rparr>)
      else if word = ''case'' then
        sbind (push kindCase (sc\<lparr>cmdPos := False\<rparr>)) (push kindCaseHead0)
      else if word = ''fi'' then
        sbind (popElifs sc) (\<lambda>sc.
        sbind (if topFrame sc = kindIf then pop sc else Inr sc) (\<lambda>sc.
        Inr (sc\<lparr>cmdPos := False\<rparr>)))
      else if word = ''done'' then
        sbind (if tp = kindLoop then pop sc else Inr sc) (\<lambda>sc. Inr (sc\<lparr>cmdPos := False\<rparr>))
      else if word = ''esac'' then
        sbind (if tp = kindCase then pop sc else Inr sc) (\<lambda>sc. Inr (sc\<lparr>cmdPos := False\<rparr>))
      else if word = ''then'' \<or> word = ''else'' then
        Inr (if tp = kindIf \<or> tp = kindElif then startCmd sc else sc\<lparr>cmdPos := False\<rparr>)
      else if word = ''do'' then
        Inr (if tp = kindLoop then startCmd sc else sc\<lparr>cmdPos := False\<rparr>)
      else if word = ''time'' then Inr ((startCmd sc)\<lparr>afterTime := True\<rparr>)
      else if word = ''function'' \<or> word = ''coproc'' then
        (let j = skipWhile isBlank (sc_s sc) (sc_i sc) in
         if word = ''coproc'' \<and> \<not> coprocNamed (sc_s sc) j then Inr (startCmd sc)
         else Inr (startCmd (sc\<lparr>sc_i := skipWhile (\<lambda>c. \<not> isWordSep c) (sc_s sc) j\<rparr>)))
      else if word = ''let'' then push kindLet (sc\<lparr>cmdPos := False, prevSpace := False\<rparr>)
      else Inr (sc\<lparr>cmdPos := False\<rparr>))"

text \<open>
  \<open>beginWord\<close> returns, with the new state, whether it consumed input.
\<close>

definition beginWord :: "nestScanner \<Rightarrow> scanError + bool \<times> nestScanner" where
  "beginWord sc0 =
     (if redirTarget sc0 then Inr (False, sc0\<lparr>redirTarget := False\<rparr>)
      else
        (let aft = afterTime sc0;
             sc = sc0\<lparr>afterTime := False\<rparr>;
             script = sc_s sc; i = sc_i sc;
             j = (if i < length script \<and> (isASCIILetter (script ! i) \<or> script ! i = CHR ''_'')
                  then skipWhile (\<lambda>c. isASCIILetter c \<or> c = CHR ''_'' \<or> isASCIIDigit c)
                         script (i + 1)
                  else i);
             name = take (j - i) (drop i script);
             nxt = (if j < length script then script ! j else chNUL);
             countWord = (\<lambda>sc. let sc = sc\<lparr>argWords := argWords sc + 1\<rparr> in
               if argWords sc = 1 \<and> cmdPos sc \<and>
                  name \<in> set [''declare'', ''local'', ''export'', ''readonly'', ''typeset'',
                               ''nameref''] \<and>
                  (nxt = chNUL \<or> isWordSep nxt)
               then sc\<lparr>inDecl := True\<rparr> else sc)
         in
         if name \<noteq> [] \<and> nxt = CHR ''['' \<and> (argWords sc = 0 \<or> inDecl sc) then
           sbind (push kindArithIndex (sc\<lparr>sc_i := j + 1, cmdPos := False\<rparr>))
             (\<lambda>sc. Inr (True, sc))
         else if name \<noteq> [] \<and>
                 (nxt = CHR ''='' \<or>
                  nxt = CHR ''+'' \<and> j + 1 < length script \<and> script ! (j + 1) = CHR ''='')
         then Inr (False, sc)
         else withByte sc (\<lambda>c.
           if name = [] \<and> isASCIIDigit c then
             (let d = skipWhile isASCIIDigit script i in
              if d < length script \<and> (script ! d = CHR ''<'' \<or> script ! d = CHR ''>'')
              then Inr (False, sc) else Inr (False, countWord sc))
           else if aft \<and> cmdPos sc \<and> hasPrefix (drop i script) ''-p'' \<and> sepAt script (i + 2)
           then Inr (True, (advance 2 sc)\<lparr>wordStart := True\<rparr>)
           else Inr (False, countWord sc))))"

text \<open>
  \<open>stepCommand\<close> is split along the source's switches: bytes that separate words, the
  start of a word, and the bytes of a word; the head of a case statement adjusts the frame
  first.
\<close>

definition isSeparator :: "char \<Rightarrow> bool" where
  "isSeparator c \<longleftrightarrow>
     c \<in> set [CHR '' '', chTAB, chCR, chNL, CHR '';'', CHR ''&'', CHR ''|'', CHR ''<'',
              CHR ''>'', CHR ''('', CHR '')'']"

definition stepSeparator :: "nestKind \<Rightarrow> char \<Rightarrow> nestScanner \<Rightarrow> scan" where
  "stepSeparator k c sc =
     (if c = CHR '' '' \<or> c = chTAB \<or> c = chCR then
        Inr ((advance 1 sc)\<lparr>wordStart := True\<rparr>)
      else if c = chNL then
        Inr (startNextHeredoc ((startCmd (advance 1 sc))\<lparr>lineStart := True\<rparr>))
      else if c = CHR '';'' then
        (if k = kindCase \<and> (peek 1 sc = CHR '';'' \<or> peek 1 sc = CHR ''&'') then
           (let sc = advance 2 sc;
                sc = (if peek 0 sc = CHR ''&'' then advance 1 sc else sc)
            in push kindCasePat (sc\<lparr>patStart := True\<rparr>))
         else Inr (startCmd (advance 1 sc)))
      else if c = CHR ''&'' then
        (if peek 1 sc = CHR ''>'' then
           (let sc = advance 2 sc;
                sc = (if peek 0 sc = CHR ''>'' then advance 1 sc else sc)
            in Inr (sc\<lparr>redirTarget := True, wordStart := True, cmdPos := False\<rparr>))
         else Inr (startCmd (advance 1 sc)))
      else if c = CHR ''|'' then Inr (startCmd (advance 1 sc))
      else if c = CHR ''<'' \<or> c = CHR ''>'' then
        (if peek 1 sc = CHR ''('' then push kindParen (startCmd (advance 2 sc))
         else
           (let (i', pend) = (if c = CHR ''<''
                  then scanRedirOrHeredoc (sc_s sc) (sc_i sc) (pending sc)
                  else (sc_i sc + 1, pending sc));
                i'' = (if i' < length (sc_s sc) \<and>
                          sc_s sc ! i' \<in> set [CHR ''>'', CHR ''&'', CHR ''|'']
                       then i' + 1 else i')
            in Inr (sc\<lparr>sc_i := i'', pending := pend, redirTarget := True, wordStart := True,
                       cmdPos := False\<rparr>)))
      else if c = CHR ''('' then
        (let sc = sc\<lparr>wordStart := True\<rparr>;
             j = skipWhile isBlank (sc_s sc) (sc_i sc + 1)
         in if j < length (sc_s sc) \<and> sc_s sc ! j = CHR '')'' then
              Inr (startCmd (sc\<lparr>sc_i := j + 1\<rparr>))
            else if peek 1 sc = CHR ''('' then
              push kindArith ((advance 2 sc)\<lparr>cmdPos := False\<rparr>)
            else push kindParen (startCmd (advance 1 sc)))
      else \<comment> \<open>a closing parenthesis\<close>
        sbind (if k = kindParen then pop sc else Inr sc) (\<lambda>sc.
        Inr ((advance 1 sc)\<lparr>wordStart := True, cmdPos := False\<rparr>)))"

definition stepWordByte ::
  "nestKind \<Rightarrow> bool \<Rightarrow> bool \<Rightarrow> char \<Rightarrow> nestScanner \<Rightarrow> scan" where
  "stepWordByte k inHead subjectSeen c sc =
     (if c = chBS then
        (if peek 1 sc = chNL then Inr (advance 2 sc)
         else Inr ((advance 2 sc)\<lparr>cmdPos := False\<rparr>))
      else if c = chSQ then push kindSingle ((advance 1 sc)\<lparr>cmdPos := False\<rparr>)
      else if c = chDQ then push kindDouble ((advance 1 sc)\<lparr>cmdPos := False\<rparr>)
      else if c = chBT then
        (if k = kindBacktick then
           sbind (pop sc) (\<lambda>sc. Inr ((advance 1 sc)\<lparr>cmdPos := False\<rparr>))
         else backtick sc)
      else if c = CHR ''#'' \<and> cmdPosOrSep (sc_s sc) (sc_i sc) then Inr (skipComment sc)
      else if c = CHR ''$'' then dollar True (sc\<lparr>cmdPos := False\<rparr>)
      else if c = CHR ''{'' then
        (let sc = advance 1 sc in
         if cmdPos sc \<and> sepAt (sc_s sc) (sc_i sc) then push kindBrace (startCmd sc)
         else Inr (sc\<lparr>cmdPos := False\<rparr>))
      else if c = CHR ''}'' then
        (let sc = advance 1 sc in
         sbind (if cmdPos sc \<and> k = kindBrace \<and> sepAt (sc_s sc) (sc_i sc)
                then pop sc else Inr sc)
           (\<lambda>sc. Inr (sc\<lparr>cmdPos := False\<rparr>)))
      else if isASCIILetter c then
        (let j = skipWhile isASCIILetter (sc_s sc) (sc_i sc + 1);
             word = take (j - sc_i sc) (drop (sc_i sc) (sc_s sc));
             standalone = sepAt (sc_s sc) j;
             sc = sc\<lparr>sc_i := j\<rparr>
         in if inHead then
              (if subjectSeen \<and> word = ''in'' \<and> standalone then
                 sbind (replaceTop kindCasePat sc) (\<lambda>sc. Inr (sc\<lparr>patStart := True\<rparr>))
               else Inr sc)
            else if cmdPos sc \<and> standalone then keyword word sc
            else Inr (sc\<lparr>cmdPos := False\<rparr>))
      else Inr ((advance 1 sc)\<lparr>cmdPos := False\<rparr>))"

definition stepCommandBody ::
  "nestKind \<Rightarrow> bool \<Rightarrow> bool \<Rightarrow> char \<Rightarrow> nestScanner \<Rightarrow> scan" where
  "stepCommandBody k inHead subjectSeen c sc =
     (if isSeparator c then stepSeparator k c sc
      else if wordStart sc then
        (let sc = sc\<lparr>wordStart := False\<rparr> in
         if c = CHR ''!'' \<and> cmdPos sc \<and> sepAt (sc_s sc) (sc_i sc + 1) then
           Inr ((advance 1 sc)\<lparr>wordStart := True\<rparr>)
         else if \<not> inHead then
           sbind (beginWord sc) (\<lambda>(handled, sc).
             if handled then Inr sc else stepWordByte k inHead subjectSeen c sc)
         else stepWordByte k inHead subjectSeen c sc)
      else stepWordByte k inHead subjectSeen c sc)"

definition stepCommand :: "nestKind \<Rightarrow> nestScanner \<Rightarrow> scan" where
  "stepCommand k sc = withByte sc (\<lambda>c.
     let inHead = (k = kindCaseHead0 \<or> k = kindCaseHead1);
         subjectSeen = (k = kindCaseHead1)
     in if inHead then
          (let sc = sc\<lparr>cmdPos := False\<rparr> in
           if k = kindCaseHead0 \<and> \<not> isBlank c \<and> c \<noteq> chNL then
             sbind (replaceTop kindCaseHead1 sc)
               (stepCommandBody kindCaseHead1 inHead subjectSeen c)
           else stepCommandBody k inHead subjectSeen c sc)
        else stepCommandBody k inHead subjectSeen c sc)"

section \<open>The scan\<close>

definition stepMode :: "nestKind \<Rightarrow> nestScanner \<Rightarrow> scan" where
  "stepMode k sc0 =
     (let sc = sc0\<lparr>lineStart := False\<rparr> in
      if k = kindSingle then stepSingle sc
      else if k = kindAnsi then stepAnsi sc
      else if k = kindDouble \<or> k = kindHeredocExpand then stepDouble k sc
      else if k = kindParam then stepParam sc
      else if k \<in> set [kindArith, kindArithSq, kindArithParen, kindArithIndex, kindLet]
      then stepArith k sc
      else if k = kindCasePat \<or> k = kindPatGroup then stepPattern k sc
      else stepCommand k sc)"

definition step :: "nestScanner \<Rightarrow> scan" where
  "step sc =
     (let k = topFrame sc in
      if lineStart sc \<and> isHeredoc k then
        sbind (heredocLine k sc) (\<lambda>(consumed, sc).
          if consumed then Inr sc else stepMode k sc)
      else stepMode k sc)"

text \<open>The driver loop \<^verbatim>\<open>for sc.i < len(sc.s)\<close> is \<open>scanLoop\<close> in the next theory, where its
  termination is proved from the progress of \<open>step\<close>.\<close>

definition initScanner :: "bytes \<Rightarrow> nestScanner" where
  "initScanner script = startCmd
     \<lparr>sc_s = script, sc_i = 0, kinds = [], depth = 0, heredocs = [], pending = [],
      lineStart = True, cmdPos = False, wordStart = False, argWords = 0, inDecl = False,
      redirTarget = False, afterTime = False, patStart = False, prevSpace = False\<rparr>"

end
