(* ===== verification/Nesting_Proofs.thy ===== *)
theory Nesting_Proofs
  imports Nesting
begin

text \<open>
  Safety and termination of the lexical pre-scan. The stack invariant \<open>scanInv\<close> ties the
  depth counter and the heredoc stack to the frame stack; \<open>scanProgress\<close> says that a step
  consumes input or closes a \<^verbatim>\<open>let\<close> frame. Both are established together, one lemma per
  scanner mode.
\<close>

section \<open>Frame kinds and stack operations\<close>

lemma counted_simps [simp]:
  "counted kindParen" "counted kindParam" "counted kindBrace" "counted kindBacktick"
  "counted kindIf" "counted kindElif" "counted kindLoop" "counted kindCase"
  "counted kindArith" "counted kindArithSq" "counted kindArithParen"
  "counted kindArithIndex" "counted kindPatGroup"
  "\<not> counted kindSingle" "\<not> counted kindAnsi" "\<not> counted kindDouble"
  "\<not> counted kindHeredocExpand" "\<not> counted kindHeredocLiteral" "\<not> counted kindCaseHead0"
  "\<not> counted kindCaseHead1" "\<not> counted kindCasePat" "\<not> counted kindLet"
  "\<not> counted kindNone"
  by (simp_all add: counted_def)

lemma isHeredoc_simps [simp]:
  "isHeredoc kindHeredocExpand" "isHeredoc kindHeredocLiteral"
  "counted k \<Longrightarrow> \<not> isHeredoc k"
  "\<not> isHeredoc kindSingle" "\<not> isHeredoc kindAnsi" "\<not> isHeredoc kindDouble"
  "\<not> isHeredoc kindCaseHead0" "\<not> isHeredoc kindCaseHead1" "\<not> isHeredoc kindCasePat"
  "\<not> isHeredoc kindLet" "\<not> isHeredoc kindNone"
  by (auto simp: isHeredoc_def)

lemma topFrame_Cons: "topFrame sc = k \<Longrightarrow> k \<noteq> kindNone \<Longrightarrow> \<exists>ks. kinds sc = k # ks"
  by (auto simp: topFrame_def split: list.splits)

lemma topFrame_kinds [simp]: "kinds sc = k # ks \<Longrightarrow> topFrame sc = k"
  by (simp add: topFrame_def)

lemma advance_sel [simp]:
  "sc_s (advance n sc) = sc_s sc" "sc_i (advance n sc) = sc_i sc + n"
  "kinds (advance n sc) = kinds sc" "depth (advance n sc) = depth sc"
  "heredocs (advance n sc) = heredocs sc" "pending (advance n sc) = pending sc"
  "lineStart (advance n sc) = lineStart sc" "cmdPos (advance n sc) = cmdPos sc"
  "wordStart (advance n sc) = wordStart sc" "prevSpace (advance n sc) = prevSpace sc"
  "patStart (advance n sc) = patStart sc" "argWords (advance n sc) = argWords sc"
  "inDecl (advance n sc) = inDecl sc" "redirTarget (advance n sc) = redirTarget sc"
  "afterTime (advance n sc) = afterTime sc"
  by (simp_all add: advance_def)

lemma startCmd_sel [simp]:
  "sc_s (startCmd sc) = sc_s sc" "sc_i (startCmd sc) = sc_i sc"
  "kinds (startCmd sc) = kinds sc" "depth (startCmd sc) = depth sc"
  "heredocs (startCmd sc) = heredocs sc" "pending (startCmd sc) = pending sc"
  "lineStart (startCmd sc) = lineStart sc" "cmdPos (startCmd sc)"
  "wordStart (startCmd sc)" "prevSpace (startCmd sc) = prevSpace sc"
  "patStart (startCmd sc) = patStart sc" "argWords (startCmd sc) = 0"
  "\<not> inDecl (startCmd sc)" "\<not> redirTarget (startCmd sc)" "\<not> afterTime (startCmd sc)"
  by (simp_all add: startCmd_def)

lemma skipComment_sel [simp]:
  "sc_s (skipComment sc) = sc_s sc" "kinds (skipComment sc) = kinds sc"
  "depth (skipComment sc) = depth sc" "heredocs (skipComment sc) = heredocs sc"
  by (simp_all add: skipComment_def)

lemma skipComment_advances:
  "sc_i sc < length (sc_s sc) \<Longrightarrow> sc_s sc ! sc_i sc \<noteq> chNL \<Longrightarrow> sc_i sc < sc_i (skipComment sc)"
  by (simp add: skipComment_def skipWhile_step [of _ "sc_s sc" "sc_i sc"] Suc_le_lessD)

section \<open>Invariant and progress\<close>

definition scanInv :: "nestScanner \<Rightarrow> bool" where
  "scanInv sc \<longleftrightarrow>
     depth sc = int (length (filter counted (kinds sc))) \<and>
     depth sc \<le> MaxNestingDepth \<and>
     length (heredocs sc) = length (filter isHeredoc (kinds sc))"

definition letFrames :: "nestScanner \<Rightarrow> nat" where
  "letFrames sc = length (filter (\<lambda>k. k = kindLet) (kinds sc))"

definition scanProgress :: "nestScanner \<Rightarrow> nestScanner \<Rightarrow> bool" where
  "scanProgress sc sc' \<longleftrightarrow>
     sc_s sc' = sc_s sc \<and>
     (sc_i sc < sc_i sc' \<and> letFrames sc' \<le> letFrames sc + 1 \<or>
      sc_i sc' = sc_i sc \<and> letFrames sc' < letFrames sc)"

text \<open>What every mode guarantees from a state whose current byte exists.\<close>

definition goodStep :: "nestScanner \<Rightarrow> scan \<Rightarrow> bool" where
  "goodStep sc = rspec (\<lambda>e. scanInv sc \<longrightarrow> e = NestingTooDeep)
                       (\<lambda>sc'. scanProgress sc sc' \<and> (scanInv sc \<longrightarrow> scanInv sc'))"

lemmas step_defs = goodStep_def scanProgress_def scanInv_def letFrames_def
  push_def pop_def replaceTop_def withByte_def Let_def

lemma startNextHeredoc_sel [simp]:
  "sc_s (startNextHeredoc sc) = sc_s sc" "sc_i (startNextHeredoc sc) = sc_i sc"
  "depth (startNextHeredoc sc) = depth sc"
  "length (filter counted (kinds (startNextHeredoc sc))) = length (filter counted (kinds sc))"
  "length (filter (\<lambda>k. k = kindLet) (kinds (startNextHeredoc sc))) =
   length (filter (\<lambda>k. k = kindLet) (kinds sc))"
  "length (heredocs (startNextHeredoc sc)) = length (filter isHeredoc (kinds (startNextHeredoc sc)))
   \<longleftrightarrow> length (heredocs sc) = length (filter isHeredoc (kinds sc))"
  by (auto simp: startNextHeredoc_def split: list.splits)

lemma readHeredocDelim_advances:
  "readHeredocDelim script i b ex = (d, ex', e) \<Longrightarrow> i \<le> e"
proof (induction script i b ex rule: readHeredocDelim.induct)
  case (1 script i b ex)
  let ?q = "\<lambda>c. skipWhile (\<lambda>d. d \<noteq> c) script (i + 1)"
  note unfold = readHeredocDelim.simps [of script i b ex]
  show ?case
  proof (cases "i < length script")
    case False
    then show ?thesis using "1.prems" unfold by simp
  next
    case True
    define c where "c = script ! i"
    have ge: "i + 1 \<le> ?q c" by simp
    show ?thesis
      using "1.prems" "1.IH" [OF True c_def] True ge
      unfolding unfold c_def [symmetric] Let_def
      by (simp del: skipWhile_ge split: if_splits)
  qed
qed

lemma scanRedirOrHeredoc_advances:
  assumes "scanRedirOrHeredoc script i pend = (i', pend')"
  shows "i < i'"
proof -
  have "skipWhile P script (i + n) \<le> e"
    if "readHeredocDelim script (skipWhile P script (i + n)) [] True = (d, ex, e)" for P n d ex e
    using that by (rule readHeredocDelim_advances)
  moreover have "i + n \<le> skipWhile P script (i + n)" for P n
    by simp
  ultimately have "i + n \<le> e"
    if "readHeredocDelim script (skipWhile P script (i + n)) [] True = (d, ex, e)" for P n d ex e
    using that order_trans by blast
  from this [of _ 2] this [of _ 3] assms show ?thesis
    by (auto simp: scanRedirOrHeredoc_def Let_def split: if_splits prod.splits)
      fastforce+
qed

text \<open>Only five fields matter to \<open>goodStep\<close>.\<close>

lemma goodStep_frame [simp]:
  "goodStep (sc\<lparr>cmdPos := b\<rparr>) = goodStep sc"
  "goodStep (sc\<lparr>lineStart := b\<rparr>) = goodStep sc"
  "goodStep (sc\<lparr>wordStart := b\<rparr>) = goodStep sc"
  "goodStep (sc\<lparr>patStart := b\<rparr>) = goodStep sc"
  "goodStep (sc\<lparr>prevSpace := b\<rparr>) = goodStep sc"
  by (auto simp: fun_eq_iff goodStep_def scanProgress_def scanInv_def letFrames_def)

lemma goodStep_dollar: "goodStep sc (dollar ansi sc)"
  by (simp add: dollar_def step_defs rspec_if)

lemma goodStep_backtick: "goodStep sc (backtick sc)"
  by (simp add: backtick_def step_defs rspec_if)

section \<open>The lexical modes\<close>

lemma goodStep_single:
  assumes "topFrame sc = kindSingle" "sc_i sc < length (sc_s sc)"
  shows "goodStep sc (stepSingle sc)"
  using assms topFrame_Cons [OF assms(1)]
  by (auto simp: stepSingle_def step_defs rspec_rules)

lemma goodStep_ansi:
  assumes "topFrame sc = kindAnsi" "sc_i sc < length (sc_s sc)"
  shows "goodStep sc (stepAnsi sc)"
  using assms topFrame_Cons [OF assms(1)]
  by (auto simp: stepAnsi_def step_defs rspec_rules)

lemma goodStep_double:
  assumes "topFrame sc = k" "k = kindDouble \<or> k = kindHeredocExpand" "sc_i sc < length (sc_s sc)"
  shows "goodStep sc (stepDouble k sc)"
proof -
  obtain ks where "kinds sc = k # ks"
    using assms(2) topFrame_Cons [OF assms(1)] by auto
  then show ?thesis
    using assms goodStep_dollar [of sc False] goodStep_backtick [of sc]
    by (auto simp: stepDouble_def step_defs rspec_rules)
qed

lemma goodStep_param:
  assumes "topFrame sc = kindParam" "sc_i sc < length (sc_s sc)"
  shows "goodStep sc (stepParam sc)"
  using assms topFrame_Cons [OF assms(1)] goodStep_dollar [of sc True] goodStep_backtick [of sc]
  by (auto simp: stepParam_def step_defs rspec_rules)

lemma goodStep_arith:
  assumes "topFrame sc = k" "sc_i sc < length (sc_s sc)"
    "k \<in> {kindArith, kindArithSq, kindArithParen, kindArithIndex, kindLet}"
  shows "goodStep sc (stepArith k sc)"
proof -
  obtain ks where "kinds sc = k # ks"
    using assms(3) topFrame_Cons [OF assms(1)] by auto
  then show ?thesis
    using assms goodStep_dollar [of "sc\<lparr>prevSpace := False\<rparr>" True]
      goodStep_backtick [of "sc\<lparr>prevSpace := False\<rparr>"]
    by (auto simp: stepArith_def step_defs rspec_rules)
qed

lemma goodStep_pattern:
  assumes "topFrame sc = k" "sc_i sc < length (sc_s sc)" "k = kindCasePat \<or> k = kindPatGroup"
  shows "goodStep sc (stepPattern k sc)"
proof -
  obtain ks where ks: "kinds sc = k # ks"
    using assms(3) topFrame_Cons [OF assms(1)] by auto
  have comment: "sc_s sc ! sc_i sc = CHR ''#'' \<Longrightarrow> sc_i sc < sc_i (skipComment sc)"
    using assms(2) by (intro skipComment_advances) auto
  show ?thesis
    using assms ks comment goodStep_dollar [of "sc\<lparr>patStart := False\<rparr>" True]
      goodStep_backtick [of "sc\<lparr>patStart := False\<rparr>"]
    by (auto simp: stepPattern_def step_defs rspec_rules topFrame_def split: list.splits)
qed

section \<open>Command context\<close>

lemma popElifs_spec:
  "rspec (\<lambda>e. scanInv sc \<longrightarrow> e = NestingTooDeep)
     (\<lambda>sc'. sc_s sc' = sc_s sc \<and> sc_i sc' = sc_i sc \<and> letFrames sc' = letFrames sc \<and>
            (scanInv sc \<longrightarrow> scanInv sc')) (popElifs sc)"
proof (induction sc rule: popElifs.induct)
  case (1 sc)
  show ?case
  proof (cases "topFrame sc = kindElif")
    case True
    then obtain ks where ks: "kinds sc = kindElif # ks"
      using topFrame_Cons [OF True] by auto
    define sc' where "sc' = sc\<lparr>kinds := ks, depth := depth sc - 1\<rparr>"
    have pop: "pop sc = Inr sc'"
      by (simp add: pop_def ks sc'_def)
    from "1.IH" [OF True pop]
    show ?thesis
      by (subst popElifs.simps)
        (auto simp: True pop sc'_def ks scanInv_def letFrames_def elim!: rspec_mono)
  next
    case False
    then show ?thesis by (subst popElifs.simps) simp
  qed
qed

text \<open>
  A keyword is dispatched after its letters have been consumed, so it need not advance
  further; it may open at most one \<^verbatim>\<open>let\<close> frame.
\<close>

definition weakStep :: "nestScanner \<Rightarrow> scan \<Rightarrow> bool" where
  "weakStep sc = rspec (\<lambda>e. scanInv sc \<longrightarrow> e = NestingTooDeep)
     (\<lambda>sc'. sc_s sc' = sc_s sc \<and> sc_i sc \<le> sc_i sc' \<and> letFrames sc' \<le> letFrames sc + 1 \<and>
            (scanInv sc \<longrightarrow> scanInv sc'))"

lemma weakStep_popIf:
  assumes "k \<noteq> kindNone" "\<not> isHeredoc k"
  shows "weakStep sc
    (sbind (if topFrame sc = k then pop sc else Inr sc) (\<lambda>sc. Inr (sc\<lparr>cmdPos := b\<rparr>)))"
proof (cases "topFrame sc = k")
  case True
  then obtain ks where "kinds sc = k # ks"
    using topFrame_Cons [OF True assms(1)] by auto
  then show ?thesis
    using assms(2) by (auto simp: weakStep_def step_defs rspec_rules)
next
  case False
  then show ?thesis
    by (simp add: weakStep_def step_defs)
qed

lemma weakStep_keyword: "weakStep sc (keyword word sc)"
proof -
  have fi: "weakStep sc (sbind (popElifs sc) (\<lambda>sc.
        sbind (if topFrame sc = kindIf then pop sc else Inr sc) (\<lambda>sc.
        Inr (sc\<lparr>cmdPos := False\<rparr>))))"
    unfolding weakStep_def rspec_sbind
    by (rule rspec_mono [OF popElifs_spec])
      (auto simp: rspec_rules pop_def scanInv_def letFrames_def dest!: topFrame_Cons)
  have skip: "sc_i sc \<le> skipWhile P (sc_s sc) (skipWhile Q (sc_s sc) (sc_i sc))" for P Q
    by (rule order_trans [OF skipWhile_ge skipWhile_ge])
  have split: "weakStep sc (if b then r else r')" if "weakStep sc r" "weakStep sc r'" for b r r'
    using that by simp
  show ?thesis
    unfolding keyword_def Let_def
    by (intro split fi weakStep_popIf)
      (simp_all add: weakStep_def step_defs rspec_rules skip)
qed

text \<open>\<open>beginWord\<close> either consumes input or leaves position and stacks alone.\<close>

lemma beginWord_spec:
  assumes "sc_i sc < length (sc_s sc)"
  shows "rspec (\<lambda>e. scanInv sc \<longrightarrow> e = NestingTooDeep)
     (\<lambda>(handled, sc').
        if handled then scanProgress sc sc' \<and> (scanInv sc \<longrightarrow> scanInv sc')
        else sc_s sc' = sc_s sc \<and> sc_i sc' = sc_i sc \<and> kinds sc' = kinds sc \<and>
             depth sc' = depth sc \<and> heredocs sc' = heredocs sc) (beginWord sc)"
  using assms
  unfolding beginWord_def Let_def withByte_def
  by (simp only: rspec_rules) (intro conjI impI, simp_all add: step_defs rspec_rules)

lemma goodStep_if:
  "(b \<Longrightarrow> goodStep sc r) \<Longrightarrow> (\<not> b \<Longrightarrow> goodStep sc r') \<Longrightarrow> goodStep sc (if b then r else r')"
  by simp

lemma goodStep_popIf:
  assumes "k \<noteq> kindNone" "\<not> isHeredoc k" "topFrame sc = k'" "0 < n"
    "\<And>sc. sc_s (f sc) = sc_s sc \<and> sc_i (f sc) = sc_i sc + n \<and> kinds (f sc) = kinds sc \<and>
      depth (f sc) = depth sc \<and> heredocs (f sc) = heredocs sc"
  shows "goodStep sc (sbind (if b \<and> k' = k \<and> b' then pop sc else Inr sc) (\<lambda>sc. Inr (f sc)))"
proof (cases "topFrame sc = k \<and> b \<and> b'")
  case True
  then obtain ks where "kinds sc = k # ks"
    using topFrame_Cons assms(1) by blast
  then show ?thesis
    using assms(2-) by (auto simp: step_defs rspec_rules)
next
  case False
  then show ?thesis
    using assms by (auto simp: step_defs)
qed

lemma goodStep_redir:
  "goodStep sc (let (i', pend) = (if c = CHR ''<''
                  then scanRedirOrHeredoc (sc_s sc) (sc_i sc) (pending sc)
                  else (sc_i sc + 1, pending sc));
                i'' = (if i' < length (sc_s sc) \<and>
                          sc_s sc ! i' \<in> set [CHR ''>'', CHR ''&'', CHR ''|'']
                       then i' + 1 else i')
            in Inr (sc\<lparr>sc_i := i'', pending := pend, redirTarget := True, wordStart := True,
                       cmdPos := False\<rparr>))"
proof -
  obtain i' pend where eq: "(if c = CHR ''<''
                  then scanRedirOrHeredoc (sc_s sc) (sc_i sc) (pending sc)
                  else (sc_i sc + 1, pending sc)) = (i', pend)"
    by (rule prod.exhaust)
  then have "sc_i sc < i'"
    using scanRedirOrHeredoc_advances by (auto split: if_splits)
  then show ?thesis
    unfolding eq by (simp add: step_defs)
qed

lemma goodStep_separator:
  assumes "topFrame sc = k"
  shows "goodStep sc (stepSeparator k c sc)"
proof -
  have closing: "goodStep sc (sbind (if k = kindParen then pop sc else Inr sc) (\<lambda>sc.
        Inr ((advance 1 sc)\<lparr>wordStart := True, cmdPos := False\<rparr>)))"
    using goodStep_popIf [OF _ _ assms, of kindParen 1
        "\<lambda>sc. (advance 1 sc)\<lparr>wordStart := True, cmdPos := False\<rparr>" True True]
    by simp
  show ?thesis
    unfolding stepSeparator_def
    by (intro goodStep_if closing goodStep_redir)
      (simp_all add: step_defs rspec_rules less_SucI)
qed

lemma goodStep_keyword:
  assumes "sc_i sc < j"
  shows "goodStep sc (keyword word (sc\<lparr>sc_i := j\<rparr>))"
  using weakStep_keyword [of "sc\<lparr>sc_i := j\<rparr>" word] assms
  unfolding weakStep_def goodStep_def
  by (elim rspec_mono) (auto simp: scanProgress_def scanInv_def letFrames_def)

lemma goodStep_wordByte:
  assumes "topFrame sc = k" "sc_i sc < length (sc_s sc)" "c = sc_s sc ! sc_i sc"
    and head: "inHead \<longrightarrow> k = kindCaseHead0 \<or> k = kindCaseHead1"
  shows "goodStep sc (stepWordByte k inHead subjectSeen c sc)"
proof -
  have word: "sc_i sc < skipWhile isASCIILetter (sc_s sc) (sc_i sc + 1)"
    by simp
  have comment: "goodStep sc (Inr (skipComment sc))" if "c = CHR ''#'' \<and> b" for b
  proof -
    have "sc_i sc < sc_i (skipComment sc)"
      using assms(2,3) that by (intro skipComment_advances) auto
    then show ?thesis by (simp add: step_defs)
  qed
  have brace: "goodStep sc (let sc = advance 1 sc in
         sbind (if cmdPos sc \<and> k = kindBrace \<and> sepAt (sc_s sc) (sc_i sc)
                then pop sc else Inr sc) (\<lambda>sc. Inr (sc\<lparr>cmdPos := False\<rparr>)))"
    using assms(1) topFrame_Cons [of sc kindBrace]
    by (auto simp: step_defs rspec_rules)
  have tick: "goodStep sc (sbind (pop sc) (\<lambda>sc. Inr ((advance 1 sc)\<lparr>cmdPos := False\<rparr>)))"
    if "k = kindBacktick"
    using assms(1) that topFrame_Cons [of sc kindBacktick]
    by (auto simp: step_defs rspec_rules)
  have inKw: "goodStep sc (sbind (replaceTop kindCasePat (sc\<lparr>sc_i := j\<rparr>))
      (\<lambda>sc. Inr (sc\<lparr>patStart := True\<rparr>)))" if "inHead" "sc_i sc < j" for j
    using head that assms(1) topFrame_Cons [of sc k]
    by (auto simp: step_defs rspec_rules)
  have dollar: "goodStep sc (dollar True (sc\<lparr>cmdPos := False\<rparr>))"
    using goodStep_dollar [of "sc\<lparr>cmdPos := False\<rparr>" True] by simp
  show ?thesis
    unfolding stepWordByte_def
    by (intro goodStep_if comment brace tick goodStep_backtick dollar;
        (simp only: Let_def)?; (intro goodStep_if inKw goodStep_keyword word)?)
      (simp_all add: step_defs rspec_rules)
qed

lemma goodStep_commandBody:
  assumes "topFrame sc = k" "sc_i sc < length (sc_s sc)" "c = sc_s sc ! sc_i sc"
    and "inHead \<longrightarrow> k = kindCaseHead0 \<or> k = kindCaseHead1"
  shows "goodStep sc (stepCommandBody k inHead seen c sc)"
proof -
  have byte: "goodStep sc' (stepWordByte k inHead seen c sc')"
    if "topFrame sc' = k" "sc_s sc' = sc_s sc" "sc_i sc' = sc_i sc" for sc'
    using that assms by (intro goodStep_wordByte) auto
  let ?w = "sc\<lparr>wordStart := False\<rparr>"
  have begin_word: "goodStep ?w (sbind (beginWord ?w) (\<lambda>(handled, sc).
      if handled then Inr sc else stepWordByte k inHead seen c sc))"
    unfolding goodStep_def rspec_sbind
  proof (rule rspec_mono [OF beginWord_spec], goal_cases)
    case (3 x)
    obtain handled sc2 where x: "x = (handled, sc2)" by (cases x)
    show ?case
      using 3 byte [of sc2] assms(1)
      by (auto simp: x goodStep_def scanProgress_def scanInv_def letFrames_def topFrame_def)
  qed (use assms(2) in auto)
  show ?thesis
    using byte [of ?w] byte [of sc] begin_word assms(1) goodStep_separator [of sc k c]
    by (auto simp: stepCommandBody_def Let_def topFrame_def goodStep_def scanProgress_def
        scanInv_def letFrames_def)
qed

lemma goodStep_command:
  assumes "topFrame sc = k" "sc_i sc < length (sc_s sc)"
  shows "goodStep sc (stepCommand k sc)"
proof -
  let ?c = "sc_s sc ! sc_i sc" and ?sc = "sc\<lparr>cmdPos := False\<rparr>"
  let ?body = "\<lambda>k h. stepCommandBody k h (k = kindCaseHead1) ?c"
  have plain: "goodStep sc' (?body k h sc')"
    if "topFrame sc' = k" "h \<longrightarrow> k = kindCaseHead0 \<or> k = kindCaseHead1"
      "sc_s sc' = sc_s sc" "sc_i sc' = sc_i sc" for sc' h
    using that assms by (intro goodStep_commandBody) auto
  have subject: "goodStep ?sc (sbind (replaceTop kindCaseHead1 ?sc)
      (stepCommandBody kindCaseHead1 True False ?c))" if k: "k = kindCaseHead0"
  proof -
    obtain ks where ks: "kinds sc = kindCaseHead0 # ks"
      using assms(1) k topFrame_Cons [of sc k] by auto
    let ?r = "?sc\<lparr>kinds := kindCaseHead1 # ks\<rparr>"
    have "goodStep ?r (stepCommandBody kindCaseHead1 True False ?c ?r)"
      using assms(2) by (intro goodStep_commandBody) auto
    then show ?thesis
      by (simp add: replaceTop_def ks goodStep_def scanProgress_def scanInv_def letFrames_def)
  qed
  show ?thesis
    using plain [of ?sc True] plain [of sc False] subject assms
    by (auto simp: stepCommand_def withByte_def Let_def topFrame_def)
qed

section \<open>One step, and the whole scan\<close>

lemma goodStep_mode:
  assumes "topFrame sc = k" "sc_i sc < length (sc_s sc)"
  shows "goodStep sc (stepMode k sc)"
proof -
  let ?sc = "sc\<lparr>lineStart := False\<rparr>"
  have t: "topFrame ?sc = k" and i: "sc_i ?sc < length (sc_s ?sc)"
    using assms by (simp_all add: topFrame_def)
  have "goodStep ?sc (stepMode k sc)"
    unfolding stepMode_def Let_def
    using t i
    by (intro goodStep_if)
      (auto simp del: goodStep_frame intro: goodStep_single goodStep_ansi goodStep_double goodStep_param goodStep_arith
        goodStep_pattern goodStep_command)
  then show ?thesis by simp
qed

lemma heredocLine_spec:
  assumes "topFrame sc = k" "isHeredoc k" "sc_i sc < length (sc_s sc)"
  shows "rspec (\<lambda>e. scanInv sc \<longrightarrow> e = NestingTooDeep)
    (\<lambda>(consumed, sc'). if consumed then scanProgress sc sc' \<and> (scanInv sc \<longrightarrow> scanInv sc')
                        else sc' = sc) (heredocLine k sc)"
proof -
  have k: "k \<noteq> kindNone" "k \<noteq> kindLet" "\<not> counted k" using assms(2) by (auto simp: isHeredoc_def)
  obtain ks where ks: "kinds sc = k # ks"
    using topFrame_Cons [OF assms(1) k(1)] by auto
  let ?e = "skipWhile (\<lambda>c. c \<noteq> chNL) (sc_s sc) (sc_i sc)"
  have eol: "sc_i sc \<le> ?e" "?e \<le> length (sc_s sc)"
    using assms(3) by simp_all
  show ?thesis
  proof (cases "heredocs sc")
    case Nil
    then show ?thesis using ks assms(2) by (simp add: heredocLine_def scanInv_def)
  next
    case (Cons info hs)
    then show ?thesis
      using ks assms(2,3) k eol
      by (auto simp: heredocLine_def step_defs rspec_rules simp del: skipWhile_ge skipWhile_le)
  qed
qed

lemma goodStep_step:
  assumes "sc_i sc < length (sc_s sc)"
  shows "goodStep sc (step sc)"
proof -
  have mode: "goodStep sc (stepMode (topFrame sc) sc)"
    using assms by (intro goodStep_mode) auto
  have "goodStep sc (sbind (heredocLine (topFrame sc) sc) (\<lambda>(consumed, sc').
      if consumed then Inr sc' else stepMode (topFrame sc) sc'))" if "isHeredoc (topFrame sc)"
    unfolding goodStep_def rspec_sbind
    by (rule rspec_mono [OF heredocLine_spec [OF refl that assms]])
      (use mode in \<open>auto simp: goodStep_def split: if_splits\<close>)
  then show ?thesis using mode by (simp add: step_def Let_def)
qed

lemma step_measure:
  assumes "step sc = Inr sc'" "sc_i sc < length (sc_s sc)"
  shows "2 * (length (sc_s sc') - sc_i sc') + letFrames sc' <
         2 * (length (sc_s sc) - sc_i sc) + letFrames sc"
  using goodStep_step [OF assms(2)] assms
  by (auto simp: goodStep_def scanProgress_def)

function scanLoop :: "nestScanner \<Rightarrow> scan" where
  "scanLoop sc = (if sc_i sc < length (sc_s sc) then sbind (step sc) scanLoop else Inr sc)"
  by pat_completeness auto
termination
  by (relation "measure (\<lambda>sc. 2 * (length (sc_s sc) - sc_i sc) + letFrames sc)")
    (auto dest: step_measure)

declare scanLoop.simps [simp del]

text \<open>\<^verbatim>\<open>checkScriptNestingDepth\<close>: the error of the scan, if any.\<close>

definition checkScriptNestingDepth :: "bytes \<Rightarrow> scanError option" where
  "checkScriptNestingDepth script =
     (case scanLoop (initScanner script) of Inl e \<Rightarrow> Some e | Inr _ \<Rightarrow> None)"

lemma scanLoop_safe:
  "scanInv sc \<Longrightarrow> rspec (\<lambda>e. e = NestingTooDeep)
     (\<lambda>sc'. scanInv sc' \<and> sc_s sc' = sc_s sc \<and> length (sc_s sc) \<le> sc_i sc') (scanLoop sc)"
proof (induction sc rule: scanLoop.induct)
  case (1 sc)
  show ?case
  proof (cases "sc_i sc < length (sc_s sc)")
    case False
    then show ?thesis using "1.prems" by (subst scanLoop.simps) simp
  next
    case True
    from goodStep_step [OF True] "1.prems"
    have "rspec (\<lambda>e. e = NestingTooDeep) (\<lambda>sc'. step sc = Inr sc' \<and> scanInv sc' \<and> sc_s sc' = sc_s sc)
        (step sc)"
      by (cases "step sc") (auto simp: goodStep_def scanProgress_def)
    then have "rspec (\<lambda>e. e = NestingTooDeep)
        (\<lambda>x. rspec (\<lambda>e. e = NestingTooDeep)
          (\<lambda>sc'. scanInv sc' \<and> sc_s sc' = sc_s sc \<and> length (sc_s sc) \<le> sc_i sc') (scanLoop x))
        (step sc)"
      by (rule rspec_mono) (use "1.IH" True in auto)
    then show ?thesis
      using True by (subst scanLoop.simps) (simp add: rspec_sbind)
  qed
qed

lemma scanInv_init: "scanInv (initScanner script)"
  by (simp add: scanInv_def initScanner_def MaxNestingDepth_def)

end
