(* ===== verification/Nesting_Depth.thy ===== *)
theory Nesting_Depth
  imports Nesting_Proofs "HOL-Library.Multiset"
begin

text \<open>
  What the nesting guards decide: the lexical scan never fails with a run-time panic, its
  counter is the number of open frames, it counts every opener of a family of nested
  scripts, it never counts quoted text, and the guard on the syntax tree computes the
  depth of the tree.
\<close>

section \<open>Reachable states\<close>

inductive scanReach :: "bytes \<Rightarrow> nestScanner \<Rightarrow> bool" for script where
  start: "scanReach script (initScanner script)"
| advance: "scanReach script sc \<Longrightarrow> sc_i sc < length (sc_s sc) \<Longrightarrow> step sc = Inr sc' \<Longrightarrow>
     scanReach script sc'"

text \<open>C14. In every state the scan reaches, the depth counter is the number of counted frames
  on the stack and is within the limit, and the heredoc stack has one entry per heredoc
  frame.\<close>

theorem scan_depth_is_frame_count:
  assumes "scanReach script sc"
  shows "depth sc = int (length (filter counted (kinds sc))) \<and> depth sc \<le> MaxNestingDepth \<and>
         length (heredocs sc) = length (filter isHeredoc (kinds sc)) \<and> sc_s sc = script"
proof -
  have "scanInv sc \<and> sc_s sc = script"
    using assms
  proof induction
    case start
    then show ?case using scanInv_init by (simp add: initScanner_def)
  next
    case (advance sc sc')
    then show ?case
      using goodStep_step [of sc] by (auto simp: goodStep_def scanProgress_def)
  qed
  then show ?thesis by (simp add: scanInv_def)
qed

theorem scan_depth_is_frame_count_witness:
  "\<exists>sc. scanReach ''{ '' sc \<and> kinds sc = [kindBrace] \<and> depth sc = 1"
proof -
  have "case step (initScanner ''{ '') of Inl _ \<Rightarrow> False | Inr sc \<Rightarrow> kinds sc = [kindBrace]"
    by code_simp
  then obtain sc where sc: "step (initScanner ''{ '') = Inr sc" "kinds sc = [kindBrace]"
    by (auto split: sum.splits)
  have "scanReach ''{ '' sc"
    by (rule scanReach.advance [OF scanReach.start _ sc(1)]) (simp add: initScanner_def)
  with scan_depth_is_frame_count [OF this] sc(2) show ?thesis
    by (auto simp: counted_def)
qed

text \<open>C13. The pre-scan is total and memory-safe: on every script it returns, and the only
  error it can return is the nesting limit; no slice access of the scanner is out of
  range.\<close>

theorem scan_never_panics:
  "checkScriptNestingDepth script = None \<or>
   checkScriptNestingDepth script = Some NestingTooDeep"
  using scanLoop_safe [OF scanInv_init [of script]]
  by (auto simp: checkScriptNestingDepth_def split: sum.splits)

section \<open>Openers are counted\<close>

text \<open>Openers that keep the scanner in command position, with the frame each one opens.\<close>

definition openers :: "(bytes \<times> nestKind) list" where
  "openers = [(''$( '', kindParen), (''( '', kindParen), (''<( '', kindParen), (''>( '', kindParen), (''{ '', kindBrace), 
     (''if '', kindIf), (''elif '', kindElif), (''while '', kindLoop), (''until '', kindLoop)]"

definition commandReady :: "bytes \<Rightarrow> bytes \<Rightarrow> nestScanner \<Rightarrow> bool" where
  "commandReady pre rest sc \<longleftrightarrow>
     sc_s sc = pre @ rest \<and> sc_i sc = length pre \<and> cmdPos sc \<and> wordStart sc \<and>
     \<not> redirTarget sc \<and> \<not> afterTime sc \<and>
     topFrame sc \<in> {kindNone, kindParen, kindBrace, kindIf, kindElif, kindLoop}"

lemma commandReady_mode:
  assumes "commandReady pre rest sc" "rest \<noteq> []"
  shows "step sc = stepCommandBody (topFrame sc) False False (hd rest) (sc\<lparr>lineStart := False\<rparr>)"
proof -
  have "sc_s sc ! sc_i sc = hd rest" "sc_i sc < length (sc_s sc)"
    using assms by (auto simp: commandReady_def nth_append hd_conv_nth)
  moreover have "topFrame sc \<in> {kindNone, kindParen, kindBrace, kindIf, kindElif, kindLoop}"
    using assms by (simp add: commandReady_def)
  ultimately show ?thesis
    by (elim insertE emptyE) (simp_all add: step_def stepMode_def stepCommand_def withByte_def Let_def)
qed

lemma blank_step:
  assumes "commandReady pre (CHR '' '' # rest) sc"
  shows "step sc = Inr ((advance 1 (sc\<lparr>lineStart := False\<rparr>))\<lparr>wordStart := True\<rparr>)"
  using commandReady_mode [OF assms] by (simp add: stepCommandBody_def isSeparator_def stepSeparator_def)

lemma startCmd_absorb:
  "startCmd (sc\<lparr>cmdPos := b\<rparr>) = startCmd sc"
  "startCmd (sc\<lparr>wordStart := b\<rparr>) = startCmd sc"
  "startCmd (sc\<lparr>afterTime := b\<rparr>) = startCmd sc"
  "startCmd (sc\<lparr>inDecl := b\<rparr>) = startCmd sc"
  "startCmd (sc\<lparr>argWords := n\<rparr>) = startCmd sc"
  "startCmd (sc\<lparr>sc_i := i, cmdPos := b\<rparr>) = startCmd (sc\<lparr>sc_i := i\<rparr>)"
  by (simp_all add: startCmd_def)

lemmas command_simps = stepCommandBody_def isSeparator_def stepSeparator_def beginWord_def Let_def
    stepWordByte_def withByte_def peek_def nth_append dollar_def backtick_def isASCIILetter_def isASCIIDigit_def
    sepAt_def isWordSep_def skipWhile_def keyword_def isBlank_def hasPrefix_def

lemma opener_step:
  assumes ready: "commandReady pre (op1 @ rest) sc" and op: "(op1, k) \<in> set openers"
    and rest: "rest = [] \<or> \<not> isBlank (hd rest) \<and> hd rest \<noteq> CHR '')''"
  shows "step sc = push k (startCmd (sc\<lparr>lineStart := False, sc_i := sc_i sc + (length op1 - 1)\<rparr>))"
proof -
  have sc: "sc_s sc = pre @ op1 @ rest" "sc_i sc = length pre" "cmdPos sc" "wordStart sc" 
     "\<not> redirTarget sc" "\<not> afterTime sc"
    using ready by (auto simp: commandReady_def)
  have blank: "takeWhile isBlank rest = []" "\<not> (rest \<noteq> [] \<and> rest ! 0 = CHR '')'')"
    using rest by (cases rest; auto)+
  have mode: "step sc = stepCommandBody (topFrame sc) False False (hd (op1 @ rest)) (sc\<lparr>lineStart := False\<rparr>)"
    using op by (intro commandReady_mode [OF ready]) (auto simp: openers_def)
  show ?thesis 
    unfolding mode using op
    unfolding openers_def
    by (simp only: list.set Un_iff insert_iff empty_iff prod.inject, elim disjE conjE FalseE)
      (simp_all add: sc blank command_simps startCmd_def advance_def)
qed

lemma scanLoop_step:
  "sc_i sc < length (sc_s sc) \<Longrightarrow> step sc = Inr sc' \<Longrightarrow> scanLoop sc = scanLoop sc'"
  by (subst scanLoop.simps) simp

text \<open>An opener and its blank: one counted frame more, or the limit is exceeded.\<close>

lemma opener_scan:
  assumes ready: "commandReady pre (op1 @ rest) sc" and op: "(op1, k) \<in> set openers"
    and rest: "rest = [] \<or> \<not> isBlank (hd rest) \<and> hd rest \<noteq> CHR '')''"
  shows "depth sc + 1 > MaxNestingDepth \<Longrightarrow> scanLoop sc = Inl NestingTooDeep"
    and "depth sc + 1 \<le> MaxNestingDepth \<Longrightarrow>
         \<exists>sc'. scanLoop sc = scanLoop sc' \<and> commandReady (pre @ op1) rest sc' \<and> depth sc' = depth sc + 1"
proof -
  let ?sc1 = "startCmd (sc\<lparr>lineStart := False, sc_i := sc_i sc + (length op1 - 1)\<rparr>)"
  let ?sc2 = "?sc1\<lparr>kinds := k # kinds sc, depth := depth sc + 1\<rparr>"
  have op': "counted k" "k \<in> {kindParen, kindBrace, kindIf, kindElif, kindLoop}"
    using op by (auto simp: openers_def)
  obtain w where w: "op1 = w @ '' ''"
    using op by (auto simp: openers_def)
  have len: "sc_i sc < length (sc_s sc)" and step: "step sc = push k ?sc1"
    using ready w opener_step [OF ready op rest] by (auto simp: commandReady_def)
  show "scanLoop sc = Inl NestingTooDeep" if "depth sc + 1 > MaxNestingDepth"
    using that len by (subst scanLoop.simps) (simp add: step push_def op')
  have ready2: "commandReady (pre @ w) (CHR '' '' # rest) ?sc2"
    using ready op' w by (auto simp: commandReady_def)
  let ?sc3 = "(advance 1 (?sc2\<lparr>lineStart := False\<rparr>))\<lparr>wordStart := True\<rparr>"
  show "\<exists>sc'. scanLoop sc = scanLoop sc' \<and> commandReady (pre @ op1) rest sc' \<and> depth sc' = depth sc + 1"
    if "depth sc + 1 \<le> MaxNestingDepth"
  proof (intro exI conjI)
    have "scanLoop sc = scanLoop ?sc2"
      using that by (intro scanLoop_step [OF len]) (simp add: step push_def op')
    also have "\<dots> = scanLoop ?sc3"
      using ready2 by (intro scanLoop_step [OF _ blank_step [OF ready2]]) (simp add: commandReady_def)
    finally show "scanLoop sc = scanLoop ?sc3" .
    show "commandReady (pre @ op1) rest ?sc3"
      using ready2 w by (auto simp: commandReady_def topFrame_def)
  qed simp
qed


lemma openers_hd:
  "p \<in> set openers \<Longrightarrow> fst p \<noteq> [] \<and> \<not> isBlank (hd (fst p)) \<and> hd (fst p) \<noteq> CHR '')''"
  by (auto simp: openers_def isBlank_def)

lemma openers_scan:
  "commandReady pre (concat (map fst ops)) sc \<Longrightarrow> set ops \<subseteq> set openers \<Longrightarrow>
   depth sc \<le> MaxNestingDepth \<Longrightarrow>
   (if depth sc + int (length ops) > MaxNestingDepth then scanLoop sc = Inl NestingTooDeep
    else \<exists>sc'. scanLoop sc = Inr sc')"
proof (induction ops arbitrary: pre sc)
  case Nil
  then show ?case by (subst scanLoop.simps) (simp add: commandReady_def)
next
  case (Cons a ops)
  obtain op1 k where a: "a = (op1, k)" by (cases a)
  let ?rest = "concat (map fst ops)"
  have rest: "?rest = [] \<or> \<not> isBlank (hd ?rest) \<and> hd ?rest \<noteq> CHR '')''"
    using Cons.prems(2) openers_hd by (cases ops) auto
  have op: "(op1, k) \<in> set openers" and ready: "commandReady pre (op1 @ ?rest) sc"
    using Cons.prems(1,2) by (auto simp: a)
  show ?case
  proof (cases "depth sc + 1 > MaxNestingDepth")
    case True
    then show ?thesis using opener_scan(1) [OF ready op rest] by simp
  next
    case False
    then obtain sc' where sc': "scanLoop sc = scanLoop sc'" "commandReady (pre @ op1) ?rest sc'"
        "depth sc' = depth sc + 1"
      using opener_scan(2) [OF ready op rest] by auto
    then show ?thesis using Cons.IH [OF sc'(2)] Cons.prems(2) False by simp
  qed
qed

lemma initScanner_ready: "commandReady [] script (initScanner script)"
  by (simp add: commandReady_def initScanner_def topFrame_def)



section \<open>Quoted text is not counted\<close>

lemma single_scan:
  assumes "sc_s sc = pre @ w @ chSQ # rest" "sc_i sc = length pre" "kinds sc = kindSingle # ks"
    "chSQ \<notin> set w"
  shows "scanLoop sc =
    scanLoop (sc\<lparr>kinds := ks, sc_i := length pre + length w + 1, lineStart := False\<rparr>)"
  using assms
proof (induction w arbitrary: pre sc)
  case Nil
  then have "step sc = Inr (sc\<lparr>kinds := ks, sc_i := length pre + 1, lineStart := False\<rparr>)"
    by (simp add: step_def stepMode_def stepSingle_def withByte_def pop_def advance_def)
  then show ?case using Nil by (auto intro: scanLoop_step)
next
  case (Cons c w)
  let ?sc = "sc\<lparr>lineStart := False, sc_i := Suc (length pre)\<rparr>"
  have "step sc = Inr ?sc"
    using Cons.prems
    by (auto simp: step_def stepMode_def stepSingle_def withByte_def advance_def Let_def)
  then have "scanLoop sc = scanLoop ?sc"
    using Cons.prems by (intro scanLoop_step) auto
  also have "\<dots> = scanLoop (?sc\<lparr>kinds := ks, sc_i := length (pre @ [c]) + length w + 1, lineStart := False\<rparr>)"
    using Cons.prems by (intro Cons.IH) auto
  finally show ?case by simp
qed



section \<open>The depth of the syntax tree\<close>

text \<open>
  The tree guard. The syntax tree is the parser library's; the guard sees it only through
  \<open>directChildren\<close>, a parameter here.
\<close>

partial_function (option) depthLoop ::
  "('n \<Rightarrow> 'n list) \<Rightarrow> ('n \<times> int) list \<Rightarrow> scanError option option" where
  "depthLoop directChildren stack =
     (case stack of
        [] \<Rightarrow> Some None
      | (node, d) # rest \<Rightarrow>
          if d > MaxNestingDepth then Some (Some NestingTooDeep)
          else depthLoop directChildren
                 (rev (map (\<lambda>child. (child, d + 1)) (directChildren node)) @ rest))"

definition checkNestingDepth ::
  "('n \<Rightarrow> 'n list) \<Rightarrow> 'n option \<Rightarrow> scanError option option" where
  "checkNestingDepth directChildren root =
     (case root of None \<Rightarrow> Some None | Some r \<Rightarrow> depthLoop directChildren [(r, 0)])"

text \<open>There is a descending path of length \<open>k\<close> from \<open>n\<close>.\<close>

primrec hasDepth :: "('n \<Rightarrow> 'n list) \<Rightarrow> 'n \<Rightarrow> nat \<Rightarrow> bool" where
  "hasDepth dc n 0 = True"
| "hasDepth dc n (Suc k) = list_ex (\<lambda>c. hasDepth dc c k) (dc n)"

definition tooDeep :: "('n \<Rightarrow> 'n list) \<Rightarrow> 'n \<times> int \<Rightarrow> bool" where
  "tooDeep dc p \<longleftrightarrow> hasDepth dc (fst p) (nat (MaxNestingDepth + 1 - snd p))"

lemma tooDeep_unfold:
  "d \<le> MaxNestingDepth \<Longrightarrow> tooDeep dc (n, d) \<longleftrightarrow> (\<exists>c \<in> set (dc n). tooDeep dc (c, d + 1))"
proof -
  assume "d \<le> MaxNestingDepth"
  then have "nat (MaxNestingDepth + 1 - d) = Suc (nat (MaxNestingDepth + 1 - (d + 1)))"
    by simp
  then show ?thesis by (simp add: tooDeep_def list_ex_iff)
qed

lemma tooDeep_beyond: "d > MaxNestingDepth \<Longrightarrow> tooDeep dc (n, d)"
  by (simp add: tooDeep_def)

lemma depthLoop_total:
  assumes sz: "\<And>n c. c \<in> set (dc n) \<Longrightarrow> sz c < (sz n :: nat)"
  shows "depthLoop dc st =
    Some (if \<exists>p \<in> set st. tooDeep dc p then Some NestingTooDeep else None)"
proof -
  have "wf (inv_image (mult less_than) (\<lambda>st. mset (map (sz \<circ> fst) st)))"
    by (intro wf_inv_image wf_mult wf_less_than)
  then show ?thesis
  proof (induction st rule: wf_induct_rule)
    case (less st)
    show ?case
    proof (cases st)
      case Nil
      then show ?thesis by (subst depthLoop.simps) simp
    next
      case (Cons p rest)
      obtain n d where p: "p = (n, d)" by (cases p)
      let ?st' = "rev (map (\<lambda>child. (child, d + 1)) (dc n)) @ rest"
      have "(mset (map (sz \<circ> fst) rest) + mset (map sz (dc n)),
             mset (map (sz \<circ> fst) rest) + {#sz n#}) \<in> mult less_than"
        by (rule one_step_implies_mult) (auto intro: sz)
      then have "(?st', st) \<in> inv_image (mult less_than) (\<lambda>st. mset (map (sz \<circ> fst) st))"
        by (simp add: Cons p add.commute multiset.map_comp comp_def)
      from less.IH [OF this] show ?thesis
        using tooDeep_unfold [of d dc n] tooDeep_beyond [of d dc n]
        by (subst depthLoop.simps) (auto simp: Cons p)
    qed
  qed
qed

text \<open>C17. The tree guard is exact and terminates on every finite syntax tree (one with a size
  that decreases towards the children): it reports the limit exactly when some node lies
  more than 5000 levels below the root.\<close>

theorem tree_depth_guard:
  assumes "\<And>n c. c \<in> set (directChildren n) \<Longrightarrow> sz c < (sz n :: nat)"
  shows "checkNestingDepth directChildren (Some root) =
    Some (if hasDepth directChildren root 5001 then Some NestingTooDeep else None)"
  using depthLoop_total [of directChildren sz, OF assms]
  by (simp add: checkNestingDepth_def tooDeep_def MaxNestingDepth_def)

theorem tree_depth_guard_witness:
  "checkNestingDepth (\<lambda>n. if n = 0 then [] else [n - 1 :: nat, n div 2]) (Some 4) =
     Some (if hasDepth (\<lambda>n. if n = 0 then [] else [n - 1 :: nat, n div 2]) 4 5001
           then Some NestingTooDeep else None)"
  by (rule tree_depth_guard [where sz = id]) (auto split: if_splits)

end
