(* ===== verification/Var_Storage.thy ===== *)
theory Var_Storage
  imports Prelude
begin

text \<open>
  Shell variables and their storage budget (\<^verbatim>\<open>interp/vars.go\<close>).  Environments are
  overlays that point to a parent environment and to a budget shared by every overlay of
  a run.  The pointers are explicit: \<open>envHeap\<close> is the store of overlays and budgets, an
  overlay is named by its index, and every operation takes the store and returns it
  updated.  Each operation that touches a budget runs under the budget's lock, so an
  interleaving of concurrent pipeline stages is a sequence of these operations.

  The type \<^verbatim>\<open>expand.Variable\<close> and its methods \<^verbatim>\<open>Declared\<close> and \<^verbatim>\<open>IsSet\<close> belong to the
  expansion library; the methods are the fields of the parameter \<open>A\<close>.
\<close>

section \<open>Storage costs\<close>

definition MaxVarBytes :: int where "MaxVarBytes = 2 ^ 20"
definition MaxTotalVarsBytes :: int where "MaxTotalVarsBytes = 2 ^ 20"
definition MaxTotalVarEntryBytes :: int where "MaxTotalVarEntryBytes = 2 ^ 20"
definition varEntryOverheadBytes :: int where "varEntryOverheadBytes = 64"

datatype varStorage = VarStorage (vs_values: int) (vs_entries: int)

instantiation varStorage :: ab_group_add
begin

definition zero_varStorage where "0 = VarStorage 0 0"

definition plus_varStorage where
  "a + b = VarStorage (vs_values a + vs_values b) (vs_entries a + vs_entries b)"

definition minus_varStorage where
  "a - b = VarStorage (vs_values a - vs_values b) (vs_entries a - vs_entries b)"

definition uminus_varStorage where "- a = VarStorage (- vs_values a) (- vs_entries a)"

instance
  by standard (auto simp: zero_varStorage_def plus_varStorage_def minus_varStorage_def
      uminus_varStorage_def)

end

text \<open>The methods \<^verbatim>\<open>add\<close> and \<^verbatim>\<open>sub\<close> are the group operations.\<close>

definition grows :: "varStorage \<Rightarrow> varStorage \<Rightarrow> bool" where
  "grows a from' \<longleftrightarrow> vs_values a > vs_values from' \<or> vs_entries a > vs_entries from'"

definition exceedsCaps :: "varStorage \<Rightarrow> bool" where
  "exceedsCaps a \<longleftrightarrow> vs_values a > MaxTotalVarsBytes \<or> vs_entries a > MaxTotalVarEntryBytes"

section \<open>Variables\<close>

text \<open>The kinds the source names, and the others by their number; the zero value is
  \<open>OtherKind 0\<close>.\<close>

datatype valueKind = StringKind | KeepValue | OtherKind nat

record variable =
  vSet :: bool
  vLocal :: bool
  vExported :: bool
  vReadOnly :: bool
  vKind :: valueKind
  vStr :: bytes
  vList :: "bytes list"
  vMap :: "(bytes \<times> bytes) list"

definition emptyVar :: variable where
  "emptyVar = \<lparr>vSet = False, vLocal = False, vExported = False, vReadOnly = False,
               vKind = OtherKind 0, vStr = [], vList = [], vMap = []\<rparr>"

definition stringVar :: "bytes \<Rightarrow> variable" where
  "stringVar s = emptyVar\<lparr>vSet := True, vKind := StringKind, vStr := s\<rparr>"

record expandApi =
  Declared :: "variable \<Rightarrow> bool"
  IsSet :: "variable \<Rightarrow> bool"

definition varStorageCost :: "expandApi \<Rightarrow> bytes \<Rightarrow> variable \<Rightarrow> varStorage" where
  "varStorageCost A name vr =
     (if \<not> Declared A vr then 0
      else VarStorage (int (length (vStr vr))) (int (length name) + varEntryOverheadBytes))"

section \<open>Overlays and budgets\<close>

text \<open>An environment that is not an overlay (the one given to \<^verbatim>\<open>Env\<close>) is what its \<^verbatim>\<open>Get\<close>
  answers and what its \<^verbatim>\<open>Each\<close> enumerates.\<close>

record extEnviron =
  ext_get :: "bytes \<Rightarrow> variable"
  ext_each :: "(bytes \<times> variable) list"

datatype environ = Overlay nat | External extEnviron

record overlayEnviron =
  parent :: "environ option"
  o_values :: "bytes \<rightharpoonup> variable"
  budget :: "nat option"
  owned :: "bytes \<rightharpoonup> varStorage"
  charged :: varStorage

record envHeap =
  overlays :: "overlayEnviron list"
  budgets :: "varStorage list"

datatype envError = ReadonlyVariable | TotalVarStorageExceeded varStorage

abbreviation ov :: "envHeap \<Rightarrow> nat \<Rightarrow> overlayEnviron" where
  "ov h i \<equiv> overlays h ! i"

definition setOv :: "nat \<Rightarrow> overlayEnviron \<Rightarrow> envHeap \<Rightarrow> envHeap" where
  "setOv i x h = h\<lparr>overlays := (overlays h)[i := x]\<rparr>"

definition addLive :: "nat \<Rightarrow> varStorage \<Rightarrow> envHeap \<Rightarrow> envHeap" where
  "addLive b d h = h\<lparr>budgets := (budgets h)[b := budgets h ! b + d]\<rparr>"

definition newOverlay :: "overlayEnviron \<Rightarrow> envHeap \<Rightarrow> envHeap \<times> nat" where
  "newOverlay x h = (h\<lparr>overlays := overlays h @ [x]\<rparr>, length (overlays h))"

definition newBudget :: "varStorage \<Rightarrow> envHeap \<Rightarrow> envHeap \<times> nat" where
  "newBudget l h = (h\<lparr>budgets := budgets h @ [l]\<rparr>, length (budgets h))"

definition emptyOverlay :: overlayEnviron where
  "emptyOverlay = \<lparr>parent = None, o_values = Map.empty, budget = None, owned = Map.empty,
                   charged = 0\<rparr>"

definition ownedCost :: "overlayEnviron \<Rightarrow> bytes \<Rightarrow> varStorage" where
  "ownedCost x name = (case owned x name of None \<Rightarrow> 0 | Some c \<Rightarrow> c)"

definition putOwned :: "bytes \<Rightarrow> varStorage \<Rightarrow> overlayEnviron \<Rightarrow> overlayEnviron" where
  "putOwned name c x = x\<lparr>owned := (if c = 0 then (owned x)(name := None)
                                     else (owned x)(name \<mapsto> c))\<rparr>"

definition sharedBudget :: "nat \<Rightarrow> envHeap \<Rightarrow> envHeap \<times> nat" where
  "sharedBudget i h =
     (case budget (ov h i) of
        Some b \<Rightarrow> (h, b)
      | None \<Rightarrow> (let (h, b) = newBudget (charged (ov h i)) h
                in (setOv i ((ov h i)\<lparr>budget := Some b\<rparr>) h, b)))"

definition own :: "expandApi \<Rightarrow> nat \<Rightarrow> bytes \<Rightarrow> variable \<Rightarrow> bool \<Rightarrow> envHeap \<Rightarrow>
    envHeap \<times> envError option" where
  "own A i name vr enforce h =
     (let newCost = varStorageCost A name vr;
          oldCost = ownedCost (ov h i) name;
          delta = newCost - oldCost;
          (h, b) = sharedBudget i h
      in if enforce \<and> grows newCost oldCost \<and> exceedsCaps (budgets h ! b + delta)
         then (h, Some (TotalVarStorageExceeded (budgets h ! b + delta)))
         else (let h = addLive b delta h;
                   x = (ov h i)\<lparr>charged := charged (ov h i) + delta\<rparr>
               in (setOv i (putOwned name newCost x) h, None)))"

definition release :: "nat \<Rightarrow> envHeap \<Rightarrow> envHeap" where
  "release i h =
     (let h = (case budget (ov h i) of None \<Rightarrow> h
               | Some b \<Rightarrow> addLive b (- charged (ov h i)) h)
      in setOv i ((ov h i)\<lparr>owned := Map.empty, charged := 0\<rparr>) h)"

definition resetAccounting :: "nat \<Rightarrow> envHeap \<Rightarrow> envHeap" where
  "resetAccounting i h =
     (let (h, b) = newBudget 0 h
      in setOv i ((ov h i)\<lparr>budget := Some b, owned := Map.empty, charged := 0\<rparr>) h)"

section \<open>Reading and enumerating\<close>

text \<open>A parent overlay exists before its children, so its index is smaller
  (\<open>heapWf\<close> below); the recursion along parents is bounded by it.\<close>

primrec envRank :: "environ \<Rightarrow> nat" where
  "envRank (External e) = 0"
| "envRank (Overlay i) = Suc i"

function Get :: "envHeap \<Rightarrow> environ \<Rightarrow> bytes \<Rightarrow> variable" where
  "Get h (External e) name = ext_get e name"
| "Get h (Overlay i) name =
     (case o_values (ov h i) name of
        Some vr \<Rightarrow> vr
      | None \<Rightarrow> (case parent (ov h i) of
          None \<Rightarrow> emptyVar
        | Some (External e) \<Rightarrow> ext_get e name
        | Some (Overlay p) \<Rightarrow> if p < i then Get h (Overlay p) name else emptyVar))"
  by pat_completeness auto
termination by (relation "measure (\<lambda>(h, e, name). envRank e)") auto

declare Get.simps(2) [simp del]

text \<open>What \<^verbatim>\<open>Each\<close> enumerates, as a map: every name at most once for overlays, its own
  entries before the parent's.\<close>

function Each :: "envHeap \<Rightarrow> environ \<Rightarrow> bytes \<rightharpoonup> variable" where
  "Each h (External e) = map_of (ext_each e)"
| "Each h (Overlay i) =
     (case parent (ov h i) of
        None \<Rightarrow> Map.empty
      | Some (External e) \<Rightarrow> map_of (ext_each e)
      | Some (Overlay p) \<Rightarrow> if p < i then Each h (Overlay p) else Map.empty) ++ o_values (ov h i)"
  by pat_completeness auto
termination by (relation "measure (\<lambda>(h, e). envRank e)") auto

declare Each.simps(2) [simp del]

definition newOverlayEnviron :: "expandApi \<Rightarrow> environ \<Rightarrow> bool \<Rightarrow> envHeap \<Rightarrow> envHeap \<times> nat" where
  "newOverlayEnviron A par background h =
     (let x = (if \<not> background then emptyOverlay\<lparr>parent := Some par\<rparr>
               else emptyOverlay\<lparr>o_values := Each h par\<rparr>);
          (h, b) = (case par of
              Overlay p \<Rightarrow> sharedBudget p h
            | External e \<Rightarrow>
                newBudget (sum_list (map (\<lambda>(name, vr). varStorageCost A name vr) (ext_each e))) h)
      in newOverlay (x\<lparr>budget := Some b\<rparr>) h)"

section \<open>Writing\<close>

definition prevVar :: "nat \<Rightarrow> bytes \<Rightarrow> envHeap \<Rightarrow> variable" where
  "prevVar i name h =
     (case o_values (ov h i) name of
        Some vr \<Rightarrow> vr
      | None \<Rightarrow> (case parent (ov h i) of None \<Rightarrow> emptyVar | Some p \<Rightarrow> Get h p name))"

definition putValue :: "nat \<Rightarrow> bytes \<Rightarrow> variable \<Rightarrow> envHeap \<Rightarrow> envHeap" where
  "putValue i name vr h = setOv i ((ov h i)\<lparr>o_values := (o_values (ov h i))(name \<mapsto> vr)\<rparr>) h"

definition dropValue :: "nat \<Rightarrow> bytes \<Rightarrow> envHeap \<Rightarrow> envHeap" where
  "dropValue i name h = setOv i ((ov h i)\<lparr>o_values := (o_values (ov h i))(name := None)\<rparr>) h"

definition Set :: "expandApi \<Rightarrow> nat \<Rightarrow> bytes \<Rightarrow> variable \<Rightarrow> envHeap \<Rightarrow>
    envHeap \<times> envError option" where
  "Set A i name vr h =
     (let prev = prevVar i name h in
      if vReadOnly prev \<and> vKind vr \<noteq> KeepValue then (h, Some ReadonlyVariable)
      else if vKind vr = KeepValue \<and> vReadOnly prev then (h, Some ReadonlyVariable)
      else
       (let vr = (if vKind vr = KeepValue
                  then vr\<lparr>vKind := vKind prev, vStr := vStr prev, vList := vList prev,
                          vMap := vMap prev\<rparr>
                  else vr)
        in if \<not> IsSet A vr then
             (if vReadOnly prev then (h, Some ReadonlyVariable)
              else if vLocal prev then
                (let vr = vr\<lparr>vLocal := True\<rparr>;
                     (h, _) = own A i name vr False h
                 in (putValue i name vr h, None))
              else
                (let (h, _) = own A i name emptyVar False h
                 in (dropValue i name h, None)))
           else
             (let vr = vr\<lparr>vLocal := vLocal prev \<or> vLocal vr\<rparr> in
              case own A i name vr True h of
                (h, Some e) \<Rightarrow> (h, Some e)
              | (h, None) \<Rightarrow> (putValue i name vr h, None))))"

definition setUncapped :: "expandApi \<Rightarrow> nat \<Rightarrow> bytes \<Rightarrow> variable \<Rightarrow> envHeap \<Rightarrow> envHeap" where
  "setUncapped A i name vr h =
     (let prev = prevVar i name h;
          vr = vr\<lparr>vLocal := vLocal prev \<or> vLocal vr\<rparr>;
          (h, _) = own A i name vr False h
      in putValue i name vr h)"

record bindingSnapshot =
  snap_name :: bytes
  snap_vr :: "variable option"
  snap_owned :: varStorage

definition snapshotBinding :: "nat \<Rightarrow> bytes \<Rightarrow> envHeap \<Rightarrow> bindingSnapshot" where
  "snapshotBinding i name h =
     \<lparr>snap_name = name, snap_vr = o_values (ov h i) name, snap_owned = ownedCost (ov h i) name\<rparr>"

definition restoreBinding :: "nat \<Rightarrow> bindingSnapshot \<Rightarrow> envHeap \<Rightarrow> envHeap" where
  "restoreBinding i snap h =
     (let (h, b) = sharedBudget i h;
          delta = snap_owned snap - ownedCost (ov h i) (snap_name snap);
          h = addLive b delta h;
          x = putOwned (snap_name snap) (snap_owned snap)
                ((ov h i)\<lparr>charged := charged (ov h i) + delta\<rparr>);
          h = setOv i x h
      in case snap_vr snap of
           Some vr \<Rightarrow> putValue i (snap_name snap) vr h
         | None \<Rightarrow> dropValue i (snap_name snap) h)"

end
