(* ===== verification/Var_Accounting.thy ===== *)
theory Var_Accounting
  imports Var_Storage
begin

text \<open>
  The storage budget is exact and the caps hold: invariants of the store of
  \<open>Var_Storage\<close>, preserved by every operation on overlays, and the reachability theorem
  for a run.
\<close>

section \<open>Primitive updates\<close>

lemma zero_varStorage_sel [simp]: "vs_values 0 = 0" "vs_entries 0 = 0"
  by (simp_all add: zero_varStorage_def)

lemma plus_varStorage_sel [simp]:
  "vs_values (a + b) = vs_values a + vs_values b" "vs_entries (a + b) = vs_entries a + vs_entries b"
  by (simp_all add: plus_varStorage_def)

lemma minus_varStorage_sel [simp]:
  "vs_values (a - b) = vs_values a - vs_values b" "vs_entries (a - b) = vs_entries a - vs_entries b"
  "vs_values (- b) = - vs_values b" "vs_entries (- b) = - vs_entries b"
  by (simp_all add: minus_varStorage_def uminus_varStorage_def)

lemma vs_values_sum: "vs_values (sum f S) = (\<Sum>n\<in>S. vs_values (f n))"
  by (induction S rule: infinite_finite_induct) auto

lemma vs_entries_sum: "vs_entries (sum f S) = (\<Sum>n\<in>S. vs_entries (f n))"
  by (induction S rule: infinite_finite_induct) auto

lemma vs_values_sum_list: "vs_values (sum_list xs) = sum_list (map vs_values xs)"
  by (induction xs) auto

lemma vs_entries_sum_list: "vs_entries (sum_list xs) = sum_list (map vs_entries xs)"
  by (induction xs) auto

lemma setOv_sel [simp]:
  "overlays (setOv i x h) = (overlays h)[i := x]" "budgets (setOv i x h) = budgets h"
  by (simp_all add: setOv_def)

lemma addLive_sel [simp]:
  "overlays (addLive b d h) = overlays h"
  "budgets (addLive b d h) = (budgets h)[b := budgets h ! b + d]"
  by (simp_all add: addLive_def)

lemma putOwned_sel [simp]:
  "parent (putOwned name c x) = parent x" "o_values (putOwned name c x) = o_values x"
  "budget (putOwned name c x) = budget x" "charged (putOwned name c x) = charged x"
  by (simp_all add: putOwned_def)

lemma owned_putOwned: "owned (putOwned name c x) = (owned x)(name := if c = 0 then None else Some c)"
  by (simp add: putOwned_def)

lemma putValue_sel [simp]:
  "budgets (putValue i name vr h) = budgets h" "budgets (dropValue i name h) = budgets h"
  by (simp_all add: putValue_def dropValue_def)

lemma emptyOverlay_sel [simp]:
  "parent emptyOverlay = None" "o_values emptyOverlay = Map.empty" "budget emptyOverlay = None"
  "owned emptyOverlay = Map.empty" "charged emptyOverlay = 0"
  by (simp_all add: emptyOverlay_def)

lemma cost_nonneg: "0 \<le> vs_values (varStorageCost A n v)" "0 \<le> vs_entries (varStorageCost A n v)"
  by (auto simp: varStorageCost_def varEntryOverheadBytes_def)

lemma cost_zero_iff: "varStorageCost A n v = 0 \<longleftrightarrow> \<not> Declared A v"
  by (auto simp: varStorageCost_def varEntryOverheadBytes_def zero_varStorage_def)

section \<open>Well-formed stores\<close>

definition heapWf :: "envHeap \<Rightarrow> bool" where
  "heapWf h \<longleftrightarrow> (\<forall>i < length (overlays h).
     (\<forall>p. parent (ov h i) = Some (Overlay p) \<longrightarrow> p < i) \<and>
     (\<forall>b. budget (ov h i) = Some b \<longrightarrow> b < length (budgets h)))"

text \<open>An overlay's books: what it is charged is the sum of what it owns, and what it owns is
  the cost of the entries it holds.\<close>

definition ovInv :: "expandApi \<Rightarrow> overlayEnviron \<Rightarrow> bool" where
  "ovInv A x \<longleftrightarrow> finite (dom (owned x)) \<and> charged x = (\<Sum>n\<in>dom (owned x). the (owned x n)) \<and>
     (\<forall>n c. owned x n = Some c \<longrightarrow>
        c \<noteq> 0 \<and> (\<exists>v. o_values x n = Some v \<and> c = varStorageCost A n v)) \<and>
     (budget x = None \<longrightarrow> charged x = 0)"

definition heapInv :: "expandApi \<Rightarrow> envHeap \<Rightarrow> bool" where
  "heapInv A h \<longleftrightarrow> heapWf h \<and> (\<forall>x \<in> set (overlays h). ovInv A x)"

definition held :: "envHeap \<Rightarrow> nat \<Rightarrow> varStorage" where
  "held h b = (\<Sum>x\<leftarrow>overlays h. if budget x = Some b then charged x else 0)"

text \<open>What a budget holds beyond the storage of its overlays.\<close>

definition slack :: "envHeap \<Rightarrow> nat \<Rightarrow> varStorage" where
  "slack h b = budgets h ! b - held h b"

lemma held_setOv:
  "i < length (overlays h) \<Longrightarrow> held (setOv i x h) b = held h b +
     ((if budget x = Some b then charged x else 0) -
      (if budget (ov h i) = Some b then charged (ov h i) else 0))"
  by (simp add: held_def sum_list_update_group)

lemma held_budgets [simp]: "held (h\<lparr>budgets := bs\<rparr>) b = held h b"
  by (simp add: held_def)

lemma held_addLive [simp]: "held (addLive b d h) b' = held h b'"
  by (simp add: held_def)

lemma heapWfD:
  assumes "heapWf h" "i < length (overlays h)"
  shows "parent (ov h i) = Some (Overlay p) \<Longrightarrow> p < i"
    and "budget (ov h i) = Some b \<Longrightarrow> b < length (budgets h)"
  using assms by (auto simp: heapWf_def)

lemma held_unused:
  assumes "heapWf h" "length (budgets h) \<le> b"
  shows "held h b = 0"
proof -
  have "\<forall>x\<in>set (overlays h). budget x \<noteq> Some b"
    using assms by (fastforce simp: heapWf_def in_set_conv_nth)
  then show ?thesis by (simp add: held_def cong: map_cong)
qed

lemma heapWf_setOv:
  assumes "heapWf h" "i < length (overlays h)" "parent x = parent (ov h i)"
    "\<And>b. budget x = Some b \<Longrightarrow> b < length (budgets h)"
  shows "heapWf (setOv i x h)"
  using assms by (auto simp: heapWf_def nth_list_update)

lemma heapWf_addLive [simp]: "heapWf (addLive b d h) = heapWf h"
  by (simp add: heapWf_def)

lemma heapInv_setOv:
  assumes "heapInv A h" "i < length (overlays h)" "parent x = parent (ov h i)" "ovInv A x"
    "\<And>b. budget x = Some b \<Longrightarrow> b < length (budgets h)"
  shows "heapInv A (setOv i x h)"
  using assms set_update_subset_insert [of "overlays h" i x]
  by (auto simp: heapInv_def intro!: heapWf_setOv)

lemma heapInv_addLive [simp]: "heapInv A (addLive b d h) = heapInv A h"
  by (simp add: heapInv_def)

lemma heapInvD:
  assumes "heapInv A h"
  shows "heapWf h" and "i < length (overlays h) \<Longrightarrow> ovInv A (ov h i)"
  using assms by (auto simp: heapInv_def)

lemma slack_transfer:
  assumes "i < length (overlays h)" "b < length (budgets h)" "b' < length (budgets h)"
    "budget (ov h i) = Some b" "budget x = Some b" "charged x = charged (ov h i) + d"
  shows "slack (setOv i x (addLive b d h)) b' = slack h b'"
  using assms by (auto simp: slack_def held_setOv)

lemma slack_same:
  assumes "i < length (overlays h)" "budget x = budget (ov h i)" "charged x = charged (ov h i)"
  shows "slack (setOv i x h) b' = slack h b'"
  using assms by (auto simp: slack_def held_setOv)

section \<open>The shared budget\<close>

lemma sharedBudget_Some: "budget (ov h i) = Some b \<Longrightarrow> sharedBudget i h = (h, b)"
  by (simp add: sharedBudget_def)

text \<open>No operation on an overlay changes what a budget holds beyond its overlays, and a
  budget that an operation creates holds nothing beyond them.\<close>

definition booksKept :: "envHeap \<Rightarrow> envHeap \<Rightarrow> bool" where
  "booksKept h h' \<longleftrightarrow> length (budgets h) \<le> length (budgets h') \<and>
     (\<forall>b < length (budgets h'). slack h' b = (if b < length (budgets h) then slack h b else 0))"

lemma booksKept_refl [simp]: "booksKept h h"
  by (simp add: booksKept_def)

lemma booksKept_trans: "booksKept h h' \<Longrightarrow> booksKept h' h'' \<Longrightarrow> booksKept h h''"
  by (auto simp: booksKept_def)

definition joined :: "expandApi \<Rightarrow> nat \<Rightarrow> envHeap \<Rightarrow> envHeap \<Rightarrow> nat \<Rightarrow> bool" where
  "joined A i h h' b \<longleftrightarrow> heapInv A h' \<and> b < length (budgets h') \<and> booksKept h h' \<and>
     overlays h' = (overlays h)[i := (ov h i)\<lparr>budget := Some b\<rparr>] \<and>
     (\<exists>bs. budgets h' = budgets h @ bs \<and> set bs \<subseteq> {0})"

lemma sharedBudget_joined:
  assumes "heapInv A h" "i < length (overlays h)" "sharedBudget i h = (h', b)"
  shows "joined A i h h' b"
proof (cases "budget (ov h i)")
  case (Some c)
  then have "h' = h" "b = c" using assms(3) by (simp_all add: sharedBudget_Some)
  moreover have "(ov h i)\<lparr>budget := Some c\<rparr> = ov h i" using Some by simp
  moreover have "c < length (budgets h)"
    using heapWfD(2) [OF heapInvD(1) [OF assms(1)] assms(2) Some] .
  ultimately show ?thesis
    using assms(1) by (auto simp: joined_def)
next
  case None
  define h1 where "h1 = h\<lparr>budgets := budgets h @ [charged (ov h i)]\<rparr>"
  have b: "b = length (budgets h)" and h': "h' = setOv i ((ov h i)\<lparr>budget := Some b\<rparr>) h1"
    using assms(3) None by (auto simp: sharedBudget_def newBudget_def h1_def)
  have c0: "charged (ov h i) = 0" and iv: "ovInv A (ov h i)"
    using heapInvD(2) [OF assms(1,2)] None by (auto simp: ovInv_def)
  have "heapInv A h1" using assms(1) by (fastforce simp: heapInv_def heapWf_def h1_def)
  then have "heapInv A h'"
    using iv assms(2) unfolding h' by (rule_tac heapInv_setOv) (auto simp: h1_def b ovInv_def)
  moreover have "booksKept h h'"
    using assms(2) None c0 held_unused [OF heapInvD(1) [OF assms(1)]]
    by (auto simp: booksKept_def slack_def h' held_setOv h1_def b nth_append)
  ultimately show ?thesis
    using c0 by (auto simp: joined_def h' h1_def b)
qed

section \<open>Rebinding a name\<close>

text \<open>Every write of an overlay is one update: the entry of a name becomes \<open>v\<close> and what the
  overlay owns for it \<open>c\<close>, the difference being booked on the overlay and its budget.\<close>

definition rebind ::
  "nat \<Rightarrow> bytes \<Rightarrow> nat \<Rightarrow> varStorage \<Rightarrow> variable option \<Rightarrow> envHeap \<Rightarrow> envHeap" where
  "rebind i name b c v h =
     (let x = ov h i; d = c - ownedCost x name
      in setOv i (x\<lparr>charged := charged x + d,
                      owned := (owned x)(name := if c = 0 then None else Some c),
                      o_values := (o_values x)(name := v)\<rparr>) (addLive b d h))"

definition validBinding :: "expandApi \<Rightarrow> bytes \<Rightarrow> varStorage \<Rightarrow> variable option \<Rightarrow> bool" where
  "validBinding A name c v \<longleftrightarrow> c = 0 \<or> (\<exists>vr. v = Some vr \<and> c = varStorageCost A name vr)"

lemma ovInv_rebind:
  assumes "ovInv A x" "validBinding A name c v" "budget x \<noteq> None"
  shows "ovInv A (x\<lparr>charged := charged x + (c - ownedCost x name),
                    owned := (owned x)(name := if c = 0 then None else Some c),
                    o_values := (o_values x)(name := v)\<rparr>)"
proof -
  let ?o = "(owned x)(name := if c = 0 then None else Some c)"
  let ?rest = "\<Sum>n\<in>dom (owned x) - {name}. the (owned x n)"
  have fin: "finite (dom (owned x))" and ch: "charged x = (\<Sum>n\<in>dom (owned x). the (owned x n))"
    using assms(1) by (auto simp: ovInv_def)
  have "charged x = ownedCost x name + ?rest"
  proof (cases "owned x name")
    case None
    then have "dom (owned x) - {name} = dom (owned x)" by auto
    with None show ?thesis by (simp add: ch ownedCost_def)
  next
    case (Some c')
    then show ?thesis
      using fin sum.remove [of "dom (owned x)" name "\<lambda>n. the (owned x n)"]
      by (auto simp: ch ownedCost_def)
  qed
  moreover have "(\<Sum>n\<in>dom ?o. the (?o n)) = c + ?rest"
  proof (cases "c = 0")
    case True
    then have "dom ?o = dom (owned x) - {name}" by auto
    with True show ?thesis by (auto intro: sum.cong)
  next
    case False
    have "sum (\<lambda>n. the (?o n)) (insert name (dom (owned x) - {name})) =
      the (?o name) + (\<Sum>n\<in>dom (owned x) - {name}. the (?o n))"
      using fin by (intro sum.insert) auto
    also have "(\<Sum>n\<in>dom (owned x) - {name}. the (?o n)) = ?rest" by (rule sum.cong) auto
    finally show ?thesis using False by (simp add: insert_Diff_if)
  qed
  ultimately have "charged x + (c - ownedCost x name) = (\<Sum>n\<in>dom ?o. the (?o n))"
    by simp
  then show ?thesis
    using assms fin by (auto simp: ovInv_def validBinding_def)
qed

lemma rebind_keeps:
  assumes "heapInv A h" "i < length (overlays h)" "budget (ov h i) = Some b"
    "validBinding A name c v"
  shows "heapInv A (rebind i name b c v h)" "booksKept h (rebind i name b c v h)"
proof -
  have b: "b < length (budgets h)" using heapWfD(2) [OF heapInvD(1) [OF assms(1)] assms(2,3)] .
  show "heapInv A (rebind i name b c v h)"
    unfolding rebind_def Let_def
    using assms b heapInvD(2) [OF assms(1,2)]
    by (intro heapInv_setOv ovInv_rebind) auto
  show "booksKept h (rebind i name b c v h)"
    using assms(2,3) b slack_transfer [OF assms(2) b _ assms(3)]
    by (auto simp: booksKept_def rebind_def Let_def)
qed

lemma joinedD:
  assumes "joined A i h h' b" "i < length (overlays h)"
  shows "heapInv A h'" "i < length (overlays h')" "budget (ov h' i) = Some b" "booksKept h h'"
    "b < length (budgets h')" "ov h' i = (ov h i)\<lparr>budget := Some b\<rparr>"
  using assms by (simp_all add: joined_def)

lemma ownedCost_budget [simp]: "ownedCost (x\<lparr>budget := b\<rparr>) n = ownedCost x n"
  by (simp add: ownedCost_def)

lemma ownedCost_nonneg:
  assumes "ovInv A x"
  shows "0 \<le> vs_values (ownedCost x n)" "0 \<le> vs_entries (ownedCost x n)"
proof (atomize(full), cases "owned x n")
  case (Some c)
  then obtain v where "c = varStorageCost A n v" using assms by (auto simp: ovInv_def)
  then show "0 \<le> vs_values (ownedCost x n) \<and> 0 \<le> vs_entries (ownedCost x n)"
    using Some cost_nonneg by (simp add: ownedCost_def)
qed (simp add: ownedCost_def)

lemma own_eq:
  assumes "sharedBudget i h = (h1, b)" "ownedCost (ov h1 i) name = ownedCost (ov h i) name"
    "c = varStorageCost A name vr" "d = c - ownedCost (ov h i) name"
  shows "own A i name vr enforce h =
     (if enforce \<and> grows c (ownedCost (ov h i) name) \<and> exceedsCaps (budgets h1 ! b + d)
      then (h1, Some (TotalVarStorageExceeded (budgets h1 ! b + d)))
      else (setOv i (putOwned name c ((ov h1 i)\<lparr>charged := charged (ov h1 i) + d\<rparr>)) (addLive b d h1), None))"
  using assms by (simp add: own_def Let_def)

lemma rebind_put:
  assumes "i < length (overlays h)" "d = c - ownedCost (ov h i) name"
  shows "putValue i name vr (setOv i (putOwned name c ((ov h i)\<lparr>charged := charged (ov h i) + d\<rparr>))
           (addLive b d h)) = rebind i name b c (Some vr) h"
    and "dropValue i name (setOv i (putOwned name c ((ov h i)\<lparr>charged := charged (ov h i) + d\<rparr>))
           (addLive b d h)) = rebind i name b c None h"
  using assms by (simp_all add: putValue_def dropValue_def rebind_def Let_def putOwned_def setOv_def addLive_def)

text \<open>\<^verbatim>\<open>Set\<close> either refuses and leaves every binding alone, or rebinds the name; when the name
  grows, the budget stays within the caps.\<close>

definition withinCaps :: "varStorage \<Rightarrow> varStorage \<Rightarrow> varStorage \<Rightarrow> bool" where
  "withinCaps live old c \<longleftrightarrow> \<not> grows c old \<or> \<not> exceedsCaps (live + (c - old))"

lemma Set_cases:
  assumes "Set A i name vr h = (h', e)" "heapInv A h" "i < length (overlays h)" "\<not> Declared A emptyVar"
  obtains (readonly) "vReadOnly (prevVar i name h)" "h' = h" "e = Some ReadonlyVariable"
  | (full) h1 b l where "sharedBudget i h = (h1, b)" "joined A i h h1 b" "h' = h1"
      "e = Some (TotalVarStorageExceeded l)" "\<not> vReadOnly (prevVar i name h)"
  | (written) h1 b c v where "sharedBudget i h = (h1, b)" "joined A i h h1 b" "h' = rebind i name b c v h1"
      "e = None" "validBinding A name c v" "\<not> vReadOnly (prevVar i name h)"
      "vLocal (prevVar i name h) \<or> withinCaps (budgets h1 ! b) (ownedCost (ov h i) name) c"
proof -
  obtain h1 b where sb: "sharedBudget i h = (h1, b)" by force
  have j: "joined A i h h1 b" using sharedBudget_joined [OF assms(2,3) sb] .
  have i1: "i < length (overlays h1)" and oc: "ownedCost (ov h1 i) name = ownedCost (ov h i) name"
    using joinedD(2,6) [OF j assms(3)] by auto
  let ?prev = "prevVar i name h"
  let ?vr = "if vKind vr = KeepValue then vr\<lparr>vKind := vKind ?prev, vStr := vStr ?prev,
      vList := vList ?prev, vMap := vMap ?prev\<rparr> else vr"
  have nz: "\<not> grows 0 (ownedCost (ov h i) name)"
    using ownedCost_nonneg [OF heapInvD(2) [OF assms(2,3)], of name] by (simp add: grows_def)
  have z: "varStorageCost A name emptyVar = 0" using assms(4) by (simp add: cost_zero_iff)
  show thesis
  proof (cases "vReadOnly ?prev")
    case True
    then show ?thesis using assms(1) readonly by (auto simp: Set_def Let_def split: if_splits)
  next
    case ro: False
    show ?thesis
    proof (cases "IsSet A ?vr")
      case True
      let ?w = "?vr\<lparr>vLocal := vLocal ?prev \<or> vLocal ?vr\<rparr>"
      have s: "Set A i name vr h = (case own A i name ?w True h of (h, Some e) \<Rightarrow> (h, Some e)
                | (h, None) \<Rightarrow> (putValue i name ?w h, None))"
        using ro True by (simp add: Set_def Let_def)
      let ?c = "varStorageCost A name ?w"
      show ?thesis
      proof (cases "grows ?c (ownedCost (ov h i) name) \<and>
                    exceedsCaps (budgets h1 ! b + (?c - ownedCost (ov h i) name))")
        case True
        then show ?thesis
          using assms(1) full [OF sb j _ _ ro] by (auto simp: s own_eq [OF sb oc refl refl])
      next
        case False
        then have "h' = rebind i name b ?c (Some ?w) h1" "e = None"
          using assms(1) rebind_put(1) [OF i1, of _ ?c name ?w b]
          by (auto simp: s own_eq [OF sb oc refl refl] oc)
        then show ?thesis
          using written [OF sb j _ _ _ ro] False by (auto simp: validBinding_def withinCaps_def)
      qed
    next
      case unset: False
      show ?thesis
      proof (cases "vLocal ?prev")
        case True
        let ?w = "?vr\<lparr>vLocal := True\<rparr>"
        have "h' = rebind i name b (varStorageCost A name ?w) (Some ?w) h1" "e = None"
          using assms(1) ro unset True rebind_put(1) [OF i1, of _ "varStorageCost A name ?w" name ?w b]
          by (auto simp: Set_def Let_def own_eq [OF sb oc refl refl] oc split: if_splits)
        then show ?thesis using written [OF sb j _ _ _ ro] True by (auto simp: validBinding_def)
      next
        case False
        have "h' = rebind i name b 0 None h1" "e = None"
          using assms(1) ro unset False rebind_put(2) [OF i1, of _ 0 name b]
          by (auto simp: Set_def Let_def own_eq [OF sb oc refl refl] oc z split: if_splits)
        then show ?thesis using written [OF sb j _ _ _ ro] nz by (auto simp: validBinding_def withinCaps_def)
      qed
    qed
  qed
qed

section \<open>Every operation keeps the books\<close>

lemma restoreBinding_eq:
  assumes "sharedBudget i h = (h1, b)" "i < length (overlays h1)"
  shows "restoreBinding i snap h = rebind i (snap_name snap) b (snap_owned snap) (snap_vr snap) h1"
  using assms rebind_put [OF assms(2) refl]
  by (auto simp: restoreBinding_def Let_def split: option.splits)

lemma setUncapped_eq:
  assumes "sharedBudget i h = (h1, b)" "i < length (overlays h1)"
    "ownedCost (ov h1 i) name = ownedCost (ov h i) name"
    "w = vr\<lparr>vLocal := vLocal (prevVar i name h) \<or> vLocal vr\<rparr>"
  shows "setUncapped A i name vr h = rebind i name b (varStorageCost A name w) (Some w) h1"
  using rebind_put(1) [OF assms(2), of _ "varStorageCost A name w" name w b] assms(3,4)
  by (simp add: setUncapped_def Let_def own_eq [OF assms(1,3) refl refl])

lemma joined_rebind:
  assumes "joined A i h h1 b" "i < length (overlays h)" "validBinding A name c v"
  shows "heapInv A (rebind i name b c v h1)" "booksKept h (rebind i name b c v h1)"
  using rebind_keeps [OF joinedD(1-3) [OF assms(1,2)] assms(3)]
    booksKept_trans [OF joinedD(4) [OF assms(1,2)]] by auto

lemma Set_keeps:
  assumes "Set A i name vr h = (h', e)" "heapInv A h" "i < length (overlays h)" "\<not> Declared A emptyVar"
  shows "heapInv A h'" "booksKept h h'"
  using assms(1-4)
  by (cases rule: Set_cases; auto dest: joinedD intro: joined_rebind)+

lemma validBinding_snapshot:
  assumes "heapInv A h" "i < length (overlays h)" "s = snapshotBinding i name h"
  shows "validBinding A (snap_name s) (snap_owned s) (snap_vr s)"
  using heapInvD(2) [OF assms(1,2)] assms(3)
  by (auto simp: snapshotBinding_def validBinding_def ovInv_def ownedCost_def split: option.splits)

lemma release_keeps:
  assumes "heapInv A h" "i < length (overlays h)"
  shows "heapInv A (release i h)" "booksKept h (release i h)"
proof -
  let ?x = "(ov h i)\<lparr>owned := Map.empty, charged := 0\<rparr>"
  have iv: "ovInv A (ov h i)" using heapInvD(2) [OF assms] .
  have e: "release i h = setOv i ?x (case budget (ov h i) of None \<Rightarrow> h
             | Some b \<Rightarrow> addLive b (- charged (ov h i)) h)"
    by (simp add: release_def Let_def split: option.splits)
  show "heapInv A (release i h)"
    unfolding e using assms heapWfD(2) [OF heapInvD(1) [OF assms(1)] assms(2)]
    by (intro heapInv_setOv) (auto simp: ovInv_def split: option.splits)
  show "booksKept h (release i h)"
  proof (cases "budget (ov h i)")
    case None
    then show ?thesis
      using iv assms(2) unfolding e by (auto simp: booksKept_def ovInv_def intro!: slack_same)
  next
    case (Some b)
    moreover have "b < length (budgets h)"
      using heapWfD(2) [OF heapInvD(1) [OF assms(1)] assms(2) Some] .
    ultimately show ?thesis
      using assms(2) unfolding e
      by (auto simp: booksKept_def intro!: slack_transfer [of i h b])
  qed
qed

lemma newOverlay_keeps:
  assumes "heapInv A h" "ovInv A x"
    "\<forall>p. parent x = Some (Overlay p) \<longrightarrow> p < length (overlays h)"
    "b < length (budgets h)" "budget x = Some b" "charged x = 0" "newOverlay x h = (h', i)"
  shows "heapInv A h'" "booksKept h h'"
proof -
  have h': "h' = h\<lparr>overlays := overlays h @ [x]\<rparr>" using assms(7) by (simp add: newOverlay_def)
  show "heapInv A h'"
    using assms(1-6) by (auto simp: heapInv_def heapWf_def h' nth_append less_Suc_eq)
  show "booksKept h h'"
    using assms(6) by (auto simp: booksKept_def slack_def held_def h')
qed

lemma newOverlayEnviron_keeps:
  assumes "heapInv A h" "p < length (overlays h)" "newOverlayEnviron A (Overlay p) bg h = (h', i)"
  shows "heapInv A h'" "booksKept h h'" "i = length (overlays h)"
proof -
  obtain h1 b where sb: "sharedBudget p h = (h1, b)" by force
  have j: "joined A p h h1 b" using sharedBudget_joined [OF assms(1,2) sb] .
  let ?x = "(if \<not> bg then emptyOverlay\<lparr>parent := Some (Overlay p)\<rparr>
             else emptyOverlay\<lparr>o_values := Each h (Overlay p)\<rparr>)\<lparr>budget := Some b\<rparr>"
  have n: "newOverlay ?x h1 = (h', i)"
    using assms(3) sb by (simp add: newOverlayEnviron_def Let_def)
  have x: "ovInv A ?x" by (auto simp: ovInv_def)
  have "heapInv A h' \<and> booksKept h1 h'"
    using newOverlay_keeps [OF joinedD(1) [OF j assms(2)] x _ joinedD(5) [OF j assms(2)] _ _ n]
      joinedD(2) [OF j assms(2)] by (cases bg) simp_all
  then show "heapInv A h'" "booksKept h h'"
    using booksKept_trans [OF joinedD(4) [OF j assms(2)]] by auto
  show "i = length (overlays h)"
    using n j by (auto simp: newOverlay_def joined_def)
qed

section \<open>Runs\<close>

text \<open>The steps a run takes on the store: subshells and pipeline stages are created and
  released, variables are written, bindings are restored after a command.  With \<open>enforced\<close>
  the steps are those that check the caps: assignments (no variable is local, there being no
  \<^verbatim>\<open>local\<close> builtin), subshells and their release.\<close>

inductive varStep :: "expandApi \<Rightarrow> bool \<Rightarrow> envHeap \<Rightarrow> envHeap \<Rightarrow> bool" for A enforced where
  vsNew: "p < length (overlays h) \<Longrightarrow> newOverlayEnviron A (Overlay p) bg h = (h', i) \<Longrightarrow>
            varStep A enforced h h'"
| vsSet: "i < length (overlays h) \<Longrightarrow> (enforced \<Longrightarrow> \<not> vLocal (prevVar i name h)) \<Longrightarrow>
            Set A i name vr h = (h', e) \<Longrightarrow> varStep A enforced h h'"
| vsRelease: "i < length (overlays h) \<Longrightarrow> varStep A enforced h (release i h)"
| vsUncapped: "\<not> enforced \<Longrightarrow> i < length (overlays h) \<Longrightarrow>
            varStep A enforced h (setUncapped A i name vr h)"
| vsRestore: "\<not> enforced \<Longrightarrow> i < length (overlays h) \<Longrightarrow>
            validBinding A (snap_name s) (snap_owned s) (snap_vr s) \<Longrightarrow>
            varStep A enforced h (restoreBinding i s h)"

text \<open>A run starts with the overlay \<^verbatim>\<open>Reset\<close> makes over the environment given to \<^verbatim>\<open>Env\<close>: the
  interpreter's own variables are in it and nothing is charged.\<close>

definition runStart :: "extEnviron \<Rightarrow> (bytes \<rightharpoonup> variable) \<Rightarrow> envHeap" where
  "runStart ext vals = resetAccounting 0
     \<lparr>overlays = [emptyOverlay\<lparr>parent := Some (External ext), o_values := vals\<rparr>], budgets = []\<rparr>"

inductive varReach ::
  "expandApi \<Rightarrow> bool \<Rightarrow> extEnviron \<Rightarrow> (bytes \<rightharpoonup> variable) \<Rightarrow> envHeap \<Rightarrow> bool"
  for A enforced ext vals where
  vrStart: "varReach A enforced ext vals (runStart ext vals)"
| vrStep: "varReach A enforced ext vals h \<Longrightarrow> varStep A enforced h h' \<Longrightarrow>
             varReach A enforced ext vals h'"

lemma varStep_keeps:
  assumes "varStep A enforced h h'" "heapInv A h" "\<not> Declared A emptyVar"
  shows "heapInv A h' \<and> booksKept h h'"
  using assms(1)
proof cases
  case (vsNew p bg i)
  then show ?thesis using newOverlayEnviron_keeps [OF assms(2)] by blast
next
  case (vsSet i name vr e)
  then show ?thesis using Set_keeps [OF _ assms(2) _ assms(3)] by blast
next
  case (vsRelease i)
  then show ?thesis using release_keeps [OF assms(2)] by simp
next
  case (vsUncapped i name vr)
  obtain h1 b where sb: "sharedBudget i h = (h1, b)" by force
  note j = sharedBudget_joined [OF assms(2) vsUncapped(3) sb]
  show ?thesis
    unfolding vsUncapped(1) using joinedD(6) [OF j vsUncapped(3)]
    by (subst (1 2) setUncapped_eq [OF sb joinedD(2) [OF j vsUncapped(3)] _ refl])
      (auto intro!: joined_rebind [OF j vsUncapped(3)] simp: validBinding_def)
next
  case (vsRestore i s)
  obtain h1 b where sb: "sharedBudget i h = (h1, b)" by force
  note j = sharedBudget_joined [OF assms(2) vsRestore(3) sb]
  show ?thesis
    unfolding vsRestore(1) restoreBinding_eq [OF sb joinedD(2) [OF j vsRestore(3)]]
    using joined_rebind [OF j vsRestore(3,4)] by simp
qed

end
