(* ===== verification/Var_Properties.thy ===== *)
theory Var_Properties
  imports Var_Accounting
begin

text \<open>
  What the variable store promises its users: the budget counts exactly the storage that
  is held, the caps bound it, a read-only variable never changes, a temporary binding is
  undone exactly, and subshells do not leak assignments.  The interface
  \<open>variable_store\<close> is what the interpreter relies on; overlays implement it.
\<close>

section \<open>Exactness of the budget\<close>

lemma runStart_inv: "heapInv A (runStart ext vals)"
  and runStart_slack: "b < length (budgets (runStart ext vals)) \<Longrightarrow> slack (runStart ext vals) b = 0"
  by (auto simp: runStart_def resetAccounting_def newBudget_def heapInv_def heapWf_def ovInv_def
      setOv_def slack_def held_def)

lemma varReach_keeps:
  assumes "varReach A enforced ext vals h" "\<not> Declared A emptyVar"
  shows "heapInv A h \<and> booksKept (runStart ext vals) h"
  using assms(1)
proof induction
  case vrStart
  then show ?case by (simp add: runStart_inv)
next
  case (vrStep h h')
  then show ?case using varStep_keeps [OF vrStep(2) _ assms(2)] booksKept_trans by blast
qed

lemma varReach_exact:
  assumes "varReach A enforced ext vals h" "\<not> Declared A emptyVar" "b < length (budgets h)"
  shows "budgets h ! b = held h b"
proof -
  have "slack h b = 0"
    using varReach_keeps [OF assms(1,2)] runStart_slack assms(3) by (auto simp: booksKept_def)
  then show ?thesis by (simp add: slack_def)
qed

text \<open>The sum of a measure over the overlays that share a budget.\<close>

definition totalOver :: "nat \<Rightarrow> (overlayEnviron \<Rightarrow> 'a::comm_monoid_add) \<Rightarrow> envHeap \<Rightarrow> 'a" where
  "totalOver b f h = (\<Sum>x\<leftarrow>overlays h. if budget x = Some b then f x else 0)"

text \<open>The storage an overlay holds, computed from the entries themselves.\<close>

definition storageOf :: "expandApi \<Rightarrow> overlayEnviron \<Rightarrow> varStorage" where
  "storageOf A x = (\<Sum>n\<in>dom (owned x). varStorageCost A n (the (o_values x n)))"

lemma ovInv_storageOf:
  assumes "ovInv A x"
  shows "charged x = storageOf A x"
proof -
  have "charged x = (\<Sum>n\<in>dom (owned x). the (owned x n))" using assms by (simp add: ovInv_def)
  also have "\<dots> = storageOf A x"
    unfolding storageOf_def
    using assms by (intro sum.cong refl) (force simp: ovInv_def)
  finally show ?thesis .
qed

lemma varReach_storage:
  assumes "varReach A enforced ext vals h" "\<not> Declared A emptyVar"
  shows "held h b = totalOver b (storageOf A) h"
proof -
  have "\<forall>x\<in>set (overlays h). ovInv A x"
    using varReach_keeps [OF assms] by (auto simp: heapInv_def)
  then show ?thesis
    unfolding held_def totalOver_def by (intro arg_cong [where f = sum_list] map_cong) (auto simp: ovInv_storageOf)
qed

text \<open>C7. The run-wide budget is exact: after any interleaving of assignments, unsets,
  restored bindings, new subshells or pipeline stages and their release, what a budget records
  is the cost of the entries its overlays own, no more and no less.\<close>

theorem budget_is_exact:
  assumes "varReach A enforced ext vals h" "\<not> Declared A emptyVar" "b < length (budgets h)"
  shows "budgets h ! b = totalOver b (storageOf A) h"
  using varReach_exact [OF assms] varReach_storage [OF assms(1,2)] by simp

text \<open>A concrete store: one subshell below the run's overlay, holding one variable.\<close>

definition stdApi :: expandApi where
  "stdApi = \<lparr>Declared = (\<lambda>v. vSet v \<or> vLocal v \<or> vExported v \<or> vReadOnly v), IsSet = vSet\<rparr>"

definition noEnv :: extEnviron where
  "noEnv = \<lparr>ext_get = (\<lambda>_. emptyVar), ext_each = []\<rparr>"

definition demoHeap :: envHeap where
  "demoHeap = fst (Set stdApi 1 ''X'' (stringVar ''abc'')
     (fst (newOverlayEnviron stdApi (Overlay 0) True (runStart noEnv Map.empty))))"

lemmas demo_simps = demoHeap_def runStart_def resetAccounting_def newBudget_def newOverlay_def
  newOverlayEnviron_def sharedBudget_def setOv_def addLive_def Set_def own_def putValue_def
  prevVar_def putOwned_def ownedCost_def varStorageCost_def stdApi_def stringVar_def emptyVar_def
  emptyOverlay_def noEnv_def Each.simps grows_def exceedsCaps_def MaxTotalVarsBytes_def
  MaxTotalVarEntryBytes_def varEntryOverheadBytes_def Let_def plus_varStorage_def
  minus_varStorage_def zero_varStorage_def

lemma demo_undeclared: "\<not> Declared stdApi emptyVar"
  by (simp add: stdApi_def emptyVar_def)

lemma demo_reach: "varReach stdApi True noEnv Map.empty demoHeap"
proof -
  let ?h0 = "runStart noEnv Map.empty"
  let ?h1 = "fst (newOverlayEnviron stdApi (Overlay 0) True ?h0)"
  have "varStep stdApi True ?h0 ?h1"
    by (rule vsNew [of 0 _ _ True _ "snd (newOverlayEnviron stdApi (Overlay 0) True ?h0)"])
      (simp_all add: runStart_def resetAccounting_def newBudget_def)
  moreover have "varStep stdApi True ?h1 demoHeap"
    unfolding demoHeap_def
    by (rule vsSet [of 1 _ _ "''X''" _ "stringVar ''abc''" _
          "snd (Set stdApi 1 ''X'' (stringVar ''abc'') ?h1)"])
      (simp_all add: demo_simps)
  ultimately show ?thesis
    by (meson varReach.vrStart varReach.vrStep)
qed

lemma demo_budgets: "budgets demoHeap = [VarStorage 3 65]"
  by (simp add: demo_simps)

theorem budget_is_exact_witness:
  "budgets demoHeap ! 0 = totalOver 0 (storageOf stdApi) demoHeap"
  using budget_is_exact [OF demo_reach demo_undeclared, of 0] demo_budgets by simp

section \<open>The caps\<close>

definition capsOk :: "envHeap \<Rightarrow> bool" where
  "capsOk h \<longleftrightarrow> (\<forall>l \<in> set (budgets h). \<not> exceedsCaps l)"

lemma not_exceedsCaps_0 [simp]: "\<not> exceedsCaps 0"
  by (simp add: exceedsCaps_def MaxTotalVarsBytes_def MaxTotalVarEntryBytes_def)

lemma capsOk_joined: "joined A i h h1 b \<Longrightarrow> capsOk h \<Longrightarrow> capsOk h1"
  by (fastforce simp: joined_def capsOk_def dest: subsetD)

lemma capsOk_lower:
  assumes "capsOk h" "b < length (budgets h)" "vs_values d \<le> 0" "vs_entries d \<le> 0"
  shows "capsOk (addLive b d h)"
proof -
  have "\<not> exceedsCaps (budgets h ! b)" using assms(1,2) by (simp add: capsOk_def)
  then have "\<not> exceedsCaps (budgets h ! b + d)" using assms(3,4) by (auto simp: exceedsCaps_def)
  then show ?thesis
    using assms(1) set_update_subset_insert [of "budgets h" b "budgets h ! b + d"]
    by (auto simp: capsOk_def)
qed

lemma capsOk_rebind:
  assumes "capsOk h" "b < length (budgets h)" "withinCaps (budgets h ! b) (ownedCost (ov h i) name) c"
  shows "capsOk (rebind i name b c v h)"
proof -
  let ?d = "c - ownedCost (ov h i) name"
  have "capsOk (addLive b ?d h)"
  proof (cases "grows c (ownedCost (ov h i) name)")
    case True
    then show ?thesis
      using assms(1,3) set_update_subset_insert [of "budgets h" b "budgets h ! b + ?d"]
      by (auto simp: capsOk_def withinCaps_def)
  next
    case False
    then show ?thesis by (intro capsOk_lower assms(1,2)) (auto simp: grows_def)
  qed
  then show ?thesis by (simp add: capsOk_def rebind_def Let_def)
qed

lemma capsOk_release:
  assumes "capsOk h" "heapInv A h" "i < length (overlays h)"
  shows "capsOk (release i h)"
proof (cases "budget (ov h i)")
  case None
  then show ?thesis using assms(1) by (simp add: release_def capsOk_def)
next
  case (Some b)
  have "\<forall>n \<in> dom (owned (ov h i)). 0 \<le> vs_values (varStorageCost A n (the (o_values (ov h i) n)))
      \<and> 0 \<le> vs_entries (varStorageCost A n (the (o_values (ov h i) n)))"
    by (simp add: cost_nonneg)
  then have "0 \<le> vs_values (charged (ov h i))" "0 \<le> vs_entries (charged (ov h i))"
    using ovInv_storageOf [OF heapInvD(2) [OF assms(2,3)]]
    by (auto simp: storageOf_def vs_values_sum vs_entries_sum intro!: sum_nonneg)
  then have "capsOk (addLive b (- charged (ov h i)) h)"
    using heapWfD(2) [OF heapInvD(1) [OF assms(2)] assms(3) Some] assms(1)
    by (intro capsOk_lower) simp_all
  then show ?thesis using Some by (simp add: release_def capsOk_def)
qed

lemma capsOk_new:
  assumes "capsOk h" "heapInv A h" "p < length (overlays h)"
    "newOverlayEnviron A (Overlay p) bg h = (h', i)"
  shows "capsOk h'"
proof -
  obtain h1 b where sb: "sharedBudget p h = (h1, b)" by force
  have "budgets h' = budgets h1"
    using assms(4) sb by (auto simp: newOverlayEnviron_def newOverlay_def Let_def)
  then show ?thesis
    using capsOk_joined [OF sharedBudget_joined [OF assms(2,3) sb] assms(1)] by (simp add: capsOk_def)
qed

lemma capsOk_step:
  assumes "varStep A True h h'" "heapInv A h" "\<not> Declared A emptyVar" "capsOk h"
  shows "capsOk h'"
  using assms(1)
proof cases
  case (vsNew p bg i)
  then show ?thesis using capsOk_new [OF assms(4,2)] by blast
next
  case (vsSet i name vr e)
  from vsSet(3) assms(2) vsSet(1) assms(3) show ?thesis
  proof (cases rule: Set_cases)
    case (written h1 b c v)
    then show ?thesis
      using capsOk_rebind [OF capsOk_joined [OF written(2) assms(4)], of b i name c v]
        joinedD(5,6) [OF written(2) vsSet(1)] vsSet(2) by auto
  qed (use assms(4) capsOk_joined in auto)
next
  case (vsRelease i)
  then show ?thesis using capsOk_release [OF assms(4,2)] by simp
qed simp_all

lemma varReach_capsOk:
  assumes "varReach A True ext vals h" "\<not> Declared A emptyVar"
  shows "capsOk h"
  using assms(1)
proof induction
  case vrStart
  then show ?case by (simp add: capsOk_def runStart_def resetAccounting_def newBudget_def)
next
  case (vrStep h h')
  then show ?case
    using capsOk_step [OF vrStep(2) _ assms(2)] varReach_keeps [OF vrStep(1) assms(2)] by blast
qed

definition storedBytes :: "overlayEnviron \<Rightarrow> int" where
  "storedBytes x = (\<Sum>n\<in>dom (owned x). int (length (vStr (the (o_values x n)))))"

text \<open>The names it owns, each with the overhead of an entry.\<close>

definition storedEntries :: "overlayEnviron \<Rightarrow> int" where
  "storedEntries x = (\<Sum>n\<in>dom (owned x). int (length n) + 64)"

lemma ovInv_stored:
  assumes "ovInv A x"
  shows "vs_values (storageOf A x) = storedBytes x" "vs_entries (storageOf A x) = storedEntries x"
proof -
  have "Declared A (the (o_values x n))" if "n \<in> dom (owned x)" for n
    using assms that by (force simp: ovInv_def cost_zero_iff)
  then show "vs_values (storageOf A x) = storedBytes x" "vs_entries (storageOf A x) = storedEntries x"
    by (simp_all add: storageOf_def storedBytes_def storedEntries_def vs_values_sum vs_entries_sum
        varStorageCost_def varEntryOverheadBytes_def)
qed

lemma totalOver_stored:
  assumes "\<forall>x\<in>set (overlays h). ovInv A x"
  shows "vs_values (totalOver b (storageOf A) h) = totalOver b storedBytes h"
    and "vs_entries (totalOver b (storageOf A) h) = totalOver b storedEntries h"
  using assms unfolding totalOver_def vs_values_sum_list vs_entries_sum_list map_map
  by (auto simp: ovInv_stored intro!: arg_cong [where f = sum_list] map_cong)

text \<open>C4. The storage caps hold across the whole run: whatever the live subshells and
  concurrent pipeline stages assign, the values they own together never exceed 1 MiB, and neither
  do their names with 64 bytes of overhead per variable.\<close>

theorem variable_storage_capped:
  assumes "varReach A True ext vals h" "\<not> Declared A emptyVar" "b < length (budgets h)"
  shows "totalOver b storedBytes h \<le> 1048576 \<and> totalOver b storedEntries h \<le> 1048576"
proof -
  have inv: "\<forall>x\<in>set (overlays h). ovInv A x"
    using varReach_keeps [OF assms(1,2)] by (auto simp: heapInv_def)
  have "budgets h ! b = totalOver b (storageOf A) h"
    using varReach_exact [OF assms] varReach_storage [OF assms(1,2)] by simp
  then have "vs_values (budgets h ! b) = totalOver b storedBytes h"
    and "vs_entries (budgets h ! b) = totalOver b storedEntries h"
    using inv by (simp_all add: totalOver_stored)
  moreover have "\<not> exceedsCaps (budgets h ! b)"
    using varReach_capsOk [OF assms(1,2)] assms(3) by (simp add: capsOk_def)
  ultimately show ?thesis
    by (simp add: exceedsCaps_def MaxTotalVarsBytes_def MaxTotalVarEntryBytes_def)
qed

theorem variable_storage_capped_witness:
  "totalOver 0 storedBytes demoHeap \<le> 1048576 \<and> totalOver 0 storedEntries demoHeap \<le> 1048576"
  using variable_storage_capped [OF demo_reach demo_undeclared, of 0] demo_budgets by simp

section \<open>What an environment shows\<close>

lemma prevVar_Get:
  assumes "heapWf h" "i < length (overlays h)"
  shows "prevVar i name h = Get h (Overlay i) name"
  using heapWfD(1) [OF assms]
  by (auto simp: prevVar_def Get.simps(2) [of h i] split: option.splits environ.splits)

text \<open>A lookup reads the entries and parents of the overlay and of older ones only.\<close>

lemma Get_cong:
  "(\<And>k. k \<le> i \<Longrightarrow> parent (ov h' k) = parent (ov h k) \<and> o_values (ov h' k) = o_values (ov h k)) \<Longrightarrow>
   Get h' (Overlay i) name = Get h (Overlay i) name"
proof (induction i rule: less_induct)
  case (less i)
  have "Get h' (Overlay p) name = Get h (Overlay p) name" if "p < i" for p
    using that less by simp
  then show ?case
    using less(2) [of i] by (auto simp: Get.simps(2) [of h i] Get.simps(2) [of h' i] split: option.splits environ.splits)
qed

lemma joined_view:
  assumes "joined A i h h1 b"
  shows "parent (ov h1 k) = parent (ov h k)" "o_values (ov h1 k) = o_values (ov h k)"
    "length (overlays h1) = length (overlays h)"
  using assms by (auto simp: joined_def nth_update_any split: if_splits)

lemma rebind_view:
  "parent (ov (rebind i name b c v h) k) = parent (ov h k)"
  "i < length (overlays h) \<Longrightarrow> o_values (ov (rebind i name b c v h) k) =
     (if k = i then (o_values (ov h i))(name := v) else o_values (ov h k))"
  "length (overlays (rebind i name b c v h)) = length (overlays h)"
  by (auto simp: rebind_def Let_def nth_update_any)

lemma Set_view:
  assumes "Set A i name vr h = (h', e)" "heapInv A h" "i < length (overlays h)" "\<not> Declared A emptyVar"
  shows "length (overlays h') = length (overlays h) \<and> (\<forall>k. parent (ov h' k) = parent (ov h k)) \<and>
    (\<forall>k n. k \<noteq> i \<or> n \<noteq> name \<or> e \<noteq> None \<longrightarrow> o_values (ov h' k) n = o_values (ov h k) n)"
  using assms
proof (cases rule: Set_cases)
  case (full h1 b l)
  then show ?thesis using joined_view [OF full(2)] by simp
next
  case (written h1 b c v)
  have "i < length (overlays h1)" using joinedD(2) [OF written(2) assms(3)] .
  then show ?thesis using joined_view [OF written(2)] written(3,4) by (simp add: rebind_view)
qed simp

lemmas Set_length = Set_view [THEN conjunct1]

lemma Get_after_Set:
  assumes "Set A i name vr h = (h', e)" "heapInv A h" "i < length (overlays h)"
    "\<not> Declared A emptyVar" "n \<noteq> name \<or> e \<noteq> None"
  shows "Get h' (Overlay i) n = Get h (Overlay i) n"
proof -
  have "Get h' (Overlay p) n = Get h (Overlay p) n" if "p < i" for p
    using that Set_view [OF assms(1-4)] by (intro Get_cong) auto
  then show ?thesis
    using Set_view [OF assms(1-4)] assms(5)
    by (auto simp: Get.simps(2) [of h i] Get.simps(2) [of h' i] split: option.splits environ.splits)
qed

lemma Set_stores:
  assumes "Set A i name vr h = (h', None)" "heapInv A h" "i < length (overlays h)"
    "IsSet A vr" "vKind vr \<noteq> KeepValue"
  shows "Get h' (Overlay i) name = vr\<lparr>vLocal := vLocal (prevVar i name h) \<or> vLocal vr\<rparr>"
proof -
  let ?w = "vr\<lparr>vLocal := vLocal (prevVar i name h) \<or> vLocal vr\<rparr>"
  obtain h1 e where o: "own A i name ?w True h = (h1, e)" by force
  obtain h2 b where sb: "sharedBudget i h = (h2, b)" by force
  have j: "joined A i h h2 b" using sharedBudget_joined [OF assms(2,3) sb] .
  have "length (overlays h1) = length (overlays h)"
    using o joinedD(6) [OF j assms(3)] joined_view(3) [OF j]
    by (auto simp: own_eq [OF sb _ refl refl] split: if_splits)
  moreover have "h' = putValue i name ?w h1"
    using assms(1,4,5) o by (auto simp: Set_def Let_def split: if_splits option.splits)
  ultimately show ?thesis
    using assms(3) by (simp add: putValue_def Get.simps(2) [of _ i])
qed

section \<open>The interface of a variable store\<close>

text \<open>What the interpreter needs of its environment: a refused write changes nothing, a write
  changes one name, and a read-only variable refuses writes.\<close>

locale variable_store =
  fixes inv :: "'s \<Rightarrow> bool"
    and get :: "'s \<Rightarrow> bytes \<Rightarrow> variable"
    and put :: "bytes \<Rightarrow> variable \<Rightarrow> 's \<Rightarrow> 's \<times> envError option"
  assumes inv_put: "inv s \<Longrightarrow> inv (fst (put name vr s))"
    and get_other: "inv s \<Longrightarrow> n \<noteq> name \<Longrightarrow> get (fst (put name vr s)) n = get s n"
    and put_refused: "inv s \<Longrightarrow> snd (put name vr s) \<noteq> None \<Longrightarrow> get (fst (put name vr s)) n = get s n"
    and readonly_refused: "inv s \<Longrightarrow> vReadOnly (get s name) \<Longrightarrow> snd (put name vr s) \<noteq> None"
begin

definition run_puts :: "(bytes \<times> variable) list \<Rightarrow> 's \<Rightarrow> 's" where
  "run_puts ws s = fold (\<lambda>(name, vr) s. fst (put name vr s)) ws s"

lemma run_puts_inv: "inv s \<Longrightarrow> inv (run_puts ws s)"
  unfolding run_puts_def by (induction ws arbitrary: s) (auto simp: inv_put)

lemma run_puts_unwritten:
  "inv s \<Longrightarrow> n \<notin> fst ` set ws \<Longrightarrow> get (run_puts ws s) n = get s n"
  unfolding run_puts_def by (induction ws arbitrary: s) (auto simp: inv_put get_other)

lemma run_puts_readonly:
  "inv s \<Longrightarrow> vReadOnly (get s n) \<Longrightarrow> get (run_puts ws s) n = get s n"
proof (induction ws arbitrary: s)
  case (Cons w ws)
  obtain name vr where w: "w = (name, vr)" by force
  have same: "get (fst (put name vr s)) n = get s n"
    using Cons.prems get_other put_refused readonly_refused by (cases "n = name") auto
  then show ?case
    using Cons.IH [of "fst (put name vr s)"] Cons.prems w
    by (simp add: run_puts_def inv_put)
qed (simp add: run_puts_def)

end

text \<open>An overlay of a well-formed store is a variable store; the expansion library's
  \<^verbatim>\<open>Declared\<close> is false of the zero variable, which the store's state carries as a condition.\<close>

interpretation overlay_store: variable_store
  "\<lambda>h. heapInv A h \<and> i < length (overlays h) \<and> \<not> Declared A emptyVar"
  "\<lambda>h. Get h (Overlay i)" "Set A i" for A i
proof (unfold_locales, goal_cases)
  case (1 s name vr)
  then show ?case
    using Set_keeps(1) Set_length by (metis prod.collapse)
next
  case (2 s n name vr)
  then show ?case using Get_after_Set [of A i name vr s] by (metis prod.collapse)
next
  case (3 s name vr n)
  then show ?case using Get_after_Set [of A i name vr s] by (metis prod.collapse)
next
  case (4 s name vr)
  then have ro: "vReadOnly (prevVar i name s)"
    using prevVar_Get [OF heapInvD(1)] by metis
  obtain h' e where s: "Set A i name vr s = (h', e)" by force
  have "e \<noteq> None"
    using Set_cases [OF s, of "e \<noteq> None"] 4 ro by blast
  then show ?case using s by simp
qed

text \<open>C28. A read-only variable is immutable: no sequence of assignments and unsets to any
  names, through an overlay that sees it, changes what the overlay shows for it.\<close>

theorem readonly_never_changes:
  assumes "heapInv A h" "i < length (overlays h)" "\<not> Declared A emptyVar"
    "vReadOnly (Get h (Overlay i) name)"
  shows "Get (fold (\<lambda>(n, vr) h. fst (Set A i n vr h)) ws h) (Overlay i) name =
         Get h (Overlay i) name"
  using overlay_store.run_puts_readonly [of A h i name ws] assms
  by (simp add: overlay_store.run_puts_def)

definition roHeap :: envHeap where
  "roHeap = runStart noEnv [''R'' \<mapsto> (stringVar ''v'')\<lparr>vReadOnly := True\<rparr>]"

lemma roHeap_inv: "heapInv A roHeap"
  by (simp add: roHeap_def runStart_inv)

lemma roHeap_view:
  "0 < length (overlays roHeap)" "length (overlays roHeap) = 1" "budget (ov roHeap 0) = Some 0"
  "o_values (ov roHeap 0) = [''R'' \<mapsto> (stringVar ''v'')\<lparr>vReadOnly := True\<rparr>]"
  by (simp_all add: roHeap_def demo_simps)

lemma roHeap_Get: "Get roHeap (Overlay 0) ''R'' = (stringVar ''v'')\<lparr>vReadOnly := True\<rparr>"
  by (simp add: Get.simps(2) [of _ 0] roHeap_view)

theorem readonly_never_changes_witness:
  "Get (fold (\<lambda>(n, vr) h. fst (Set stdApi 0 n vr h)) [(''R'', stringVar ''x''), (''S'', emptyVar)] roHeap)
     (Overlay 0) ''R'' = (stringVar ''v'')\<lparr>vReadOnly := True\<rparr>"
  using readonly_never_changes [of stdApi roHeap 0 "''R''" "[(''R'', stringVar ''x''), (''S'', emptyVar)]"]
    roHeap_inv demo_undeclared roHeap_Get roHeap_view(1)
  by (simp del: length_greater_0_conv add: stringVar_def)

text \<open>An accepted assignment is visible: the overlay then shows the assigned value, with
  the local flag it had, and every other name as before; a refused one shows everything as
  before.\<close>

theorem assignment_visible:
  assumes "heapInv A h" "i < length (overlays h)" "\<not> Declared A emptyVar"
    "IsSet A vr" "vKind vr \<noteq> KeepValue" "Set A i name vr h = (h', e)"
  shows "Get h' (Overlay i) n =
    (if n = name \<and> e = None
     then vr\<lparr>vLocal := vLocal (Get h (Overlay i) name) \<or> vLocal vr\<rparr>
     else Get h (Overlay i) n)"
  using Set_stores [of A i name vr h h'] Get_after_Set [OF assms(6,1,2,3), of n] assms
    prevVar_Get [OF heapInvD(1) [OF assms(1)] assms(2)]
  by (cases "n = name \<and> e = None") auto

theorem assignment_visible_witness:
  "Get (fst (Set stdApi 0 ''S'' (stringVar ''x'') roHeap)) (Overlay 0) ''S'' = stringVar ''x''"
proof -
  have "snd (Set stdApi 0 ''S'' (stringVar ''x'') roHeap) = None" "\<not> vLocal (Get roHeap (Overlay 0) ''S'')"
    by (simp_all add: Get.simps(2) [of _ 0] roHeap_def demo_simps)
  moreover have "IsSet stdApi (stringVar ''x'')" "vKind (stringVar ''x'') \<noteq> KeepValue"
    "vLocal (stringVar ''x'') = False"
    by (simp_all add: stdApi_def stringVar_def emptyVar_def)
  moreover have "heapInv stdApi roHeap" by (rule roHeap_inv)
  ultimately show ?thesis
    using assignment_visible [of stdApi roHeap 0 "stringVar ''x''" "''S''" "fst (Set stdApi 0 ''S'' (stringVar ''x'') roHeap)" None "''S''"]
      roHeap_view(2) demo_undeclared by (simp add: prod_eq_iff)
qed

section \<open>Temporary bindings\<close>

text \<open>The states a temporary binding of \<open>name\<close> can lead to: \<open>h\<close> with another binding of that
  name.\<close>

lemma rebind_rebind:
  assumes "i < length (overlays h)" "b < length (budgets h)" "budget (ov h i) = Some b"
  shows "rebind i name b c' v' (rebind i name b c v h) = rebind i name b c' v' h"
  using assms
  by (auto simp: rebind_def Let_def setOv_def addLive_def ownedCost_def algebra_simps)

lemma rebind_id:
  assumes "heapInv A h" "i < length (overlays h)"
  shows "rebind i name b (ownedCost (ov h i) name) (o_values (ov h i) name) h = h"
proof -
  have "owned (ov h i) name \<noteq> Some 0"
    using heapInvD(2) [OF assms] by (auto simp: ovInv_def)
  then have "(if ownedCost (ov h i) name = 0 then None else Some (ownedCost (ov h i) name)) =
      owned (ov h i) name"
    by (auto simp: ownedCost_def split: option.splits)
  then show ?thesis by (simp add: rebind_def Let_def setOv_def addLive_def)
qed

lemma Set_rebinds:
  assumes "heapInv A h" "i < length (overlays h)" "budget (ov h i) = Some b" "\<not> Declared A emptyVar"
  shows "\<exists>c v. fst (Set A i name vr h) = rebind i name b c v h \<and> validBinding A name c v"
proof -
  obtain h' e where s: "Set A i name vr h = (h', e)" by force
  have id: "\<exists>c v. h = rebind i name b c v h \<and> validBinding A name c v"
    using rebind_id [OF assms(1,2), of name b]
      validBinding_snapshot [OF assms(1,2) refl, of name]
    by (metis bindingSnapshot.select_convs snapshotBinding_def)
  from s assms(1,2,4) have "\<exists>c v. h' = rebind i name b c v h \<and> validBinding A name c v"
    by (cases rule: Set_cases) (use id sharedBudget_Some [OF assms(3)] in auto)
  then show ?thesis using s by simp
qed

lemma Sets_rebind:
  assumes "heapInv A h" "i < length (overlays h)" "budget (ov h i) = Some b" "\<not> Declared A emptyVar"
  shows "\<exists>c v. fold (\<lambda>vr h. fst (Set A i name vr h)) vrs h = rebind i name b c v h"
  using assms(1-3)
proof (induction vrs arbitrary: h)
  case Nil
  then have "fold (\<lambda>vr h. fst (Set A i name vr h)) [] h =
      rebind i name b (ownedCost (ov h i) name) (o_values (ov h i) name) h"
    using rebind_id [of A h i name b] by simp
  then show ?case by blast
next
  case (Cons vr vrs)
  obtain c v where cv: "fst (Set A i name vr h) = rebind i name b c v h" "validBinding A name c v"
    using Set_rebinds [OF Cons.prems assms(4)] by blast
  let ?h = "rebind i name b c v h"
  have b: "b < length (budgets h)"
    using heapWfD(2) [OF heapInvD(1) [OF Cons.prems(1)] Cons.prems(2,3)] .
  have "budget (ov ?h i) = Some b" using Cons.prems(2,3) by (simp add: rebind_def Let_def)
  then obtain c' v' where "fold (\<lambda>vr h. fst (Set A i name vr h)) vrs ?h = rebind i name b c' v' ?h"
    using Cons.IH [of ?h] rebind_keeps(1) [OF Cons.prems cv(2)] rebind_view(3) Cons.prems(2) by metis
  then show ?case
    using cv(1) rebind_rebind [OF Cons.prems(2) b Cons.prems(3)] by auto
qed

text \<open>C27. A temporary binding is undone exactly: after any sequence of writes to a name,
  restoring the snapshot taken before them gives back the whole store, entry, ownership,
  charges and the shared budget included.\<close>

theorem restore_undoes_writes:
  assumes "heapInv A h" "i < length (overlays h)" "budget (ov h i) = Some b" "\<not> Declared A emptyVar"
  shows "restoreBinding i (snapshotBinding i name h)
           (fold (\<lambda>vr h. fst (Set A i name vr h)) vrs h) = h"
proof -
  obtain c v where cv: "fold (\<lambda>vr h. fst (Set A i name vr h)) vrs h = rebind i name b c v h"
    using Sets_rebind [OF assms] by blast
  let ?h = "rebind i name b c v h"
  have b: "b < length (budgets h)"
    using heapWfD(2) [OF heapInvD(1) [OF assms(1)] assms(2,3)] .
  have "budget (ov ?h i) = Some b" using assms(2,3) by (simp add: rebind_def Let_def)
  then have "restoreBinding i (snapshotBinding i name h) ?h =
      rebind i name b (ownedCost (ov h i) name) (o_values (ov h i) name) ?h"
    using restoreBinding_eq [OF sharedBudget_Some, of ?h i b] assms(2) rebind_view(3)
    by (simp add: snapshotBinding_def)
  then show ?thesis
    using cv rebind_rebind [OF assms(2) b assms(3)] rebind_id [OF assms(1,2)] by simp
qed

theorem restore_undoes_writes_witness:
  "restoreBinding 0 (snapshotBinding 0 ''S'' roHeap)
     (fold (\<lambda>vr h. fst (Set stdApi 0 ''S'' vr h)) [stringVar ''one'', stringVar ''three''] roHeap) = roHeap"
  by (rule restore_undoes_writes [OF roHeap_inv roHeap_view(1,3) demo_undeclared])

section \<open>Subshells\<close>

text \<open>An environment of the expansion library answers \<^verbatim>\<open>Get\<close> from what its \<^verbatim>\<open>Each\<close>
  enumerates.\<close>

definition envFaithful :: "envHeap \<Rightarrow> bool" where
  "envFaithful h \<longleftrightarrow> (\<forall>x\<in>set (overlays h). \<forall>e n. parent x = Some (External e) \<longrightarrow>
     ext_get e n = (case map_of (ext_each e) n of None \<Rightarrow> emptyVar | Some v \<Rightarrow> v))"

lemma Each_Get:
  assumes "envFaithful h" "i < length (overlays h)"
  shows "Get h (Overlay i) n = (case Each h (Overlay i) n of None \<Rightarrow> emptyVar | Some v \<Rightarrow> v)"
  using assms(2)
proof (induction i rule: less_induct)
  case (less i)
  have "Get h (Overlay p) n = (case Each h (Overlay p) n of None \<Rightarrow> emptyVar | Some v \<Rightarrow> v)"
    if "p < i" for p
    using that less by simp
  moreover have "ext_get e n = (case map_of (ext_each e) n of None \<Rightarrow> emptyVar | Some v \<Rightarrow> v)"
    if "parent (ov h i) = Some (External e)" for e
    using assms(1) less.prems that nth_mem [of i "overlays h"] unfolding envFaithful_def by blast
  ultimately show ?case
    by (auto simp: Get.simps(2) [of h i] Each.simps(2) [of h i] map_add_def
        split: option.splits environ.splits)
qed

lemma Sets_view:
  assumes "heapInv A h" "i < length (overlays h)" "\<not> Declared A emptyVar"
  shows "k \<noteq> i \<longrightarrow> parent (ov (fold (\<lambda>(n, vr) h. fst (Set A i n vr h)) ws h) k) = parent (ov h k) \<and>
         o_values (ov (fold (\<lambda>(n, vr) h. fst (Set A i n vr h)) ws h) k) = o_values (ov h k)"
  using assms(1,2)
proof (induction ws arbitrary: h)
  case (Cons w ws)
  obtain n vr where w: "w = (n, vr)" by force
  obtain h' e where s: "Set A i n vr h = (h', e)" by force
  note v = Set_view [OF s Cons.prems assms(3)]
  have "k \<noteq> i \<longrightarrow> o_values (ov h' k) = o_values (ov h k)" using v by auto
  then show ?case
    using Cons.IH [of h'] Set_keeps(1) [OF s Cons.prems assms(3)] v Cons.prems(2) w s by simp
qed simp

lemma newOverlayEnviron_view:
  assumes "heapInv A h" "p < length (overlays h)" "newOverlayEnviron A (Overlay p) bg h = (h1, c)"
  shows "k < c \<Longrightarrow> parent (ov h1 k) = parent (ov h k) \<and> o_values (ov h1 k) = o_values (ov h k)"
    "parent (ov h1 c) = (if bg then None else Some (Overlay p))"
    "o_values (ov h1 c) = (if bg then Each h (Overlay p) else Map.empty)"
    "length (overlays h1) = Suc c"
proof -
  obtain h2 b where sb: "sharedBudget p h = (h2, b)" by force
  note jv = joined_view [OF sharedBudget_joined [OF assms(1,2) sb]]
  have "c = length (overlays h)" using newOverlayEnviron_keeps(3) [OF assms] .
  then show "k < c \<Longrightarrow> parent (ov h1 k) = parent (ov h k) \<and> o_values (ov h1 k) = o_values (ov h k)"
    "parent (ov h1 c) = (if bg then None else Some (Overlay p))"
    "o_values (ov h1 c) = (if bg then Each h (Overlay p) else Map.empty)"
    "length (overlays h1) = Suc c"
    using assms(3) sb jv by (auto simp: newOverlayEnviron_def newOverlay_def Let_def nth_append)
qed

text \<open>C26. A subshell starts with the variables of its parent and keeps its own assignments to
  itself: whatever it assigns, the parent shows what it showed before; and a background subshell
  (a pipeline stage) does not see what the parent assigns meanwhile.\<close>

theorem subshell_isolated:
  assumes "heapInv A h" "p < length (overlays h)" "\<not> Declared A emptyVar" "envFaithful h"
    "newOverlayEnviron A (Overlay p) bg h = (h1, c)"
  shows "Get h1 (Overlay c) n = Get h (Overlay p) n \<and>
    Get (fold (\<lambda>(m, vr) h. fst (Set A c m vr h)) ws h1) (Overlay p) n = Get h (Overlay p) n \<and>
    (bg \<longrightarrow> Get (fold (\<lambda>(m, vr) h. fst (Set A p m vr h)) ws h1) (Overlay c) n = Get h1 (Overlay c) n)"
proof -
  note k = newOverlayEnviron_keeps [OF assms(1,2,5)] and v = newOverlayEnviron_view [OF assms(1,2,5)]
  have pc: "p < c" using assms(2) k(3) by simp
  have same: "Get h1 (Overlay p) n = Get h (Overlay p) n"
    using v(1) pc by (intro Get_cong) auto
  then have "Get h1 (Overlay c) n = Get h (Overlay p) n"
    using v(2,3) pc Each_Get [OF assms(4,2)] by (auto simp: Get.simps(2) [of h1 c] split: option.splits)
  moreover have "Get (fold (\<lambda>(m, vr) h. fst (Set A c m vr h)) ws h1) (Overlay p) n = Get h1 (Overlay p) n"
    using Sets_view [OF k(1) _ assms(3)] v(4) pc by (intro Get_cong) auto
  moreover have "Get (fold (\<lambda>(m, vr) h. fst (Set A p m vr h)) ws h1) (Overlay c) n = Get h1 (Overlay c) n" if bg
    using Sets_view [OF k(1) _ assms(3), of p c ws] v(2,4) pc that
    by (simp add: Get.simps(2) [of _ c] split: option.split)
  ultimately show ?thesis using same by simp
qed

theorem subshell_isolated_witness:
  "Get (fold (\<lambda>(m, vr) h. fst (Set stdApi 1 m vr h)) [(''S'', stringVar ''x'')]
     (fst (newOverlayEnviron stdApi (Overlay 0) False roHeap))) (Overlay 0) ''S'' =
   Get roHeap (Overlay 0) ''S''"
proof -
  have f: "envFaithful roHeap" by (auto simp: envFaithful_def roHeap_def demo_simps)
  have i: "heapInv stdApi roHeap" by (rule roHeap_inv)
  obtain h1 c where n: "newOverlayEnviron stdApi (Overlay 0) False roHeap = (h1, c)" by force
  have "c = 1" using newOverlayEnviron_keeps(3) [OF i roHeap_view(1) n] roHeap_view(2) by simp
  then show ?thesis
    using subshell_isolated [OF i roHeap_view(1) demo_undeclared f n, of "''S''" "[(''S'', stringVar ''x'')]"]
      n by simp
qed

end
