(* ===== verification/Runner_Vars.thy ===== *)
theory Runner_Vars
  imports Var_Properties "HOL-Library.Word"
begin

text \<open>
  The interpreter's exit status (\<^verbatim>\<open>interp/api.go\<close>) and its access to variables
  (\<^verbatim>\<open>interp/vars.go\<close>): what each lookup and assignment reports and how it sets the status.
  The part of the runner's state these operations use is the record \<open>Runner\<close>.
\<close>

section \<open>Exit status\<close>

text \<open>Go errors as the status uses them: those that wrap an \<^verbatim>\<open>ExitStatus\<close> and the others.\<close>

datatype goError = ExitStatusErr "8 word" | OtherErr bytes

record exitStatus =
  code :: "8 word"
  exiting :: bool
  fatalExit :: bool
  limitExit :: bool
  err :: "goError option"

definition zeroExit :: exitStatus where
  "zeroExit = \<lparr>code = 0, exiting = False, fatalExit = False, limitExit = False, err = None\<rparr>"

definition ok :: "exitStatus \<Rightarrow> bool" where
  "ok e \<longleftrightarrow> code e = 0"

definition oneIf :: "bool \<Rightarrow> exitStatus \<Rightarrow> exitStatus" where
  "oneIf b e = e\<lparr>code := (if b then 1 else 0)\<rparr>"

definition fatal :: "goError option \<Rightarrow> exitStatus \<Rightarrow> exitStatus" where
  "fatal er e =
     (if \<not> fatalExit e \<and> er \<noteq> None
      then e\<lparr>exiting := True, fatalExit := True, err := er,
              code := (if code e = 0 then 1 else code e)\<rparr>
      else e)"

definition fromHandlerError :: "goError option \<Rightarrow> exitStatus \<Rightarrow> exitStatus" where
  "fromHandlerError er e =
     (case er of
        None \<Rightarrow> e\<lparr>code := 0\<rparr>
      | Some (ExitStatusErr c) \<Rightarrow> e\<lparr>err := er, code := c\<rparr>
      | Some (OtherErr _) \<Rightarrow> fatal er e)"

text \<open>A fatal status is well-formed when it exits, has an error and a non-zero code.\<close>

definition exitWf :: "exitStatus \<Rightarrow> bool" where
  "exitWf e \<longleftrightarrow> (fatalExit e \<longrightarrow> exiting e \<and> err e \<noteq> None)"

lemma exitWf_zero [simp]: "exitWf zeroExit"
  by (simp add: exitWf_def zeroExit_def)

lemma exitWf_fatal: "exitWf e \<Longrightarrow> exitWf (fatal er e)"
  by (simp add: exitWf_def fatal_def)

lemma exitWf_fromHandlerError: "exitWf e \<Longrightarrow> exitWf (fromHandlerError er e)"
  by (auto simp: exitWf_def fromHandlerError_def fatal_def split: option.splits goError.splits)

section \<open>Variables of the runner\<close>

record Runner =
  r_heap :: envHeap
  writeEnv :: nat
  r_exit :: exitStatus
  lastExit :: exitStatus
  r_stderr :: nat
  r_written :: "(nat \<times> bytes) list"

text \<open>\<open>r_stderr\<close> is the current error writer; \<open>r_written\<close> is what the shell has written, each text
  with the writer it went to.\<close>

definition errf :: "bytes \<Rightarrow> 'r Runner_scheme \<Rightarrow> 'r Runner_scheme" where
  "errf msg r = r\<lparr>r_written := r_written r @ [(r_stderr r, msg)]\<rparr>"

definition internalErrorf :: "bytes \<Rightarrow> 'r Runner_scheme \<Rightarrow> 'r Runner_scheme" where
  "internalErrorf msg r = r\<lparr>r_exit := fatal (Some (OtherErr (''internal error: '' @ msg))) (r_exit r)\<rparr>"

definition envErrorText :: "envError \<Rightarrow> bytes" where
  "envErrorText e =
     (case e of
        ReadonlyVariable \<Rightarrow> ''readonly variable''
      | TotalVarStorageExceeded tot \<Rightarrow>
          if vs_values tot > MaxTotalVarsBytes
          then ''variable storage limit exceeded ('' @ itoa (vs_values tot) @ '' bytes total)''
          else ''variable storage limit exceeded ('' @ itoa (vs_entries tot) @
               '' bytes of names and entries total)'')"

definition lookupVar :: "expandApi \<Rightarrow> bytes \<Rightarrow> 'r Runner_scheme \<Rightarrow> 'r Runner_scheme \<times> variable" where
  "lookupVar A name r =
     (if name = [] then (internalErrorf ''variable name must not be empty'' r, emptyVar)
      else if name = ''?'' then (r, stringVar (itoa (uint (code (lastExit r)))))
      else (let vr = Get (r_heap r) (Overlay (writeEnv r)) name
            in if Declared A vr then (r, vr) else (r, emptyVar)))"

definition setVarErr :: "expandApi \<Rightarrow> bytes \<Rightarrow> variable \<Rightarrow> 'r Runner_scheme \<Rightarrow> 'r Runner_scheme \<times> envError option" where
  "setVarErr A name vr r =
     (let (h, e) = Set A (writeEnv r) name vr (r_heap r) in (r\<lparr>r_heap := h\<rparr>, e))"

definition setVar :: "expandApi \<Rightarrow> bytes \<Rightarrow> variable \<Rightarrow> 'r Runner_scheme \<Rightarrow> 'r Runner_scheme" where
  "setVar A name vr r =
     (if IsSet A vr \<and> int (length (vStr vr)) > MaxVarBytes then
        (let r = errf (name @ '': value too large (limit '' @ itoa MaxVarBytes @ '' bytes)'' @ [chNL]) r
         in r\<lparr>r_exit := (r_exit r)\<lparr>code := 1\<rparr>\<rparr>)
      else
        (let (h, e) = Set A (writeEnv r) name vr (r_heap r);
             r = r\<lparr>r_heap := h\<rparr>
         in case e of
              None \<Rightarrow> r
            | Some er \<Rightarrow>
               (let r = errf (name @ '': '' @ envErrorText er @ [chNL]) r
                in case er of
                     TotalVarStorageExceeded _ \<Rightarrow>
                       r\<lparr>r_exit := (r_exit r)\<lparr>code := 1, exiting := True\<rparr>\<rparr>
                   | ReadonlyVariable \<Rightarrow> r\<lparr>r_exit := (r_exit r)\<lparr>code := 1\<rparr>\<rparr>)))"

definition setVarString :: "expandApi \<Rightarrow> bytes \<Rightarrow> bytes \<Rightarrow> 'r Runner_scheme \<Rightarrow> 'r Runner_scheme" where
  "setVarString A name value r = setVar A name (stringVar value) r"

text \<open>The runner's environment is always an overlay, so the restoring write is uncapped.\<close>

definition setVarRestore :: "expandApi \<Rightarrow> bytes \<Rightarrow> variable \<Rightarrow> 'r Runner_scheme \<Rightarrow> 'r Runner_scheme" where
  "setVarRestore A name vr r = r\<lparr>r_heap := setUncapped A (writeEnv r) name vr (r_heap r)\<rparr>"

definition lookupEnvVar :: "expandApi \<Rightarrow> bytes \<Rightarrow> 'r Runner_scheme \<Rightarrow> bytes \<times> bool" where
  "lookupEnvVar A name r =
     (let vr = Get (r_heap r) (Overlay (writeEnv r)) name
      in if \<not> IsSet A vr then ([], False) else (vStr vr, True))"

definition releaseVarStorage :: "'r Runner_scheme \<Rightarrow> 'r Runner_scheme" where
  "releaseVarStorage r = r\<lparr>r_heap := release (writeEnv r) (r_heap r)\<rparr>"

definition runnerOk :: "expandApi \<Rightarrow> 'r Runner_scheme \<Rightarrow> bool" where
  "runnerOk A r \<longleftrightarrow> heapInv A (r_heap r) \<and> writeEnv r < length (overlays (r_heap r))"

lemma setVar_accepted:
  assumes "r_exit (setVar A name vr r) = r_exit r" "code (r_exit r) = 0"
  shows "Set A (writeEnv r) name vr (r_heap r) = (r_heap (setVar A name vr r), None)"
  using assms by (auto simp: setVar_def errf_def Let_def split: if_splits prod.splits option.splits
      envError.splits dest!: arg_cong [where f = code])

text \<open>C29. What an assignment stores is what a lookup finds: when \<^verbatim>\<open>setVarString\<close> does not
  report a failure, looking the name up returns the assigned string, and the lookup of any other
  name is what it was.\<close>

theorem assigned_string_is_found:
  assumes "runnerOk A r" "\<not> Declared A emptyVar" "\<And>s. IsSet A (stringVar s)"
    "\<And>v. IsSet A v \<Longrightarrow> Declared A v" "\<And>v b. IsSet A (v\<lparr>vLocal := b\<rparr>) = IsSet A v"
    "code (r_exit r) = 0" "r_exit (setVarString A name value r) = r_exit r"
    "name \<noteq> []" "name \<noteq> ''?''"
  shows "vStr (snd (lookupVar A name (setVarString A name value r))) = value \<and>
    (m \<noteq> name \<longrightarrow> snd (lookupVar A m (setVarString A name value r)) = snd (lookupVar A m r))"
proof -
  let ?r' = "setVarString A name value r"
  let ?v = "stringVar value"
  have s: "Set A (writeEnv r) name ?v (r_heap r) = (r_heap ?r', None)"
    using setVar_accepted assms(6,7) by (simp add: setVarString_def)
  have w: "writeEnv ?r' = writeEnv r" "lastExit ?r' = lastExit r"
    by (auto simp: setVarString_def setVar_def errf_def Let_def split: prod.splits option.splits envError.splits)
  have ok: "heapInv A (r_heap r)" "writeEnv r < length (overlays (r_heap r))"
    using assms(1) by (simp_all add: runnerOk_def)
  have "vKind ?v \<noteq> KeepValue" by (simp add: stringVar_def)
  then have g: "Get (r_heap ?r') (Overlay (writeEnv r)) name =
      ?v\<lparr>vLocal := vLocal (prevVar (writeEnv r) name (r_heap r)) \<or> vLocal ?v\<rparr>"
    using Set_stores [OF s ok assms(3)] by simp
  have "Declared A (Get (r_heap ?r') (Overlay (writeEnv r)) name)"
    using assms(3,4,5) by (simp add: g)
  then have "vStr (snd (lookupVar A name ?r')) = value"
    using assms(8,9) w g by (simp add: lookupVar_def Let_def stringVar_def)
  moreover have "snd (lookupVar A m ?r') = snd (lookupVar A m r)" if "m \<noteq> name"
    using Get_after_Set [OF s ok assms(2), of m] that w by (simp add: lookupVar_def Let_def)
  ultimately show ?thesis by blast
qed

definition demoRunner :: Runner where
  "demoRunner = \<lparr>r_heap = roHeap, writeEnv = 0, r_exit = zeroExit, lastExit = zeroExit, r_stderr = 2, r_written = []\<rparr>"

theorem assigned_string_is_found_witness:
  "vStr (snd (lookupVar stdApi ''S'' (setVarString stdApi ''S'' ''x'' demoRunner))) = ''x'' \<and>
   snd (lookupVar stdApi ''R'' (setVarString stdApi ''S'' ''x'' demoRunner)) =
   snd (lookupVar stdApi ''R'' demoRunner)"
proof -
  have a: "runnerOk stdApi demoRunner"
    using roHeap_inv roHeap_view(1) by (simp add: runnerOk_def demoRunner_def)
  have b: "r_exit (setVarString stdApi ''S'' ''x'' demoRunner) = r_exit demoRunner"
    by (simp add: setVarString_def setVar_def demoRunner_def roHeap_def demo_simps MaxVarBytes_def)
  have c: "code (r_exit demoRunner) = 0" by (simp add: demoRunner_def zeroExit_def)
  show ?thesis
    using assigned_string_is_found [of stdApi demoRunner "''S''" "''x''" "''R''"] a b c demo_undeclared
    by (simp add: stdApi_def stringVar_def)
qed

text \<open>C30. Every failed assignment is reported, and only exhausted storage ends the script: the
  environment shows what it showed, a message naming the variable is written, the code is 1, and
  the shell is exiting afterwards exactly if it was or the storage cap was hit.\<close>

theorem failed_assignment_reported:
  assumes "runnerOk A r" "\<not> Declared A emptyVar"
    "(IsSet A vr \<and> int (length (vStr vr)) > MaxVarBytes) \<or>
     Set A (writeEnv r) name vr (r_heap r) = (h, Some e)"
  defines "r' \<equiv> setVar A name vr r"
  shows "code (r_exit r') = 1 \<and>
    Get (r_heap r') (Overlay (writeEnv r)) n = Get (r_heap r) (Overlay (writeEnv r)) n \<and>
    (\<exists>msg. r_written r' = r_written r @ [(r_stderr r, name @ '': '' @ msg @ [chNL])]) \<and>
    exiting (r_exit r') = (exiting (r_exit r) \<or>
      \<not> (IsSet A vr \<and> int (length (vStr vr)) > MaxVarBytes) \<and> e \<noteq> ReadonlyVariable)"
proof (cases "IsSet A vr \<and> int (length (vStr vr)) > MaxVarBytes")
  case True
  then show ?thesis
    by (auto simp: r'_def setVar_def errf_def Let_def intro!: exI [of _ "''value too large (limit '' @ itoa MaxVarBytes @ '' bytes)''"])
next
  case False
  then have s: "Set A (writeEnv r) name vr (r_heap r) = (h, Some e)" using assms(3) by blast
  have "Get h (Overlay (writeEnv r)) n = Get (r_heap r) (Overlay (writeEnv r)) n"
    using Get_after_Set [OF s] assms(1,2) by (simp add: runnerOk_def)
  then show ?thesis
    using False s by (auto simp: r'_def setVar_def errf_def Let_def split: envError.splits)
qed

theorem failed_assignment_reported_witness:
  "code (r_exit (setVar stdApi ''R'' (stringVar ''x'') demoRunner)) = 1 \<and>
   exiting (r_exit (setVar stdApi ''R'' (stringVar ''x'') demoRunner)) = False"
proof -
  have a: "runnerOk stdApi demoRunner"
    using roHeap_inv roHeap_view(1) by (simp add: runnerOk_def demoRunner_def)
  have "Set stdApi (writeEnv demoRunner) ''R'' (stringVar ''x'') (r_heap demoRunner) =
      (r_heap demoRunner, Some ReadonlyVariable)"
    by (simp add: demoRunner_def roHeap_def demo_simps)
  then show ?thesis
    using failed_assignment_reported [OF a demo_undeclared, of "stringVar ''x''" "''R''"
        "r_heap demoRunner" ReadonlyVariable "''R''"]
    by (simp add: demoRunner_def zeroExit_def stringVar_def)
qed

end
