(* ===== verification/Go_Path.thy ===== *)
theory Go_Path
  imports Prelude "HOL-Library.Sublist"
begin

text \<open>
  The lexical path functions of Go's \<^verbatim>\<open>path/filepath\<close> and \<^verbatim>\<open>strings\<close> packages that the
  sandbox uses, for Unix paths: splitting and joining at a separator, \<^verbatim>\<open>Clean\<close>, \<^verbatim>\<open>IsAbs\<close>,
  \<^verbatim>\<open>Join\<close>, \<^verbatim>\<open>Dir\<close> and \<^verbatim>\<open>Rel\<close>.  The lemmas reduce them to lists of components: an
  absolute path names the list \<open>absComps\<close>, and a path is inside a directory exactly when
  the directory's components are a prefix of its own.
\<close>

section \<open>Splitting and joining\<close>

fun splitOn :: "'a \<Rightarrow> 'a list \<Rightarrow> 'a list list" where
  "splitOn c [] = [[]]"
| "splitOn c (x # xs) =
     (if x = c then [] # splitOn c xs
      else (case splitOn c xs of [] \<Rightarrow> [[x]] | y # ys \<Rightarrow> (x # y) # ys))"

fun joinWith :: "'a \<Rightarrow> 'a list list \<Rightarrow> 'a list" where
  "joinWith c [] = []"
| "joinWith c [x] = x"
| "joinWith c (x # y # ys) = x @ c # joinWith c (y # ys)"

lemma splitOn_nonempty [simp]: "splitOn c xs \<noteq> []"
  by (induction xs) (auto split: list.splits)

lemma joinWith_Cons: "joinWith c (x # xs) = (if xs = [] then x else x @ c # joinWith c xs)"
  by (cases xs) auto

lemma joinWith_splitOn [simp]: "joinWith c (splitOn c xs) = xs"
  by (induction xs) (auto simp: joinWith_Cons split: list.splits)

lemma splitOn_no_sep: "x \<in> set (splitOn c xs) \<Longrightarrow> c \<notin> set x"
  by (induction xs arbitrary: x) (auto split: if_splits list.splits)

lemma splitOn_single: "c \<notin> set x \<Longrightarrow> splitOn c x = [x]"
  by (induction x) auto

lemma splitOn_append_sep: "c \<notin> set x \<Longrightarrow> splitOn c (x @ c # ys) = x # splitOn c ys"
  by (induction x) auto

lemma splitOn_joinWith:
  "xs \<noteq> [] \<Longrightarrow> (\<And>x. x \<in> set xs \<Longrightarrow> c \<notin> set x) \<Longrightarrow> splitOn c (joinWith c xs) = xs"
  by (induction xs rule: induct_list012) (auto simp: splitOn_single splitOn_append_sep)

section \<open>Clean and its companions\<close>

abbreviation chSlash :: char where "chSlash \<equiv> CHR ''/''"

definition IsAbs :: "bytes \<Rightarrow> bool" where
  "IsAbs p \<longleftrightarrow> p \<noteq> [] \<and> hd p = chSlash"

text \<open>One element of the path against the elements kept so far, the last one first.\<close>

definition cleanElem :: "bool \<Rightarrow> bytes \<Rightarrow> bytes list \<Rightarrow> bytes list" where
  "cleanElem rooted c kept =
     (if c = [] \<or> c = ''.'' then kept
      else if c = ''..'' then
        (case kept of
           [] \<Rightarrow> if rooted then [] else [c]
         | k # ks \<Rightarrow> if k = ''..'' then c # kept else ks)
      else c # kept)"

definition cleanElems :: "bool \<Rightarrow> bytes \<Rightarrow> bytes list" where
  "cleanElems rooted p = rev (fold (cleanElem rooted) (splitOn chSlash p) [])"

definition Clean :: "bytes \<Rightarrow> bytes" where
  "Clean p =
     (if p = [] then ''.''
      else (let rooted = IsAbs p;
                out = (if rooted then ''/'' else []) @ joinWith chSlash (cleanElems rooted p)
            in if out = [] then ''.'' else out))"

definition Join :: "bytes \<Rightarrow> bytes \<Rightarrow> bytes" where
  "Join a b = (if a \<noteq> [] then Clean (a @ chSlash # b) else if b \<noteq> [] then Clean b else [])"

definition Dir :: "bytes \<Rightarrow> bytes" where
  "Dir p = Clean (rev (dropWhile (\<lambda>c. c \<noteq> chSlash) (rev p)))"

definition Base :: "bytes \<Rightarrow> bytes" where
  "Base p =
     (if p = [] then ''.''
      else (let q = rev (dropWhile (\<lambda>c. c = chSlash) (rev p));
                b = rev (takeWhile (\<lambda>c. c \<noteq> chSlash) (rev q))
            in if b = [] then ''/'' else b))"

section \<open>Components of absolute paths\<close>

definition normalComp :: "bytes \<Rightarrow> bool" where
  "normalComp c \<longleftrightarrow> c \<noteq> [] \<and> c \<noteq> ''.'' \<and> c \<noteq> ''..'' \<and> chSlash \<notin> set c"

abbreviation absComps :: "bytes \<Rightarrow> bytes list" where
  "absComps p \<equiv> cleanElems True p"

definition absPath :: "bytes list \<Rightarrow> bytes" where
  "absPath cs = chSlash # joinWith chSlash cs"

lemma cleanElem_normal:
  "\<forall>k\<in>set kept. normalComp k \<Longrightarrow> chSlash \<notin> set c \<Longrightarrow> \<forall>k\<in>set (cleanElem True c kept). normalComp k"
proof -
  assume n: "\<forall>k\<in>set kept. normalComp k" and c: "chSlash \<notin> set c"
  have "cleanElem True c kept = c # kept \<and> normalComp c \<or>
    (\<exists>k. cleanElem True c kept = c # kept \<and> kept = k # tl kept \<and> k = ''..'') \<or>
    set (cleanElem True c kept) \<subseteq> set kept"
    unfolding cleanElem_def using c by (cases kept) (auto simp: normalComp_def)
  moreover have "\<not> normalComp ''..''" by (simp add: normalComp_def)
  ultimately show ?thesis using n by (metis list.set_intros(1) set_ConsD subsetD)
qed

lemma fold_cleanElem_normal:
  "\<forall>k\<in>set kept. normalComp k \<Longrightarrow> \<forall>c\<in>set cs. chSlash \<notin> set c \<Longrightarrow>
   \<forall>k\<in>set (fold (cleanElem True) cs kept). normalComp k"
proof (induction cs arbitrary: kept)
  case (Cons c cs)
  then show ?case using cleanElem_normal [of kept c] by simp
qed simp

lemma absComps_normal: "c \<in> set (absComps p) \<Longrightarrow> normalComp c"
proof -
  assume c: "c \<in> set (absComps p)"
  have "\<forall>k\<in>set (fold (cleanElem True) (splitOn chSlash p) []). normalComp k"
    by (rule fold_cleanElem_normal) (simp_all add: splitOn_no_sep)
  then show ?thesis using c by (simp add: cleanElems_def)
qed

lemma Clean_abs: "IsAbs p \<Longrightarrow> Clean p = absPath (absComps p)"
  using IsAbs_def [of p] by (simp add: Clean_def absPath_def)

lemma fold_cleanElem_keep:
  "\<forall>c\<in>set cs. normalComp c \<Longrightarrow> fold (cleanElem r) cs kept = rev cs @ kept"
  by (induction cs arbitrary: kept) (auto simp: cleanElem_def normalComp_def)

lemma absComps_absPath:
  assumes "\<forall>c\<in>set cs. normalComp c"
  shows "absComps (absPath cs) = cs"
proof (cases "cs = []")
  case True
  then show ?thesis by (simp add: absPath_def cleanElems_def cleanElem_def)
next
  case False
  then have "splitOn chSlash (joinWith chSlash cs) = cs"
    using assms by (intro splitOn_joinWith) (auto simp: normalComp_def)
  then have "splitOn chSlash (absPath cs) = [] # cs" by (simp add: absPath_def)
  moreover have "cleanElem True [] [] = []" by (simp add: cleanElem_def)
  ultimately show ?thesis
    using assms by (simp add: cleanElems_def fold_cleanElem_keep)
qed

lemma absComps_Clean: "IsAbs p \<Longrightarrow> absComps (Clean p) = absComps p"
  by (simp add: Clean_abs absComps_absPath absComps_normal)

lemma IsAbs_Clean [simp]: "IsAbs p \<Longrightarrow> IsAbs (Clean p)"
  by (simp add: Clean_abs absPath_def IsAbs_def [of "_ # _"])

lemma Clean_Clean: "IsAbs p \<Longrightarrow> Clean (Clean p) = Clean p"
  by (metis Clean_abs IsAbs_Clean absComps_Clean)

definition cleanAbs :: "bytes \<Rightarrow> bool" where
  "cleanAbs p \<longleftrightarrow> IsAbs p \<and> Clean p = p"

lemma cleanAbs_absPath: "cleanAbs p \<Longrightarrow> p = absPath (absComps p)"
  by (metis Clean_abs cleanAbs_def)

lemma absPath_inj:
  "\<forall>c\<in>set cs. normalComp c \<Longrightarrow> \<forall>c\<in>set ds. normalComp c \<Longrightarrow> absPath cs = absPath ds \<Longrightarrow> cs = ds"
  by (metis absComps_absPath)

section \<open>Relative paths\<close>

text \<open>\<^verbatim>\<open>Rel\<close> for an absolute base, the only ones the sandbox passes: it fails on a relative
  target, and otherwise climbs out of what the base has beyond the common prefix.\<close>

fun stripCommon :: "'a list \<Rightarrow> 'a list \<Rightarrow> 'a list \<times> 'a list" where
  "stripCommon (x # xs) (y # ys) = (if x = y then stripCommon xs ys else (x # xs, y # ys))"
| "stripCommon xs ys = (xs, ys)"

definition Rel :: "bytes \<Rightarrow> bytes \<Rightarrow> unit + bytes" where
  "Rel base targ =
     (if \<not> IsAbs base \<or> \<not> IsAbs targ then Inl ()
      else (let bc = absComps base; tc = absComps targ
            in if bc = tc then Inr ''.''
               else (let (b, t) = stripCommon bc tc
                     in Inr (joinWith chSlash (replicate (length b) ''..'' @ t)))))"

definition escapes :: "bytes \<Rightarrow> bool" where
  "escapes rel \<longleftrightarrow> rel = ''..'' \<or> hasPrefix rel ''../''"

lemma stripCommon_prefix: "prefix xs ys \<Longrightarrow> stripCommon xs ys = ([], drop (length xs) ys)"
  by (induction xs ys rule: stripCommon.induct) auto

lemma stripCommon_not_prefix: "\<not> prefix xs ys \<Longrightarrow> fst (stripCommon xs ys) \<noteq> []"
  by (induction xs ys rule: stripCommon.induct) auto

lemma stripCommon_snd: "set (snd (stripCommon xs ys)) \<subseteq> set ys"
  by (induction xs ys rule: stripCommon.induct) auto

lemma splitOn_unfold:
  "splitOn c (x # xs) = (if x = c then [] # splitOn c xs
     else (x # hd (splitOn c xs)) # tl (splitOn c xs))"
  by (cases "splitOn c xs") auto

lemma escapes_hd: "escapes rel \<longleftrightarrow> hd (splitOn chSlash rel) = ''..''"
proof -
  have e: "hd (splitOn chSlash zs) = [] \<longleftrightarrow> zs = [] \<or> hd zs = chSlash" for zs
    by (cases zs) (auto simp: splitOn_unfold simp del: splitOn.simps(2))
  show ?thesis
    by (cases rel; cases "tl rel"; cases "tl (tl rel)")
      (auto simp: splitOn_unfold escapes_def hasPrefix_def e simp del: splitOn.simps(2))
qed

lemma escapes_joinWith:
  "cs \<noteq> [] \<Longrightarrow> \<forall>c\<in>set cs. chSlash \<notin> set c \<Longrightarrow> escapes (joinWith chSlash cs) \<longleftrightarrow> hd cs = ''..''"
  by (simp add: escapes_hd splitOn_joinWith)

text \<open>Lexical containment: a relative path that does not climb out means the base's
  components are a prefix of the target's.\<close>

definition inside :: "bytes \<Rightarrow> bytes \<Rightarrow> bool" where
  "inside base targ \<longleftrightarrow> prefix (absComps base) (absComps targ)"

lemma Rel_inside:
  assumes "IsAbs base" "IsAbs targ" "inside base targ"
  shows "Rel base targ = Inr (if absComps base = absComps targ then ''.''
     else joinWith chSlash (drop (length (absComps base)) (absComps targ)))"
  using assms by (simp add: Rel_def inside_def stripCommon_prefix)

lemma Rel_escapes_iff:
  assumes "IsAbs base" "IsAbs targ" "Rel base targ = Inr rel"
  shows "escapes rel \<longleftrightarrow> \<not> inside base targ"
proof (cases "inside base targ")
  case True
  let ?d = "drop (length (absComps base)) (absComps targ)"
  have n: "\<forall>c\<in>set ?d. normalComp c" using absComps_normal by (metis in_set_dropD)
  show ?thesis
  proof (cases "absComps base = absComps targ")
    case True
    then have "rel = ''.''" using assms by (simp add: Rel_def)
    then show ?thesis using True by (simp add: escapes_hd inside_def)
  next
    case False
    then have ne: "?d \<noteq> []" using True by (auto simp: inside_def prefix_def)
    then have "hd ?d \<noteq> ''..''" using n hd_in_set by (fastforce simp: normalComp_def)
    moreover have "rel = joinWith chSlash ?d"
      using Rel_inside [OF assms(1,2) True] False assms(3) by simp
    ultimately show ?thesis
      using escapes_joinWith [OF ne] n True by (simp add: normalComp_def)
  qed
next
  case False
  obtain b t where bt: "stripCommon (absComps base) (absComps targ) = (b, t)" by force
  have b: "b \<noteq> []" using stripCommon_not_prefix [of "absComps base" "absComps targ"] False bt
    by (simp add: inside_def)
  let ?cs = "replicate (length b) ''..'' @ t"
  have "absComps base \<noteq> absComps targ" using False by (auto simp: inside_def)
  then have rel: "rel = joinWith chSlash ?cs" using assms bt by (simp add: Rel_def Let_def)
  have "set t \<subseteq> set (absComps targ)"
    using stripCommon_snd [of "absComps base" "absComps targ"] bt by simp
  then have "\<forall>c\<in>set ?cs. chSlash \<notin> set c"
    using absComps_normal by (fastforce simp: normalComp_def)
  moreover have "?cs \<noteq> []" "hd ?cs = ''..''" using b by (cases b; simp)+
  ultimately show ?thesis using escapes_joinWith [of ?cs] rel False by simp
qed

lemma Rel_abs_Inr: "IsAbs base \<Longrightarrow> IsAbs targ \<Longrightarrow> \<exists>rel. Rel base targ = Inr rel"
  by (auto simp: Rel_def Let_def split: prod.splits)

lemma Rel_Inr_abs: "IsAbs base \<Longrightarrow> Rel base targ = Inr rel \<Longrightarrow> IsAbs targ"
  by (auto simp: Rel_def split: if_splits)

end
