(* ===== verification/Path_Policy.thy ===== *)
theory Path_Policy
  imports Go_Path
begin

text \<open>
  Path grants (\<^verbatim>\<open>allowedpaths/path_mode.go\<close>, \<^verbatim>\<open>path_match.go\<close>, \<^verbatim>\<open>lexical.go\<close>): how a
  configured path is split into directory and access mode, how the grant that governs a
  path is selected, and the filesystem-independent policy built on them.  The interface
  \<open>path_policy\<close> states what a policy promises; the lexical policy and, in \<open>Sandbox_Policy\<close>,
  the sandbox implement it.
\<close>

section \<open>Access modes\<close>

datatype pathMode = pathModeReadOnly | pathModeReadWrite

definition splitAllowedPathMode :: "bytes \<Rightarrow> bytes \<times> pathMode \<times> bool" where
  "splitAllowedPathMode path =
     (if hasSuffix path '':ro'' \<and> length path > 3
      then (take (length path - 3) path, pathModeReadOnly, True)
      else if hasSuffix path '':rw'' \<and> length path > 3
      then (take (length path - 3) path, pathModeReadWrite, True)
      else (path, pathModeReadOnly, False))"

definition parseAllowedPathMode :: "bytes \<Rightarrow> bytes \<times> pathMode" where
  "parseAllowedPathMode path = (let (p, mode, _) = splitAllowedPathMode path in (p, mode))"

text \<open>Write access is only ever granted by an explicit suffix: parsing an entry gives
  read-write exactly for a non-empty directory followed by \<^verbatim>\<open>:rw\<close>, whatever the directory's
  name, and then the directory is what precedes the suffix.\<close>

theorem write_grant_needs_suffix:
  "parseAllowedPathMode entry = (dir, pathModeReadWrite) \<longleftrightarrow> entry = dir @ '':rw'' \<and> dir \<noteq> []"
proof
  assume "entry = dir @ '':rw'' \<and> dir \<noteq> []"
  then show "parseAllowedPathMode entry = (dir, pathModeReadWrite)"
    by (auto simp: parseAllowedPathMode_def splitAllowedPathMode_def hasSuffix_def)
next
  assume "parseAllowedPathMode entry = (dir, pathModeReadWrite)"
  then show "entry = dir @ '':rw'' \<and> dir \<noteq> []"
    by (auto simp: parseAllowedPathMode_def splitAllowedPathMode_def hasSuffix_iff
        split: if_splits)
qed

section \<open>Selecting the grant that governs a path\<close>

text \<open>One candidate root of the loop in \<^verbatim>\<open>resolvePath\<close>.  The best root so far carries its
  relative path; \<^verbatim>\<open>bestLen\<close> is the length of its path.\<close>

definition resolveStep ::
  "bytes \<Rightarrow> ('r \<Rightarrow> bytes) \<Rightarrow> ('r \<Rightarrow> 'r \<Rightarrow> bool) option \<Rightarrow> 'r \<Rightarrow> ('r \<times> bytes) option \<Rightarrow> ('r \<times> bytes) option"
where
  "resolveStep absp rootPath preferEq candidate best =
     (case Rel (rootPath candidate) absp of
        Inl _ \<Rightarrow> best
      | Inr rel \<Rightarrow>
          if rel = ''..'' \<or> hasPrefix rel ''../'' then best
          else
            (case best of
               None \<Rightarrow> Some (candidate, rel)
             | Some (b, _) \<Rightarrow>
                 (let candidateLen = length (rootPath candidate);
                      bestLen = length (rootPath b);
                      longerMatch = (candidateLen > bestLen);
                      tieMatch = (candidateLen = bestLen \<and>
                        (case preferEq of None \<Rightarrow> False | Some f \<Rightarrow> f candidate b))
                  in if longerMatch \<or> tieMatch then Some (candidate, rel) else best)))"

definition resolvePath ::
  "'r list \<Rightarrow> bytes \<Rightarrow> ('r \<Rightarrow> bytes) \<Rightarrow> ('r \<Rightarrow> 'r \<Rightarrow> bool) option \<Rightarrow> ('r \<times> bytes) option" where
  "resolvePath roots absp rootPath preferEq = fold (resolveStep absp rootPath preferEq) roots None"

text \<open>A root covers a path when the relative path does not climb out of it.\<close>

definition covers :: "bytes \<Rightarrow> bytes \<Rightarrow> bool" where
  "covers root absp \<longleftrightarrow> (\<exists>rel. Rel root absp = Inr rel \<and> \<not> escapes rel)"

lemma covers_inside: "IsAbs root \<Longrightarrow> IsAbs absp \<Longrightarrow> covers root absp \<longleftrightarrow> inside root absp"
  using Rel_abs_Inr [of root absp] Rel_escapes_iff [of root absp] by (auto simp: covers_def)

lemma covers_abs: "covers root absp \<Longrightarrow> IsAbs root \<and> IsAbs absp"
  by (auto simp: covers_def Rel_def split: if_splits)

definition selected :: "bytes \<Rightarrow> ('r \<Rightarrow> bytes) \<Rightarrow> 'r list \<Rightarrow> ('r \<times> bytes) option \<Rightarrow> bool" where
  "selected absp rootPath roots best \<longleftrightarrow>
     (case best of
        None \<Rightarrow> \<forall>r\<in>set roots. \<not> covers (rootPath r) absp
      | Some (b, rel) \<Rightarrow> b \<in> set roots \<and> covers (rootPath b) absp \<and> Rel (rootPath b) absp = Inr rel \<and>
          (\<forall>r\<in>set roots. covers (rootPath r) absp \<longrightarrow> length (rootPath r) \<le> length (rootPath b)))"

lemma resolveStep_skip:
  "\<not> covers (rootPath r) absp \<Longrightarrow> resolveStep absp rootPath preferEq r best = best"
  by (auto simp: resolveStep_def covers_def escapes_def split: sum.splits)

lemma resolveStep_cover:
  assumes "Rel (rootPath r) absp = Inr rel" "\<not> escapes rel"
  shows "resolveStep absp rootPath preferEq r best =
    (case best of None \<Rightarrow> Some (r, rel)
     | Some (b, _) \<Rightarrow> if length (rootPath r) > length (rootPath b) \<or>
           length (rootPath r) = length (rootPath b) \<and>
             (case preferEq of None \<Rightarrow> False | Some f \<Rightarrow> f r b)
         then Some (r, rel) else best)"
  using assms by (auto simp: resolveStep_def escapes_def Let_def split: option.splits)

lemma resolvePath_selected: "selected absp rootPath roots (resolvePath roots absp rootPath preferEq)"
proof (induction roots rule: rev_induct)
  case Nil
  then show ?case by (simp add: resolvePath_def selected_def)
next
  case (snoc r roots)
  let ?best = "resolvePath roots absp rootPath preferEq"
  have step: "resolvePath (roots @ [r]) absp rootPath preferEq = resolveStep absp rootPath preferEq r ?best"
    by (simp add: resolvePath_def)
  show ?case
  proof (cases "covers (rootPath r) absp")
    case False
    then show ?thesis
      using snoc by (auto simp: step resolveStep_skip selected_def split: option.splits)
  next
    case True
    then obtain rel where rel: "Rel (rootPath r) absp = Inr rel" "\<not> escapes rel"
      by (auto simp: covers_def)
    show ?thesis
      using snoc True rel
      by (auto simp: step resolveStep_cover [of rootPath r absp rel, OF rel] selected_def split: option.splits if_splits)
  qed
qed

text \<open>With the tie rule, a read-only root wins among the roots of the selected length.\<close>

lemma resolvePath_tie:
  assumes "resolvePath roots absp rootPath (Some (\<lambda>c b. mode b = pathModeReadWrite \<and> mode c = pathModeReadOnly))
      = Some (b, rel)"
    "r \<in> set roots" "covers (rootPath r) absp" "length (rootPath r) = length (rootPath b)"
    "mode r = pathModeReadOnly"
  shows "mode b = pathModeReadOnly"
  using assms
proof (induction roots arbitrary: b rel rule: rev_induct)
  case (snoc x roots)
  let ?p = "Some (\<lambda>c b. mode b = pathModeReadWrite \<and> mode c = pathModeReadOnly)"
  let ?best = "resolvePath roots absp rootPath ?p"
  have step: "resolvePath (roots @ [x]) absp rootPath ?p = resolveStep absp rootPath ?p x ?best"
    by (simp add: resolvePath_def)
  have sel: "selected absp rootPath roots ?best" by (rule resolvePath_selected)
  show ?case
  proof (cases "covers (rootPath x) absp")
    case False
    have "?best = Some (b, rel)"
      using snoc.prems(1) unfolding step resolveStep_skip [of rootPath x absp, OF False] .
    moreover have "r \<in> set roots" using False snoc.prems(2,3) by auto
    ultimately show ?thesis using snoc.IH [OF _ _ snoc.prems(3-5)] by blast
  next
    case True
    then obtain rl where rl: "Rel (rootPath x) absp = Inr rl" "\<not> escapes rl"
      by (auto simp: covers_def)
    have "resolveStep absp rootPath ?p x ?best = Some (b, rel)"
      using snoc.prems(1) unfolding step .
    note eq = this [unfolded resolveStep_cover [of rootPath x absp rl, OF rl]]
    show ?thesis
    proof (cases ?best)
      case None
      then have "b = x" using eq by simp
      moreover have "r = x"
        using sel snoc.prems(2,3) unfolding None selected_def by auto
      ultimately show ?thesis using snoc.prems(5) by simp
    next
      case (Some y)
      obtain b' rl' where y: "y = (b', rl')" by force
      have max: "r \<in> set roots \<Longrightarrow> length (rootPath r) \<le> length (rootPath b')"
        using sel snoc.prems(3) unfolding Some y selected_def by auto
      show ?thesis
      proof (cases "length (rootPath x) > length (rootPath b') \<or>
          length (rootPath x) = length (rootPath b') \<and> mode b' = pathModeReadWrite \<and> mode x = pathModeReadOnly")
        case True
        then have "b = x" using eq unfolding Some y by simp
        then show ?thesis using True max snoc.prems(2,4,5) by auto
      next
        case False
        then have b: "b = b'" using eq unfolding Some y by (auto split: if_splits)
        show ?thesis
        proof (cases "r \<in> set roots")
          case True
          have "?best = Some (b, rl')" using Some y b by simp
          then show ?thesis using snoc.IH [OF _ True snoc.prems(3-5)] by blast
        next
          case r: False
          then have "r = x" using snoc.prems(2) by simp
          then show ?thesis using False b snoc.prems(4,5) by (cases "mode b'") auto
        qed
      qed
    qed
  qed
qed (simp add: resolvePath_def)

text \<open>Among clean roots a longer path is a deeper directory.\<close>

lemma joinWith_prefix_less:
  assumes "prefix xs ys" "xs \<noteq> ys" "\<forall>c\<in>set ys. normalComp c"
  shows "length (absPath xs) < length (absPath ys)"
  using assms
proof (induction xs arbitrary: ys)
  case Nil
  then obtain y zs where "ys = y # zs" "y \<noteq> []" by (cases ys) (auto simp: normalComp_def)
  then show ?case by (simp add: absPath_def joinWith_Cons)
next
  case (Cons x xs)
  obtain zs where ys: "ys = x # zs" "prefix xs zs"
    using Cons.prems(1) by (cases ys) auto
  moreover have "xs \<noteq> zs" using ys(1) Cons.prems(2) by blast
  ultimately have "length (joinWith chSlash xs) < length (joinWith chSlash zs)"
    using Cons.IH [of zs] Cons.prems(3) by (simp add: absPath_def)
  then show ?case using ys(1) by (cases zs) (auto simp: absPath_def joinWith_Cons)
qed

lemma deeper_if_longer:
  assumes "cleanAbs r" "cleanAbs b" "covers r absp" "covers b absp" "length r \<le> length b"
  shows "prefix (absComps r) (absComps b)"
proof -
  have "prefix (absComps r) (absComps absp)" "prefix (absComps b) (absComps absp)"
    using assms(3,4) covers_abs covers_inside unfolding inside_def by blast+
  then have "prefix (absComps r) (absComps b) \<or> prefix (absComps b) (absComps r)"
    by (metis prefix_same_cases)
  moreover have "absComps b = absComps r" if "prefix (absComps b) (absComps r)"
  proof (rule ccontr)
    assume "absComps b \<noteq> absComps r"
    then have "length (absPath (absComps b)) < length (absPath (absComps r))"
      using that joinWith_prefix_less absComps_normal by blast
    then show False
      using assms(5) cleanAbs_absPath [OF assms(1)] cleanAbs_absPath [OF assms(2)] by simp
  qed
  ultimately show ?thesis by auto
qed

text \<open>C24. The most specific grant governs: the root selected for a path covers it, and every
  other root that covers the path is an ancestor of the selected one, so a grant on a
  subdirectory always overrides the grants on the directories above it; a path that no root
  covers is refused.\<close>

theorem most_specific_grant_governs:
  assumes "\<forall>r\<in>set roots. cleanAbs (rootPath r)" "IsAbs absp"
  shows "case resolvePath roots absp rootPath preferEq of
      None \<Rightarrow> \<forall>r\<in>set roots. \<not> inside (rootPath r) absp
    | Some (b, rel) \<Rightarrow> b \<in> set roots \<and> inside (rootPath b) absp \<and> Rel (rootPath b) absp = Inr rel \<and>
        (\<forall>r\<in>set roots. inside (rootPath r) absp \<longrightarrow> prefix (absComps (rootPath r)) (absComps (rootPath b)))"
proof -
  have c: "covers (rootPath r) absp \<longleftrightarrow> inside (rootPath r) absp" if "r \<in> set roots" for r
    using that assms by (intro covers_inside) (auto simp: cleanAbs_def)
  have deeper: "prefix (absComps (rootPath r)) (absComps (rootPath b))"
    if "r \<in> set roots" "b \<in> set roots" "inside (rootPath r) absp" "inside (rootPath b) absp"
      "length (rootPath r) \<le> length (rootPath b)" for r b
    using deeper_if_longer [of "rootPath r" "rootPath b" absp] that c assms(1) by blast
  show ?thesis
    using resolvePath_selected [of absp rootPath roots preferEq] c deeper
    by (auto simp: selected_def split: option.splits)
qed

theorem most_specific_grant_governs_witness:
  "cleanAbs ''/data'' \<and> cleanAbs ''/data/logs'' \<and> cleanAbs ''/tmp'' \<and>
   resolvePath [''/data'', ''/data/logs'', ''/tmp''] ''/data/logs/../logs/app.log'' (\<lambda>r. r) None =
     Some (''/data/logs'', ''app.log'') \<and> inside ''/data/logs'' ''/data/logs/../logs/app.log''"
proof -
  have c: "\<forall>r\<in>set [''/data'', ''/data/logs'', ''/tmp'']. cleanAbs r"
    by (simp add: cleanAbs_def IsAbs_def Clean_def cleanElems_def cleanElem_def)
  have r: "resolvePath [''/data'', ''/data/logs'', ''/tmp''] ''/data/logs/../logs/app.log'' (\<lambda>r. r) None =
     Some (''/data/logs'', ''app.log'')" by code_simp
  have "IsAbs ''/data/logs/../logs/app.log''" by (simp add: IsAbs_def)
  then show ?thesis
    using most_specific_grant_governs [of _ "\<lambda>r. r", OF c, of "''/data/logs/../logs/app.log''" None] c r by simp
qed

section \<open>Policies\<close>

datatype PathOperation = PathRead | PathStat | PathLstat | PathWrite | PathRemove | OtherOp bytes

text \<open>The errors of the sandbox and of the system calls below it, by the sentinel or errno
  that callers distinguish; the operation and path a \<^verbatim>\<open>PathError\<close> also names are left out.\<close>

datatype pathError =
    ErrPermission
  | ErrUnknownOperation
  | ErrRelativePath
  | ErrNoGrant
  | ErrReadOnlyGrant
  | ErrSymlinkWriteTarget
  | ErrIsDirectory
  | ErrNotRegularFile
  | ErrMultiplyLinkedWriteTarget
  | ErrNotDirectory
  | ErrPathEscape
  | ErrNotExist
  | ErrInvalid
  | ErrEISDIR
  | ErrELOOP
  | ErrENXIO
  | ErrIdentityChanged
  | ErrLinkCountUnavailable
  | ErrTooManyEntries
  | ErrTooManyInFlight
  | ErrContext
  | ErrOther bytes

definition toAbs :: "bytes \<Rightarrow> bytes \<Rightarrow> bytes" where
  "toAbs path cwd = (if IsAbs path then path else Join cwd path)"

definition IsDevNull :: "bytes \<Rightarrow> bool" where
  "IsDevNull path \<longleftrightarrow> path = ''/dev/null''"

record lexicalRoot =
  lr_path :: bytes
  lr_mode :: pathMode

type_synonym LexicalPolicy = "lexicalRoot list"

fun NewLexicalPolicy :: "bytes list \<Rightarrow> pathError + LexicalPolicy" where
  "NewLexicalPolicy [] = Inr []"
| "NewLexicalPolicy (raw # paths) =
     (let (path, mode) = parseAllowedPathMode raw in
      if \<not> IsAbs path \<or> chNUL \<in> set path then Inl (ErrOther raw)
      else if CHR '':'' \<in> set path then Inl (ErrOther raw)
      else sbind (NewLexicalPolicy paths) (\<lambda>roots.
             Inr (\<lparr>lr_path = Clean path, lr_mode = mode\<rparr> # roots)))"

definition LexicalPolicy_CheckPath ::
  "LexicalPolicy \<Rightarrow> bytes \<Rightarrow> bytes \<Rightarrow> PathOperation \<Rightarrow> pathError option" where
  "LexicalPolicy_CheckPath p path cwd operation =
     (let write = (operation = PathWrite \<or> operation = PathRemove) in
      if \<not> write \<and> operation \<noteq> PathRead \<and> operation \<noteq> PathStat \<and> operation \<noteq> PathLstat
      then Some ErrUnknownOperation
      else if (operation = PathStat \<or> operation = PathLstat) \<and> IsDevNull path then None
      else if \<not> IsAbs path \<and> \<not> IsAbs cwd then Some ErrRelativePath
      else
        (case resolvePath p (toAbs path cwd) lr_path
                (Some (\<lambda>candidate best. lr_mode best = pathModeReadWrite \<and>
                                        lr_mode candidate = pathModeReadOnly)) of
           None \<Rightarrow> Some ErrNoGrant
         | Some (root, _) \<Rightarrow>
             if write \<and> lr_mode root \<noteq> pathModeReadWrite then Some ErrReadOnlyGrant else None))"

definition LexicalPolicy_PathAccesses :: "LexicalPolicy \<Rightarrow> (bytes \<times> bool) list" where
  "LexicalPolicy_PathAccesses p = map (\<lambda>r. (lr_path r, lr_mode r = pathModeReadWrite)) p"

lemma NewLexicalPolicy_clean:
  "NewLexicalPolicy paths = Inr p \<Longrightarrow> \<forall>r\<in>set p. cleanAbs (lr_path r)"
proof (induction paths arbitrary: p)
  case (Cons raw paths)
  obtain path mode where pm: "parseAllowedPathMode raw = (path, mode)" by force
  then obtain roots where "NewLexicalPolicy paths = Inr roots" "IsAbs path"
    "p = \<lparr>lr_path = Clean path, lr_mode = mode\<rparr> # roots"
    using Cons.prems by (auto simp: sbind_Inr_iff split: if_splits)
  then show ?case using Cons.IH by (simp add: cleanAbs_def Clean_Clean)
qed simp

lemma NewLexicalPolicy_modes:
  "NewLexicalPolicy paths = Inr p \<Longrightarrow> r \<in> set p \<Longrightarrow>
     \<exists>raw \<in> set paths. \<exists>path. parseAllowedPathMode raw = (path, lr_mode r) \<and> lr_path r = Clean path"
proof (induction paths arbitrary: p)
  case (Cons raw paths)
  obtain path mode where pm: "parseAllowedPathMode raw = (path, mode)" by force
  then obtain roots where "NewLexicalPolicy paths = Inr roots"
    "p = \<lparr>lr_path = Clean path, lr_mode = mode\<rparr> # roots"
    using Cons.prems(1) by (auto simp: sbind_Inr_iff split: if_splits)
  then show ?case using Cons.IH Cons.prems(2) pm by auto
qed simp

section \<open>What a policy promises\<close>

text \<open>A policy \<open>p\<close> is a set of grants and a check.  It admits a write or a removal only
  below its most specific grant, which is read-write, and a read only below some grant.\<close>

definition governs :: "(bytes \<times> pathMode) list \<Rightarrow> bytes \<times> pathMode \<Rightarrow> bytes \<Rightarrow> bool" where
  "governs gs g absp \<longleftrightarrow> g \<in> set gs \<and> inside (fst g) absp \<and>
     (\<forall>g'\<in>set gs. inside (fst g') absp \<longrightarrow> prefix (absComps (fst g')) (absComps (fst g)))"

locale path_policy =
  fixes valid :: "'p \<Rightarrow> bool"
    and grants :: "'p \<Rightarrow> (bytes \<times> pathMode) list"
    and check :: "'p \<Rightarrow> bytes \<Rightarrow> bytes \<Rightarrow> PathOperation \<Rightarrow> pathError option"
  assumes write_needs_grant:
      "valid p \<Longrightarrow> check p path cwd op = None \<Longrightarrow> op = PathWrite \<or> op = PathRemove \<Longrightarrow>
       IsAbs (toAbs path cwd) \<and>
       (\<exists>g. governs (grants p) g (toAbs path cwd) \<and> snd g = pathModeReadWrite)"
    and read_needs_grant:
      "valid p \<Longrightarrow> check p path cwd PathRead = None \<Longrightarrow>
       \<exists>g\<in>set (grants p). inside (fst g) (toAbs path cwd)"
    and unknown_refused: "valid p \<Longrightarrow> check p path cwd (OtherOp x) \<noteq> None"
begin

lemma read_only_policy_refuses_writes:
  assumes "valid p" "\<forall>g\<in>set (grants p). snd g = pathModeReadOnly" "op = PathWrite \<or> op = PathRemove"
  shows "check p path cwd op \<noteq> None"
proof
  assume "check p path cwd op = None"
  then obtain g where "governs (grants p) g (toAbs path cwd)" "snd g = pathModeReadWrite"
    using write_needs_grant [OF assms(1)] assms(3) by blast
  then show False using assms(2) by (auto simp: governs_def)
qed

lemma narrower_read_only_grant_wins:
  assumes "valid p" "g \<in> set (grants p)" "inside (fst g) (toAbs path cwd)" "snd g = pathModeReadOnly"
    "\<forall>g'\<in>set (grants p). inside (fst g') (toAbs path cwd) \<and> snd g' = pathModeReadWrite \<longrightarrow>
       length (absComps (fst g')) < length (absComps (fst g))"
    "op = PathWrite \<or> op = PathRemove"
  shows "check p path cwd op \<noteq> None"
proof
  assume "check p path cwd op = None"
  then obtain g' where g': "governs (grants p) g' (toAbs path cwd)" "snd g' = pathModeReadWrite"
    using write_needs_grant [OF assms(1)] assms(6) by blast
  then have "prefix (absComps (fst g)) (absComps (fst g'))" using assms(2,3) by (auto simp: governs_def)
  then have "length (absComps (fst g)) \<le> length (absComps (fst g'))" by (rule prefix_length_le)
  then show False using assms(5) g' by (auto simp: governs_def)
qed

end

definition lexicalGrants :: "LexicalPolicy \<Rightarrow> (bytes \<times> pathMode) list" where
  "lexicalGrants p = map (\<lambda>r. (lr_path r, lr_mode r)) p"

lemma cleanAbs_IsAbs: "cleanAbs p \<Longrightarrow> IsAbs p"
  by (simp add: cleanAbs_def)

lemma governs_selected:
  assumes "selected absp rootPath roots (Some (b, rel))" "\<forall>r\<in>set roots. cleanAbs (rootPath r)"
  shows "IsAbs absp" "governs (map (\<lambda>r. (rootPath r, m r)) roots) (rootPath b, m b) absp"
proof -
  have b: "b \<in> set roots" "covers (rootPath b) absp"
    and longest: "\<forall>r\<in>set roots. covers (rootPath r) absp \<longrightarrow> length (rootPath r) \<le> length (rootPath b)"
    using assms(1) by (auto simp: selected_def)
  show absp: "IsAbs absp" using covers_abs [OF b(2)] by blast
  have c: "covers (rootPath r) absp \<longleftrightarrow> inside (rootPath r) absp" if "r \<in> set roots" for r
    using that assms(2) absp cleanAbs_IsAbs by (intro covers_inside) auto
  have "prefix (absComps (rootPath r)) (absComps (rootPath b))"
    if "r \<in> set roots" "inside (rootPath r) absp" for r
    using deeper_if_longer [of "rootPath r" "rootPath b" absp] that b c assms(2) longest by blast
  then show "governs (map (\<lambda>r. (rootPath r, m r)) roots) (rootPath b, m b) absp"
    using b c by (auto simp: governs_def)
qed

lemma LexicalPolicy_write:
  assumes "\<forall>r\<in>set p. cleanAbs (lr_path r)" "LexicalPolicy_CheckPath p path cwd op = None"
    "op = PathWrite \<or> op = PathRemove"
  obtains b rel where "resolvePath p (toAbs path cwd) lr_path
      (Some (\<lambda>c b. lr_mode b = pathModeReadWrite \<and> lr_mode c = pathModeReadOnly)) = Some (b, rel)"
    "lr_mode b = pathModeReadWrite"
  using assms(2,3) by (auto simp: LexicalPolicy_CheckPath_def Let_def split: if_splits option.splits)

interpretation lexical: path_policy "\<lambda>p. \<forall>r\<in>set p. cleanAbs (lr_path r)" lexicalGrants
  LexicalPolicy_CheckPath
proof (unfold_locales, goal_cases)
  case (1 p path cwd op)
  obtain b rel where b: "resolvePath p (toAbs path cwd) lr_path
      (Some (\<lambda>c b. lr_mode b = pathModeReadWrite \<and> lr_mode c = pathModeReadOnly)) = Some (b, rel)"
    "lr_mode b = pathModeReadWrite"
    using LexicalPolicy_write [OF 1] .
  have sel: "selected (toAbs path cwd) lr_path p (Some (b, rel))"
    using resolvePath_selected [of "toAbs path cwd" lr_path p] b(1) by metis
  show ?case
    using governs_selected(1) [OF sel 1(1)] governs_selected(2) [OF sel 1(1), of lr_mode] b(2)
    by (intro conjI exI [of _ "(lr_path b, lr_mode b)"]) (simp_all add: lexicalGrants_def)
next
  case (2 p path cwd)
  then obtain b rel where b: "resolvePath p (toAbs path cwd) lr_path
      (Some (\<lambda>c b. lr_mode b = pathModeReadWrite \<and> lr_mode c = pathModeReadOnly)) = Some (b, rel)"
    by (auto simp: LexicalPolicy_CheckPath_def Let_def split: if_splits option.splits)
  have sel: "selected (toAbs path cwd) lr_path p (Some (b, rel))"
    using resolvePath_selected [of "toAbs path cwd" lr_path p] b by metis
  show ?case
    using governs_selected(2) [OF sel 2(1), of lr_mode] by (force simp: governs_def lexicalGrants_def)
next
  case (3 p path cwd x)
  then show ?case by (simp add: LexicalPolicy_CheckPath_def)
qed

text \<open>C23. From the configuration text to a write: the lexical policy built from a list of
  entries admits a write or a removal only if an entry \<^verbatim>\<open>dir:rw\<close> covers the path and every
  entry that covers it names an ancestor of \<^verbatim>\<open>dir\<close>, or \<^verbatim>\<open>dir\<close> itself and then with \<^verbatim>\<open>:rw\<close>.\<close>

theorem lexical_write_needs_rw_entry:
  assumes "NewLexicalPolicy entries = Inr p" "LexicalPolicy_CheckPath p path cwd op = None"
    "op = PathWrite \<or> op = PathRemove"
  shows "\<exists>dir. dir @ '':rw'' \<in> set entries \<and> inside (Clean dir) (toAbs path cwd) \<and>
    (\<forall>r\<in>set p. inside (lr_path r) (toAbs path cwd) \<longrightarrow>
       prefix (absComps (lr_path r)) (absComps (Clean dir)) \<and>
       (lr_path r = Clean dir \<longrightarrow> lr_mode r = pathModeReadWrite))"
proof -
  have clean: "\<forall>r\<in>set p. cleanAbs (lr_path r)" using NewLexicalPolicy_clean [OF assms(1)] .
  obtain b rel where b: "resolvePath p (toAbs path cwd) lr_path
      (Some (\<lambda>c b. lr_mode b = pathModeReadWrite \<and> lr_mode c = pathModeReadOnly)) = Some (b, rel)"
    "lr_mode b = pathModeReadWrite"
    using LexicalPolicy_write [OF clean assms(2,3)] .
  have sel: "selected (toAbs path cwd) lr_path p (Some (b, rel))"
    using resolvePath_selected [of "toAbs path cwd" lr_path p] b(1) by metis
  note g = governs_selected(1) [OF sel clean] governs_selected(2) [OF sel clean, of lr_mode]
  have "b \<in> set p" using sel by (simp add: selected_def)
  then obtain raw dir where raw: "raw \<in> set entries" "parseAllowedPathMode raw = (dir, pathModeReadWrite)"
    "lr_path b = Clean dir"
    using NewLexicalPolicy_modes [OF assms(1)] b(2) by metis
  then have "raw = dir @ '':rw''"
    by (auto simp: parseAllowedPathMode_def splitAllowedPathMode_def hasSuffix_iff split: if_splits)
  moreover have "lr_mode r = pathModeReadWrite"
    if "r \<in> set p" "inside (lr_path r) (toAbs path cwd)" "lr_path r = Clean dir" for r
  proof (rule ccontr)
    assume "lr_mode r \<noteq> pathModeReadWrite"
    then have "lr_mode r = pathModeReadOnly" by (cases "lr_mode r") auto
    moreover have "covers (lr_path r) (toAbs path cwd)"
      using covers_inside [of "lr_path r"] that clean g(1) cleanAbs_IsAbs by blast
    ultimately have "lr_mode b = pathModeReadOnly"
      using resolvePath_tie [OF b(1) that(1)] that(3) raw(3) by simp
    then show False using b(2) by simp
  qed
  ultimately show ?thesis
    using raw g(2) by (auto simp: governs_def intro!: exI [of _ dir])
qed

theorem lexical_write_needs_rw_entry_witness:
  "\<exists>dir. dir @ '':rw'' \<in> set [''/data:rw'', ''/data/etc''] \<and> inside (Clean dir) (toAbs ''logs/x'' ''/data'')"
proof -
  have n: "NewLexicalPolicy [''/data:rw'', ''/data/etc''] =
    Inr [\<lparr>lr_path = ''/data'', lr_mode = pathModeReadWrite\<rparr>, \<lparr>lr_path = ''/data/etc'', lr_mode = pathModeReadOnly\<rparr>]"
    by code_simp
  have "LexicalPolicy_CheckPath [\<lparr>lr_path = ''/data'', lr_mode = pathModeReadWrite\<rparr>,
      \<lparr>lr_path = ''/data/etc'', lr_mode = pathModeReadOnly\<rparr>] ''logs/x'' ''/data'' PathWrite = None"
    by code_simp
  then show ?thesis using lexical_write_needs_rw_entry [OF n] by blast
qed

text \<open>A policy whose entries are all read-only refuses every write and removal.\<close>

theorem read_only_entries_refuse_writes:
  assumes "NewLexicalPolicy entries = Inr p" "\<forall>e\<in>set entries. \<not> hasSuffix e '':rw''"
    "op = PathWrite \<or> op = PathRemove"
  shows "LexicalPolicy_CheckPath p path cwd op \<noteq> None"
proof (rule lexical.read_only_policy_refuses_writes [OF NewLexicalPolicy_clean [OF assms(1)] _ assms(3)], rule)
  fix g assume "g \<in> set (lexicalGrants p)"
  then obtain raw dir where "raw \<in> set entries" "parseAllowedPathMode raw = (dir, snd g)"
    using NewLexicalPolicy_modes [OF assms(1)] by (fastforce simp: lexicalGrants_def)
  then show "snd g = pathModeReadOnly"
    using assms(2) by (auto simp: parseAllowedPathMode_def splitAllowedPathMode_def split: if_splits)
qed

theorem read_only_entries_refuse_writes_witness:
  "LexicalPolicy_CheckPath [\<lparr>lr_path = ''/data'', lr_mode = pathModeReadOnly\<rparr>] ''/data/x'' ''/'' PathWrite \<noteq> None"
  by (rule read_only_entries_refuse_writes [of "[''/data:ro'']"])
    (code_simp, simp add: hasSuffix_def, simp)

end
