(* ===== verification/Write_Open.thy ===== *)
theory Write_Open
  imports Path_Policy "HOL-Library.Word"
begin

text \<open>
  Opening and removing write targets (\<^verbatim>\<open>allowedpaths/internal/writeopen\<close> and
  \<^verbatim>\<open>allowedpaths/write_open.go\<close>): the walk from a root directory's descriptor, one
  no-follow \<^verbatim>\<open>openat\<close> per component, the hard-link guard between open and truncation, and
  the removal.  The system calls are the fields of the parameter \<open>K\<close>; a file descriptor is
  the number of the object it refers to, and \<open>'w\<close> is the state of the file system, which
  the calls that may change it return updated.
\<close>

unbundle bit_operations_syntax

section \<open>The system below\<close>

datatype fileType = RegularType | DirType | SymlinkType | FifoType | OtherType

text \<open>The part of \<^verbatim>\<open>Stat_t\<close> the source reads; it may be unavailable.\<close>

record statT =
  st_uid :: int
  st_gid :: int
  st_nlink :: nat

record fileInfo =
  fi_type :: fileType
  fi_perm :: "32 word"
  fi_size :: int
  fi_dev :: nat
  fi_ino :: nat
  fi_sys :: "statT option"

definition SameFile :: "fileInfo \<Rightarrow> fileInfo \<Rightarrow> bool" where
  "SameFile a b \<longleftrightarrow> fi_dev a = fi_dev b \<and> fi_ino a = fi_ino b"

type_synonym flags = "64 word"

definition O_RDONLY :: flags where "O_RDONLY = 0"
definition O_WRONLY :: flags where "O_WRONLY = 1"
definition O_CREATE :: flags where "O_CREATE = 0x40"
definition O_TRUNC :: flags where "O_TRUNC = 0x200"
definition O_APPEND :: flags where "O_APPEND = 0x400"
definition O_NONBLOCK :: flags where "O_NONBLOCK = 0x800"

text \<open>\<open>k_openDir\<close> is \<^verbatim>\<open>openat\<close> with \<^verbatim>\<open>O_DIRECTORY|O_NOFOLLOW\<close>, \<open>k_openat\<close> the same call with
  \<^verbatim>\<open>O_NOFOLLOW\<close> and the given flags; the flag of \<open>k_fstatat\<close> says whether a final symbolic
  link is followed.  The others are the calls on an open descriptor and the methods of
  \<^verbatim>\<open>os.Root\<close>, which take the root's descriptor.\<close>

record 'w kernel =
  k_openDir :: "nat \<Rightarrow> bytes \<Rightarrow> 'w \<Rightarrow> pathError + nat"
  k_openat :: "nat \<Rightarrow> bytes \<Rightarrow> flags \<Rightarrow> nat \<Rightarrow> 'w \<Rightarrow> 'w \<times> (pathError + nat)"
  k_fstatat :: "nat \<Rightarrow> bytes \<Rightarrow> bool \<Rightarrow> 'w \<Rightarrow> pathError + fileInfo"
  k_unlinkat :: "nat \<Rightarrow> bytes \<Rightarrow> 'w \<Rightarrow> 'w \<times> pathError option"
  k_fstat :: "nat \<Rightarrow> 'w \<Rightarrow> pathError + fileInfo"
  k_ftruncate :: "nat \<Rightarrow> int \<Rightarrow> 'w \<Rightarrow> 'w \<times> pathError option"
  k_write :: "nat \<Rightarrow> bytes \<Rightarrow> 'w \<Rightarrow> 'w \<times> nat \<times> pathError option"
  k_close :: "nat \<Rightarrow> 'w \<Rightarrow> 'w \<times> pathError option"
  k_rootLstat :: "nat \<Rightarrow> bytes \<Rightarrow> 'w \<Rightarrow> pathError + fileInfo"
  k_rootStat :: "nat \<Rightarrow> bytes \<Rightarrow> 'w \<Rightarrow> pathError + fileInfo"
  k_rootReadlink :: "nat \<Rightarrow> bytes \<Rightarrow> 'w \<Rightarrow> pathError + bytes"
  k_rootOpen :: "nat \<Rightarrow> bytes \<Rightarrow> flags \<Rightarrow> 'w \<Rightarrow> pathError + nat"

section \<open>The no-follow walk\<close>

definition HasTrailingDirSyntax :: "bytes \<Rightarrow> bool" where
  "HasTrailingDirSyntax relPath \<longleftrightarrow>
     relPath \<noteq> [] \<and> (last relPath = chSlash \<or> Base relPath = ''.'' \<or> Base relPath = ''..'')"

definition writePathError :: "pathError \<Rightarrow> pathError" where
  "writePathError e =
     (if e = ErrELOOP then ErrSymlinkWriteTarget
      else if e = ErrENXIO then ErrNotRegularFile else e)"

fun walkDirs :: "'w kernel \<Rightarrow> 'w \<Rightarrow> nat \<Rightarrow> bytes list \<Rightarrow> pathError + nat" where
  "walkDirs K w dirFD [] = Inr dirFD"
| "walkDirs K w dirFD (component # components) =
     (if component = [] \<or> component = ''.'' then walkDirs K w dirFD components
      else if component = ''..'' then Inl ErrPermission
      else (case k_openDir K dirFD component w of
              Inl e \<Rightarrow> Inl (writePathError e)
            | Inr nextFD \<Rightarrow> walkDirs K w nextFD components))"

definition OpenFile :: "'w kernel \<Rightarrow> nat option \<Rightarrow> bytes \<Rightarrow> flags \<Rightarrow> nat \<Rightarrow> 'w \<Rightarrow> 'w \<times> (pathError + nat)" where
  "OpenFile K rootFile relPath flag perm w =
     (case rootFile of
        None \<Rightarrow> (w, Inl ErrPermission)
      | Some root \<Rightarrow>
          (let clean = Clean relPath in
           if clean = ''.'' then (w, Inl ErrEISDIR)
           else
             (let components = splitOn chSlash clean in
              case walkDirs K w root (butlast components) of
                Inl e \<Rightarrow> (w, Inl e)
              | Inr dirFD \<Rightarrow>
                  (let base = last components in
                   if base = [] \<or> base = ''.'' \<or> base = ''..'' then (w, Inl ErrEISDIR)
                   else (case k_openat K dirFD base flag perm w of
                           (w', Inl e) \<Rightarrow> (w', Inl (writePathError e))
                         | (w', Inr fd) \<Rightarrow> (w', Inr fd))))))"

definition Unlink :: "'w kernel \<Rightarrow> nat option \<Rightarrow> bytes \<Rightarrow> 'w \<Rightarrow> 'w \<times> pathError option" where
  "Unlink K rootFile relPath w =
     (case rootFile of
        None \<Rightarrow> (w, Some ErrPermission)
      | Some root \<Rightarrow>
          (let requiresDir = HasTrailingDirSyntax relPath;
               clean = Clean relPath
           in if clean = ''.'' then (w, Some ErrIsDirectory)
           else
             (let components = splitOn chSlash clean in
              case walkDirs K w root (butlast components) of
                Inl e \<Rightarrow> (w, Some e)
              | Inr dirFD \<Rightarrow>
                  (let base = last components in
                   if base = [] \<or> base = ''.'' \<or> base = ''..'' then (w, Some ErrIsDirectory)
                   else
                     (case k_fstatat K dirFD base requiresDir w of
                        Inl e \<Rightarrow> (w, Some (writePathError e))
                      | Inr stat \<Rightarrow>
                          if fi_type stat = DirType then (w, Some ErrIsDirectory)
                          else if requiresDir then (w, Some ErrNotDirectory)
                          else (case k_unlinkat K dirFD base w of
                                  (w', Some e) \<Rightarrow> (w', Some (writePathError e))
                                | (w', None) \<Rightarrow> (w', None)))))))"

section \<open>Write targets of a root\<close>

definition fileLinkCount :: "fileInfo \<Rightarrow> nat option" where
  "fileLinkCount info = map_option st_nlink (fi_sys info)"

text \<open>Whether the open file is regular, and the error that refuses it.\<close>

definition checkWriteTargetLinks :: "'w kernel \<Rightarrow> nat \<Rightarrow> 'w \<Rightarrow> bool \<times> pathError option" where
  "checkWriteTargetLinks K f w =
     (case k_fstat K f w of
        Inl e \<Rightarrow> (False, Some e)
      | Inr info \<Rightarrow>
          if fi_type info \<noteq> RegularType then (False, None)
          else (case fileLinkCount info of
                  None \<Rightarrow> (True, Some ErrLinkCountUnavailable)
                | Some links \<Rightarrow> if links \<le> 1 then (True, None)
                                else (True, Some ErrMultiplyLinkedWriteTarget)))"

text \<open>The components of a cleaned relative path from the \<open>i\<close>-th on; \<open>partial\<close> is what precedes.\<close>

fun rejectSymlinkFrom :: "'w kernel \<Rightarrow> 'w \<Rightarrow> nat \<Rightarrow> bool \<Rightarrow> bytes \<Rightarrow> bytes list \<Rightarrow> pathError option" where
  "rejectSymlinkFrom K w root includeLast partial [] = None"
| "rejectSymlinkFrom K w root includeLast partial (component # rest) =
     (if component = [] \<or> component = ''.'' then rejectSymlinkFrom K w root includeLast partial rest
      else
        (let partial = (if partial = [] then component else Join partial component) in
         if \<not> includeLast \<and> rest = [] then None
         else (case k_rootLstat K root partial w of
                 Inl _ \<Rightarrow> None
               | Inr info \<Rightarrow>
                   if fi_type info = SymlinkType then Some ErrSymlinkWriteTarget
                   else rejectSymlinkFrom K w root includeLast partial rest)))"

definition rejectSymlinkPathComponents :: "'w kernel \<Rightarrow> 'w \<Rightarrow> nat \<Rightarrow> bytes \<Rightarrow> bool \<Rightarrow> pathError option" where
  "rejectSymlinkPathComponents K w root relPath includeLast =
     rejectSymlinkFrom K w root includeLast [] (splitOn chSlash (Clean relPath))"

definition openWriteFile ::
  "'w kernel \<Rightarrow> nat \<Rightarrow> nat option \<Rightarrow> bytes \<Rightarrow> flags \<Rightarrow> nat \<Rightarrow> 'w \<Rightarrow> 'w \<times> (pathError + nat)" where
  "openWriteFile K root writeRoot relPath flag perm w =
     (case rejectSymlinkPathComponents K w root relPath True of
        Some e \<Rightarrow> (w, Inl e)
      | None \<Rightarrow>
          (let truncateAfterOpen = (flag AND O_TRUNC \<noteq> 0) in
           case OpenFile K writeRoot relPath (flag AND NOT O_TRUNC) perm w of
             (w, Inl e) \<Rightarrow> (w, Inl e)
           | (w, Inr f) \<Rightarrow>
               (case checkWriteTargetLinks K f w of
                  (_, Some e) \<Rightarrow> (fst (k_close K f w), Inl e)
                | (regular, None) \<Rightarrow>
                    if truncateAfterOpen \<and> regular then
                      (case k_ftruncate K f 0 w of
                         (w, Some e) \<Rightarrow> (fst (k_close K f w), Inl e)
                       | (w, None) \<Rightarrow> (w, Inr f))
                    else (w, Inr f))))"

definition removeFile :: "'w kernel \<Rightarrow> nat \<Rightarrow> nat option \<Rightarrow> bytes \<Rightarrow> 'w \<Rightarrow> 'w \<times> pathError option" where
  "removeFile K root writeRoot relPath w =
     (case rejectSymlinkPathComponents K w root relPath False of
        Some e \<Rightarrow> (w, Some e)
      | None \<Rightarrow> Unlink K writeRoot relPath w)"

section \<open>Confinement\<close>

text \<open>\<open>child w d c n\<close> says that directory \<open>d\<close> has an entry named \<open>c\<close> for the object \<open>n\<close> itself;
  a symbolic link is the entry for the link, not for its target.\<close>

definition isName :: "bytes \<Rightarrow> bool" where
  "isName c \<longleftrightarrow> c \<noteq> [] \<and> c \<noteq> ''.'' \<and> c \<noteq> ''..'' \<and> chSlash \<notin> set c"

fun namesTo :: "('w \<Rightarrow> nat \<Rightarrow> bytes \<Rightarrow> nat \<Rightarrow> bool) \<Rightarrow> 'w \<Rightarrow> nat \<Rightarrow> bytes list \<Rightarrow> nat \<Rightarrow> bool" where
  "namesTo child w d [] n \<longleftrightarrow> d = n"
| "namesTo child w d (c # cs) n \<longleftrightarrow> isName c \<and> (\<exists>m. child w d c m \<and> namesTo child w m cs n)"

text \<open>What POSIX documents of \<^verbatim>\<open>openat\<close> with \<^verbatim>\<open>O_NOFOLLOW\<close> and a single name: the descriptor refers
  to the directory's own entry of that name.\<close>

definition nofollow :: "'w kernel \<Rightarrow> ('w \<Rightarrow> nat \<Rightarrow> bytes \<Rightarrow> nat \<Rightarrow> bool) \<Rightarrow> bool" where
  "nofollow K child \<longleftrightarrow>
     (\<forall>d c w n. isName c \<longrightarrow> k_openDir K d c w = Inr n \<longrightarrow> child w d c n) \<and>
     (\<forall>d c fl p w w' n. isName c \<longrightarrow> k_openat K d c fl p w = (w', Inr n) \<longrightarrow> child w' d c n)"

lemma walkDirs_names:
  assumes "nofollow K child" "walkDirs K w d cs = Inr n" "\<forall>c\<in>set cs. chSlash \<notin> set c"
  shows "namesTo child w d (filter (\<lambda>c. c \<noteq> [] \<and> c \<noteq> ''.'') cs) n"
  using assms(2,3)
proof (induction cs arbitrary: d)
  case (Cons c cs)
  show ?case
  proof (cases "c = [] \<or> c = ''.''")
    case True
    then show ?thesis using Cons by auto
  next
    case False
    then obtain m where m: "c \<noteq> ''..''" "k_openDir K d c w = Inr m" "walkDirs K w m cs = Inr n"
      using Cons.prems(1) by (auto split: if_splits sum.splits)
    have c: "isName c" using False m(1) Cons.prems(2) by (simp add: isName_def)
    then have "child w d c m" using assms(1) m(2) by (auto simp: nofollow_def)
    then show ?thesis using Cons.IH [OF m(3)] Cons.prems(2) c False by auto
  qed
qed simp

lemma splitOn_set_no_sep: "\<forall>c\<in>set (butlast (splitOn s p)). s \<notin> set c" "s \<notin> set (last (splitOn s p))"
  using splitOn_no_sep [of _ s p] by (auto dest: in_set_butlastD)

text \<open>The names a relative path walks through.\<close>

definition dirNames :: "bytes \<Rightarrow> bytes list" where
  "dirNames relPath = filter (\<lambda>c. c \<noteq> [] \<and> c \<noteq> ''.'') (butlast (splitOn chSlash (Clean relPath)))"

definition baseName :: "bytes \<Rightarrow> bytes" where
  "baseName relPath = last (splitOn chSlash (Clean relPath))"

text \<open>C5. A write open never leaves its root: whatever symbolic links the tree holds, the
  descriptor \<^verbatim>\<open>OpenFile\<close> returns is reached from the root directory by the names of the path
  alone, each the entry of the directory before it, none of them \<^verbatim>\<open>..\<close>.\<close>

theorem write_open_stays_in_root:
  assumes "nofollow K child" "OpenFile K (Some root) relPath flag perm w = (w', Inr f)"
  shows "\<exists>d. namesTo child w root (dirNames relPath) d \<and> isName (baseName relPath) \<and>
    child w' d (baseName relPath) f"
proof -
  obtain d where d: "walkDirs K w root (butlast (splitOn chSlash (Clean relPath))) = Inr d"
    and b: "baseName relPath \<noteq> []" "baseName relPath \<noteq> ''.''" "baseName relPath \<noteq> ''..''"
    and o: "k_openat K d (baseName relPath) flag perm w = (w', Inr f)"
    using assms(2) by (auto simp: OpenFile_def baseName_def Let_def split: if_splits sum.splits prod.splits)
  have n: "isName (baseName relPath)"
    using b splitOn_set_no_sep(2) [of chSlash "Clean relPath"] by (simp add: isName_def baseName_def)
  then have "child w' d (baseName relPath) f" using assms(1) o by (auto simp: nofollow_def)
  then show ?thesis
    using walkDirs_names [OF assms(1) d splitOn_set_no_sep(1)] n by (auto simp: dirNames_def)
qed

text \<open>C31. A removal stays in its root and never takes a directory: if \<^verbatim>\<open>Unlink\<close> changes the
  file system at all, it is by unlinking the path's last name from a directory reached through
  real directories only, and what bears that name, not followed, is not a directory.\<close>

theorem unlink_stays_in_root:
  assumes "nofollow K child" "Unlink K (Some root) relPath w = (w', e)" "w' \<noteq> w"
  shows "\<exists>d info. namesTo child w root (dirNames relPath) d \<and> isName (baseName relPath) \<and>
    k_fstatat K d (baseName relPath) False w = Inr info \<and> fi_type info \<noteq> DirType \<and>
    w' = fst (k_unlinkat K d (baseName relPath) w)"
proof -
  obtain d info where d: "walkDirs K w root (butlast (splitOn chSlash (Clean relPath))) = Inr d"
    and b: "baseName relPath \<noteq> []" "baseName relPath \<noteq> ''.''" "baseName relPath \<noteq> ''..''"
    and s: "k_fstatat K d (baseName relPath) False w = Inr info" "fi_type info \<noteq> DirType"
    and u: "w' = fst (k_unlinkat K d (baseName relPath) w)"
    using assms(2,3)
    by (auto simp: Unlink_def baseName_def Let_def split: if_splits sum.splits prod.splits option.splits)
  have "isName (baseName relPath)"
    using b splitOn_set_no_sep(2) [of chSlash "Clean relPath"] by (simp add: isName_def baseName_def)
  then show ?thesis
    using walkDirs_names [OF assms(1) d splitOn_set_no_sep(1)] s u by (auto simp: dirNames_def)
qed

text \<open>C25. The hard-link guard comes before any damage: when the opened target is a regular file
  with another name, or its link count is unknown, the write is refused, and apart from the open
  without truncation and the close nothing happened to the file system.\<close>

theorem multiply_linked_target_untouched:
  assumes "rejectSymlinkPathComponents K w root relPath True = None"
    "OpenFile K writeRoot relPath (flag AND NOT O_TRUNC) perm w = (w1, Inr f)"
    "k_fstat K f w1 = Inr info" "fi_type info = RegularType"
    "fileLinkCount info = None \<or> (\<exists>n. fileLinkCount info = Some n \<and> n > 1)"
  shows "\<exists>e. openWriteFile K root writeRoot relPath flag perm w = (fst (k_close K f w1), Inl e)"
  using assms by (auto simp: openWriteFile_def checkWriteTargetLinks_def)

lemma openWriteFile_single_link:
  assumes "openWriteFile K root writeRoot relPath flag perm w = (w', Inr f)"
  obtains w1 info where "OpenFile K writeRoot relPath (flag AND NOT O_TRUNC) perm w = (w1, Inr f)"
    "k_fstat K f w1 = Inr info"
    "fi_type info = RegularType \<Longrightarrow> \<exists>n \<le> 1. fileLinkCount info = Some n"
  using assms
  by (auto simp: openWriteFile_def checkWriteTargetLinks_def Let_def
      split: option.splits prod.splits sum.splits if_splits)

section \<open>A small file system\<close>

text \<open>A concrete instance of the system calls: a table of objects, the last entry for a number
  first.\<close>

datatype node = NDir "(bytes \<times> nat) list" | NFile nat bytes | NLink bytes

type_synonym demoFs = "(nat \<times> node) list"

definition demoEntry :: "demoFs \<Rightarrow> nat \<Rightarrow> bytes \<Rightarrow> pathError + nat \<times> node" where
  "demoEntry w d c =
     (case map_of w d of
        Some (NDir es) \<Rightarrow>
          (case map_of es c of
             None \<Rightarrow> Inl ErrNotExist
           | Some n \<Rightarrow> (case map_of w n of None \<Rightarrow> Inl ErrNotExist | Some x \<Rightarrow> Inr (n, x)))
      | _ \<Rightarrow> Inl ErrNotDirectory)"

definition demoChild :: "demoFs \<Rightarrow> nat \<Rightarrow> bytes \<Rightarrow> nat \<Rightarrow> bool" where
  "demoChild w d c n \<longleftrightarrow> (\<exists>x. demoEntry w d c = Inr (n, x))"

definition demoInfo :: "nat \<times> node \<Rightarrow> fileInfo" where
  "demoInfo nx =
     \<lparr>fi_type = (case snd nx of NDir _ \<Rightarrow> DirType | NFile _ _ \<Rightarrow> RegularType | NLink _ \<Rightarrow> SymlinkType),
      fi_perm = 0x1A4,
      fi_size = (case snd nx of NFile _ s \<Rightarrow> int (length s) | _ \<Rightarrow> 0),
      fi_dev = 1, fi_ino = fst nx,
      fi_sys = Some \<lparr>st_uid = 0, st_gid = 0,
                    st_nlink = (case snd nx of NFile l _ \<Rightarrow> l | _ \<Rightarrow> 1)\<rparr>\<rparr>"

definition demoNode :: "demoFs \<Rightarrow> nat \<Rightarrow> pathError + nat \<times> node" where
  "demoNode w n = (case map_of w n of None \<Rightarrow> Inl ErrNotExist | Some x \<Rightarrow> Inr (n, x))"

text \<open>The root methods of the instance look names up one by one and refuse to follow links.\<close>

fun demoWalk :: "demoFs \<Rightarrow> nat \<Rightarrow> bytes list \<Rightarrow> pathError + nat \<times> node" where
  "demoWalk w d [] = demoNode w d"
| "demoWalk w d (c # cs) =
     (if c = ''.'' then demoWalk w d cs
      else sbind (demoEntry w d c) (\<lambda>(n, x). if cs = [] then Inr (n, x) else demoWalk w n cs))"

definition demoKernel :: "demoFs kernel" where
  "demoKernel =
     \<lparr>k_openDir = (\<lambda>d c w. sbind (demoEntry w d c) (\<lambda>(n, x).
          case x of NDir _ \<Rightarrow> Inr n | NLink _ \<Rightarrow> Inl ErrELOOP | _ \<Rightarrow> Inl ErrNotDirectory)),
      k_openat = (\<lambda>d c fl p w. (w, sbind (demoEntry w d c) (\<lambda>(n, x).
          case x of NFile _ _ \<Rightarrow> Inr n | NLink _ \<Rightarrow> Inl ErrELOOP | _ \<Rightarrow> Inl ErrEISDIR))),
      k_fstatat = (\<lambda>d c follow w. sbind (demoEntry w d c) (\<lambda>nx. Inr (demoInfo nx))),
      k_unlinkat = (\<lambda>d c w. case map_of w d of
          Some (NDir es) \<Rightarrow> ((d, NDir (filter (\<lambda>e. fst e \<noteq> c) es)) # w, None)
        | _ \<Rightarrow> (w, Some ErrNotDirectory)),
      k_fstat = (\<lambda>n w. sbind (demoNode w n) (\<lambda>nx. Inr (demoInfo nx))),
      k_ftruncate = (\<lambda>n size w. case map_of w n of
          Some (NFile l s) \<Rightarrow> ((n, NFile l (take (nat size) s)) # w, None)
        | _ \<Rightarrow> (w, Some ErrInvalid)),
      k_write = (\<lambda>n s w. case map_of w n of
          Some (NFile l t) \<Rightarrow> ((n, NFile l (t @ s)) # w, length s, None)
        | _ \<Rightarrow> (w, 0, Some ErrInvalid)),
      k_close = (\<lambda>n w. (w, None)),
      k_rootLstat = (\<lambda>r p w. sbind (demoWalk w r (splitOn chSlash p)) (\<lambda>nx. Inr (demoInfo nx))),
      k_rootStat = (\<lambda>r p w. sbind (demoWalk w r (splitOn chSlash p)) (\<lambda>nx. Inr (demoInfo nx))),
      k_rootReadlink = (\<lambda>r p w. sbind (demoWalk w r (splitOn chSlash p)) (\<lambda>(n, x).
          case x of NLink t \<Rightarrow> Inr t | _ \<Rightarrow> Inl ErrInvalid)),
      k_rootOpen = (\<lambda>r p fl w. sbind (demoWalk w r (splitOn chSlash p)) (\<lambda>(n, x). Inr n))\<rparr>"

definition demoFs0 :: demoFs where
  "demoFs0 = [(0, NDir [(''a'', 1), (''l'', 3)]), (1, NDir [(''f'', 2), (''h'', 4)]),
              (2, NFile 1 ''xyz''), (3, NLink ''/etc''), (4, NFile 2 ''shared'')]"

lemma demo_nofollow: "nofollow demoKernel demoChild"
  by (auto simp: nofollow_def demoKernel_def demoChild_def sbind_Inr_iff split: node.split_asm)

theorem write_open_stays_in_root_witness:
  "\<exists>d. namesTo demoChild demoFs0 0 (dirNames ''a/f'') d \<and> isName (baseName ''a/f'') \<and>
     demoChild demoFs0 d (baseName ''a/f'') 2"
proof -
  have "OpenFile demoKernel (Some 0) ''a/f'' O_WRONLY 0 demoFs0 = (demoFs0, Inr 2)" by code_simp
  from write_open_stays_in_root [OF demo_nofollow this] show ?thesis .
qed

theorem unlink_stays_in_root_witness:
  "\<exists>d info. namesTo demoChild demoFs0 0 (dirNames ''a/f'') d \<and> isName (baseName ''a/f'') \<and>
     k_fstatat demoKernel d (baseName ''a/f'') False demoFs0 = Inr info \<and> fi_type info \<noteq> DirType"
proof -
  have u: "Unlink demoKernel (Some 0) ''a/f'' demoFs0 = ((1, NDir [(''h'', 4)]) # demoFs0, None)"
    by code_simp
  have "(1, NDir [(''h'', 4)]) # demoFs0 \<noteq> demoFs0" by simp
  then show ?thesis using unlink_stays_in_root [OF demo_nofollow u] by blast
qed

theorem multiply_linked_target_untouched_witness:
  "\<exists>e. openWriteFile demoKernel 0 (Some 0) ''a/h'' (O_WRONLY OR O_TRUNC) 0 demoFs0 =
     (fst (k_close demoKernel 4 demoFs0), Inl e)"
proof (rule multiply_linked_target_untouched)
  show "rejectSymlinkPathComponents demoKernel demoFs0 0 ''a/h'' True = None" by code_simp
  show "OpenFile demoKernel (Some 0) ''a/h'' ((O_WRONLY OR O_TRUNC) AND NOT O_TRUNC) 0 demoFs0 = (demoFs0, Inr 4)"
    by code_simp
  show "k_fstat demoKernel 4 demoFs0 = Inr (demoInfo (4, NFile 2 ''shared''))" by code_simp
qed (simp_all add: demoInfo_def fileLinkCount_def)

end
