(* ===== verification/Sandbox.thy ===== *)
theory Sandbox
  imports Write_Open
begin

text \<open>
  The sandbox (\<^verbatim>\<open>allowedpaths/sandbox.go\<close>, \<^verbatim>\<open>check.go\<close>, \<^verbatim>\<open>portable_unix.go\<close>): the roots
  opened from the configuration, the resolution of a path to a root with and without
  following symbolic links, the mode checks of write and remove targets, and the file
  operations built on them.  The system calls are the parameter \<open>K\<close> of \<open>Write_Open\<close>; a
  nil sandbox is \<open>None\<close>.  Errors keep the cause and drop the operation and path.
\<close>

section \<open>Roots\<close>

record root =
  rt_absPath :: bytes
  rt_canonicalAbsPath :: bytes
  rt_mode :: pathMode
  rt_root :: nat
  rt_writeRoot :: "nat option"
  rt_identity :: "fileInfo option"

record Sandbox =
  sb_roots :: "root list"
  hostPrefix :: bytes
  readOnly :: bool

definition maxSymlinkHops :: nat where "maxSymlinkHops = 10"

definition preferReadOnlyRoot :: "root \<Rightarrow> root \<Rightarrow> bool" where
  "preferReadOnlyRoot candidate best \<longleftrightarrow>
     rt_mode best = pathModeReadWrite \<and> rt_mode candidate = pathModeReadOnly"

definition resolveBy ::
  "Sandbox option \<Rightarrow> bytes \<Rightarrow> (root \<Rightarrow> bytes) \<Rightarrow> (root \<Rightarrow> root \<Rightarrow> bool) option \<Rightarrow> (root \<times> bytes) option" where
  "resolveBy s absp rootPath preferEq =
     (case s of None \<Rightarrow> None | Some sb \<Rightarrow> resolvePath (sb_roots sb) absp rootPath preferEq)"

definition resolve :: "Sandbox option \<Rightarrow> bytes \<Rightarrow> (root \<times> bytes) option" where
  "resolve s absp = resolveBy s absp rt_absPath None"

definition resolveCanonical :: "Sandbox option \<Rightarrow> bytes \<Rightarrow> (root \<times> bytes) option" where
  "resolveCanonical s absp = resolveBy s absp rt_canonicalAbsPath (Some preferReadOnlyRoot)"

definition isAncestorOfRoot :: "Sandbox option \<Rightarrow> bytes \<Rightarrow> bool" where
  "isAncestorOfRoot s absp =
     (case s of
        None \<Rightarrow> False
      | Some sb \<Rightarrow>
          (let absp = Clean absp in
           \<exists>r \<in> set (sb_roots sb).
             (let rootPath = Clean (rt_absPath r) in
              absp \<noteq> rootPath \<and>
              (case Rel absp rootPath of
                 Inl _ \<Rightarrow> False
               | Inr rel \<Rightarrow> \<not> (rel = ''..'' \<or> hasPrefix rel ''../'')))))"

section \<open>Following symbolic links across roots\<close>

text \<open>The walk over the components of the relative path: a component that cannot be examined
  ends it with the path as it stands, an unreadable link fails it, and a link restarts
  resolution at another absolute path.\<close>

datatype linkWalk = WalkStop | WalkFail | WalkRestart bytes

definition linkTarget :: "Sandbox \<Rightarrow> bytes \<Rightarrow> bytes list \<Rightarrow> nat \<Rightarrow> bytes \<Rightarrow> bytes" where
  "linkTarget sb absp components i target =
     (let target = (if \<not> IsAbs target
                    then Join ((Dir ^^ (length components - i)) absp) target else target);
          target = (if i + 1 < length components
                    then Join target (joinWith chSlash (drop (i + 1) components)) else target);
          absp' = Clean target
      in if hostPrefix sb \<noteq> [] \<and> \<not> hasPrefix absp' (hostPrefix sb @ ''/'')
         then Join (hostPrefix sb) absp' else absp')"

fun walkLinks ::
  "'w kernel \<Rightarrow> 'w \<Rightarrow> Sandbox \<Rightarrow> root \<Rightarrow> bytes \<Rightarrow> bool \<Rightarrow> bytes list \<Rightarrow> nat list \<Rightarrow> linkWalk" where
  "walkLinks K w sb ar absp preserveLast components [] = WalkStop"
| "walkLinks K w sb ar absp preserveLast components (i # is) =
     (if components ! i = ''.'' then walkLinks K w sb ar absp preserveLast components is
      else if preserveLast \<and> i + 1 = length components then WalkStop
      else
        (let partial = joinWith chSlash (take (i + 1) components) in
         case k_rootLstat K (rt_root ar) partial w of
           Inl _ \<Rightarrow> WalkStop
         | Inr info \<Rightarrow>
             if fi_type info \<noteq> SymlinkType then walkLinks K w sb ar absp preserveLast components is
             else (case k_rootReadlink K (rt_root ar) partial w of
                     Inl _ \<Rightarrow> WalkFail
                   | Inr target \<Rightarrow> WalkRestart (linkTarget sb absp components i target))))"

fun followLinks :: "'w kernel \<Rightarrow> 'w \<Rightarrow> Sandbox \<Rightarrow> bool \<Rightarrow> nat \<Rightarrow> bytes \<Rightarrow> (root \<times> bytes) option" where
  "followLinks K w sb preserveLast 0 absp = None"
| "followLinks K w sb preserveLast (Suc n) absp =
     (case resolve (Some sb) absp of
        None \<Rightarrow> None
      | Some (ar, rel) \<Rightarrow>
          (let components = splitOn chSlash rel in
           case walkLinks K w sb ar absp preserveLast components [0..<length components] of
             WalkStop \<Rightarrow> Some (ar, rel)
           | WalkFail \<Rightarrow> None
           | WalkRestart absp' \<Rightarrow> followLinks K w sb preserveLast n absp'))"

definition resolveRootFollowingSymlinks ::
  "'w kernel \<Rightarrow> 'w \<Rightarrow> Sandbox option \<Rightarrow> bytes \<Rightarrow> bool \<Rightarrow> (root \<times> bytes) option" where
  "resolveRootFollowingSymlinks K w s absp preserveLast =
     (case s of None \<Rightarrow> None
      | Some sb \<Rightarrow> followLinks K w sb preserveLast (maxSymlinkHops + 1) (Clean absp))"

section \<open>Write and remove targets\<close>

definition isWithinRoot :: "bytes \<Rightarrow> bytes \<Rightarrow> bool" where
  "isWithinRoot rootPath path =
     (case Rel (Clean rootPath) (Clean path) of
        Inl _ \<Rightarrow> False
      | Inr rel \<Rightarrow> rel \<noteq> ''..'' \<and> \<not> hasPrefix rel ''../'')"

definition readOnlyIdentities :: "Sandbox \<Rightarrow> fileInfo list" where
  "readOnlyIdentities sb =
     List.map_filter (\<lambda>r. if rt_mode r = pathModeReadOnly then rt_identity r else None) (sb_roots sb)"

definition matchesAny :: "fileInfo list \<Rightarrow> fileInfo \<Rightarrow> bool" where
  "matchesAny ros info = list_ex (\<lambda>ro. SameFile ro info) ros"

fun reachesFrom ::
  "'w kernel \<Rightarrow> 'w \<Rightarrow> fileInfo list \<Rightarrow> nat \<Rightarrow> bool \<Rightarrow> bytes list \<Rightarrow> nat list \<Rightarrow> bool" where
  "reachesFrom K w ros rt preserveLast components [] = False"
| "reachesFrom K w ros rt preserveLast components (i # is) =
     (if components ! i = ''.'' then reachesFrom K w ros rt preserveLast components is
      else
        (let pfx = joinWith chSlash (take (i + 1) components);
             info = (if preserveLast \<and> i + 1 = length components
                     then k_rootLstat K rt pfx w else k_rootStat K rt pfx w)
         in case info of
              Inl _ \<Rightarrow> False
            | Inr info \<Rightarrow> matchesAny ros info \<or> reachesFrom K w ros rt preserveLast components is))"

definition reachesReadOnlyRoot :: "'w kernel \<Rightarrow> 'w \<Rightarrow> Sandbox \<Rightarrow> root \<Rightarrow> bytes \<Rightarrow> bool \<Rightarrow> bool" where
  "reachesReadOnlyRoot K w sb ar relPath preserveLast =
     (let ros = readOnlyIdentities sb in
      if ros = [] then False
      else if (case rt_identity ar of None \<Rightarrow> False | Some i \<Rightarrow> matchesAny ros i) then True
      else (let components = splitOn chSlash (Clean relPath)
            in reachesFrom K w ros (rt_root ar) preserveLast components [0..<length components]))"

definition resolveModeCheckedTarget ::
  "'w kernel \<Rightarrow> 'w \<Rightarrow> Sandbox option \<Rightarrow> bytes \<Rightarrow> bool \<Rightarrow> (root \<times> bytes) option" where
  "resolveModeCheckedTarget K w s absp preserveLast =
     (case (s, resolve s absp) of
        (Some sb, Some (ar, relPath)) \<Rightarrow>
          if rt_mode ar \<noteq> pathModeReadWrite then None
          else
            (case resolveRootFollowingSymlinks K w s absp preserveLast of
               None \<Rightarrow> None
             | Some (resolved, resolvedRel) \<Rightarrow>
                 (let resolvedAbs = Join (rt_absPath resolved) resolvedRel;
                      resolvedCanonicalAbs = Join (rt_canonicalAbsPath resolved) resolvedRel
                  in if \<not> isWithinRoot (rt_absPath ar) resolvedAbs \<and>
                        \<not> isWithinRoot (rt_canonicalAbsPath ar) resolvedCanonicalAbs then None
                     else if rt_mode resolved \<noteq> pathModeReadWrite then None
                     else if (case resolveCanonical s resolvedCanonicalAbs of
                                None \<Rightarrow> False
                              | Some (canonicalRoot, _) \<Rightarrow> rt_mode canonicalRoot \<noteq> pathModeReadWrite)
                     then None
                     else if reachesReadOnlyRoot K w sb ar relPath preserveLast \<or>
                             reachesReadOnlyRoot K w sb resolved resolvedRel preserveLast
                     then None
                     else Some (ar, relPath)))
      | _ \<Rightarrow> None)"

definition resolveWriteTarget :: "'w kernel \<Rightarrow> 'w \<Rightarrow> Sandbox option \<Rightarrow> bytes \<Rightarrow> (root \<times> bytes) option" where
  "resolveWriteTarget K w s absp = resolveModeCheckedTarget K w s absp False"

definition resolveRemoveTarget :: "'w kernel \<Rightarrow> 'w \<Rightarrow> Sandbox option \<Rightarrow> bytes \<Rightarrow> (root \<times> bytes) option" where
  "resolveRemoveTarget K w s absp = resolveModeCheckedTarget K w s absp True"

section \<open>Reading\<close>

text \<open>\<^verbatim>\<open>Stat\<close>, \<^verbatim>\<open>Lstat\<close> and \<^verbatim>\<open>Readlink\<close> share one shape: the call on the lexical root, and on a
  path escape the same call on the root found by following links.\<close>

definition withEscapeFallback ::
  "'w kernel \<Rightarrow> 'w \<Rightarrow> Sandbox option \<Rightarrow> bytes \<Rightarrow> bool \<Rightarrow> (nat \<Rightarrow> bytes \<Rightarrow> pathError + 'a) \<Rightarrow> pathError + 'a" where
  "withEscapeFallback K w s absp preserveLast call =
     (case resolve s absp of
        None \<Rightarrow> Inl ErrPermission
      | Some (ar, relPath) \<Rightarrow>
          (case call (rt_root ar) relPath of
             Inr x \<Rightarrow> Inr x
           | Inl e \<Rightarrow>
               if e \<noteq> ErrPathEscape then Inl e
               else (case resolveRootFollowingSymlinks K w s absp preserveLast of
                       None \<Rightarrow> Inl e
                     | Some (r, rel) \<Rightarrow> call (rt_root r) rel)))"

definition Sandbox_Stat :: "'w kernel \<Rightarrow> (pathError + fileInfo) \<Rightarrow> 'w \<Rightarrow> Sandbox option \<Rightarrow> bytes \<Rightarrow> bytes \<Rightarrow> pathError + fileInfo" where
  "Sandbox_Stat K devNull w s path cwd =
     (if IsDevNull path then devNull
      else withEscapeFallback K w s (toAbs path cwd) False (\<lambda>r rel. k_rootStat K r rel w))"

definition Sandbox_Lstat :: "'w kernel \<Rightarrow> (pathError + fileInfo) \<Rightarrow> 'w \<Rightarrow> Sandbox option \<Rightarrow> bytes \<Rightarrow> bytes \<Rightarrow> pathError + fileInfo" where
  "Sandbox_Lstat K devNull w s path cwd =
     (if IsDevNull path then devNull
      else withEscapeFallback K w s (toAbs path cwd) True (\<lambda>r rel. k_rootLstat K r rel w))"

definition Sandbox_Readlink :: "'w kernel \<Rightarrow> 'w \<Rightarrow> Sandbox option \<Rightarrow> bytes \<Rightarrow> bytes \<Rightarrow> pathError + bytes" where
  "Sandbox_Readlink K w s path cwd =
     withEscapeFallback K w s (toAbs path cwd) True (\<lambda>r rel. k_rootReadlink K r rel w)"

definition openWithSymlinkFallback :: "'w kernel \<Rightarrow> 'w \<Rightarrow> Sandbox option \<Rightarrow> nat \<Rightarrow> bytes \<Rightarrow> bytes \<Rightarrow> pathError + nat" where
  "openWithSymlinkFallback K w s rt relPath absp =
     (case k_rootOpen K rt relPath O_RDONLY w of
        Inr f \<Rightarrow> Inr f
      | Inl e \<Rightarrow>
          if e = ErrPathEscape then
            (case resolveRootFollowingSymlinks K w s absp False of
               Some (r, rel) \<Rightarrow> k_rootOpen K (rt_root r) rel O_RDONLY w
             | None \<Rightarrow> Inl e)
          else Inl e)"

end
