(* ===== verification/Sandbox_Ops.thy ===== *)
theory Sandbox_Ops
  imports Sandbox "HOL-Library.List_Lexorder"
begin

text \<open>
  The operations of the sandbox on files and directories (\<^verbatim>\<open>allowedpaths/sandbox.go\<close>,
  \<^verbatim>\<open>check.go\<close>, \<^verbatim>\<open>portable_unix.go\<close>): permission checks, opening, truncating, rewriting,
  removing, listing, and the advisory check of a path.  An operation that may change the
  file system returns its new state.  Cancellation is the parameter \<open>ctx\<close>: whether the
  context has ended at the n-th time it is asked.
\<close>

section \<open>Permissions\<close>

record process =
  p_uid :: int
  p_gid :: int
  p_groups :: "int list option"

definition effectiveHasPerm :: "process \<Rightarrow> fileInfo \<Rightarrow> bool \<Rightarrow> bool \<Rightarrow> bool \<Rightarrow> bool" where
  "effectiveHasPerm P info checkRead checkWrite checkExec =
     (let perm = fi_perm info;
          classBits = (\<lambda>ownerBits.
            (checkRead \<longrightarrow> perm AND 0x124 AND ownerBits \<noteq> 0) \<and>
            (checkWrite \<longrightarrow> perm AND 0x92 AND ownerBits \<noteq> 0) \<and>
            (checkExec \<longrightarrow> perm AND 0x49 AND ownerBits \<noteq> 0))
      in case fi_sys info of
           None \<Rightarrow> classBits 0x7
         | Some st \<Rightarrow>
             if p_uid P = 0 then \<not> (checkExec \<and> perm AND 0x49 = 0)
             else if st_uid st = p_uid P then classBits 0x1C0
             else if st_gid st = p_gid P then classBits 0x38
             else if (case p_groups P of None \<Rightarrow> False | Some gs \<Rightarrow> st_gid st \<in> set gs)
             then classBits 0x38
             else classBits 0x7)"

definition accessCheck ::
  "'w kernel \<Rightarrow> process \<Rightarrow> 'w \<Rightarrow> nat \<Rightarrow> bytes \<Rightarrow> bool \<Rightarrow> bool \<Rightarrow> bool \<Rightarrow> pathError option" where
  "accessCheck K P w rt rel checkRead checkWrite checkExec =
     (if \<not> checkRead then
        (case k_rootStat K rt rel w of
           Inl e \<Rightarrow> Some e
         | Inr info \<Rightarrow> if effectiveHasPerm P info False checkWrite checkExec then None
                       else Some ErrPermission)
      else
        (case k_rootOpen K rt rel (O_RDONLY OR O_NONBLOCK) w of
           Inl _ \<Rightarrow>
             (case k_rootStat K rt rel w of
                Inl e \<Rightarrow> Some e
              | Inr info \<Rightarrow>
                  if fi_type info = RegularType then Some ErrPermission
                  else if effectiveHasPerm P info checkRead checkWrite checkExec then None
                  else Some ErrPermission)
         | Inr f \<Rightarrow>
             (case k_fstat K f w of
                Inl e \<Rightarrow> Some e
              | Inr info \<Rightarrow>
                  (case snd (k_close K f w) of
                     Some e \<Rightarrow> Some e
                   | None \<Rightarrow>
                       if fi_type info \<noteq> RegularType then
                         (if effectiveHasPerm P info checkRead checkWrite checkExec then None
                          else Some ErrPermission)
                       else if (checkWrite \<or> checkExec) \<and>
                               \<not> effectiveHasPerm P info False checkWrite checkExec
                       then Some ErrPermission
                       else None))))"

definition Access :: "'w kernel \<Rightarrow> process \<Rightarrow> 'w \<Rightarrow> Sandbox option \<Rightarrow> bytes \<Rightarrow> bytes \<Rightarrow> 32 word \<Rightarrow> pathError option" where
  "Access K P w s path cwd mode =
     (let absp = toAbs path cwd in
      case resolve s absp of
        None \<Rightarrow> Some ErrPermission
      | Some (ar, rel) \<Rightarrow>
          (let checkRead = (mode AND 4 \<noteq> 0); checkWrite = (mode AND 2 \<noteq> 0); checkExec = (mode AND 1 \<noteq> 0)
           in case accessCheck K P w (rt_root ar) rel checkRead checkWrite checkExec of
                None \<Rightarrow> None
              | Some e \<Rightarrow>
                  if e \<noteq> ErrPathEscape then Some ErrPermission
                  else (case resolveRootFollowingSymlinks K w s absp False of
                          None \<Rightarrow> Some ErrPermission
                        | Some (resolved, resolvedRel) \<Rightarrow>
                            (case accessCheck K P w (rt_root resolved) resolvedRel checkRead checkWrite checkExec of
                               None \<Rightarrow> None
                             | Some _ \<Rightarrow> Some ErrPermission))))"

section \<open>Opening\<close>

definition allowedOpenFlags :: flags where
  "allowedOpenFlags = O_RDONLY OR O_WRONLY OR O_APPEND OR O_CREATE OR O_TRUNC"

definition writeOpenFlags :: flags where
  "writeOpenFlags = O_WRONLY OR O_APPEND OR O_CREATE OR O_TRUNC"

text \<open>Restoring the blocking mode of the descriptor and the polling reader for FIFOs are left
  out.\<close>

definition openReadFile :: "'w kernel \<Rightarrow> 'w \<Rightarrow> nat \<Rightarrow> bytes \<Rightarrow> flags \<Rightarrow> pathError + nat" where
  "openReadFile K w rt path flag =
     sbind (k_rootOpen K rt path (flag OR O_NONBLOCK) w) (\<lambda>f.
     sbind (k_fstat K f w) (\<lambda>_. Inr f))"

definition Sandbox_Open ::
  "'w kernel \<Rightarrow> Sandbox option \<Rightarrow> bytes \<Rightarrow> bytes \<Rightarrow> flags \<Rightarrow> nat \<Rightarrow> 'w \<Rightarrow> 'w \<times> (pathError + nat)" where
  "Sandbox_Open K s path cwd flag perm w =
     (case s of
        None \<Rightarrow> (w, Inl ErrPermission)
      | Some sb \<Rightarrow>
          if readOnly sb \<and> flag AND writeOpenFlags \<noteq> 0 then (w, Inl ErrPermission)
          else if flag AND NOT allowedOpenFlags \<noteq> 0 then (w, Inl ErrPermission)
          else
            (let absp = toAbs path cwd;
                 write = (flag AND writeOpenFlags \<noteq> 0)
             in case (if write then resolveWriteTarget K w s absp else resolve s absp) of
                  None \<Rightarrow> (w, Inl ErrPermission)
                | Some (ar, relPath) \<Rightarrow>
                    (case (if write then openWriteFile K (rt_root ar) (rt_writeRoot ar) relPath flag perm w
                           else (w, openReadFile K w (rt_root ar) relPath flag)) of
                       (w', Inr f) \<Rightarrow> (w', Inr f)
                     | (w', Inl e) \<Rightarrow>
                         if e \<noteq> ErrPathEscape then (w', Inl e)
                         else if flag \<noteq> O_RDONLY then (w', Inl e)
                         else (case resolveRootFollowingSymlinks K w' s absp False of
                                 None \<Rightarrow> (w', Inl e)
                               | Some (r, rel) \<Rightarrow> (w', openReadFile K w' (rt_root r) rel flag)))))"

definition openRegular ::
  "'w kernel \<Rightarrow> (pathError + fileInfo) \<Rightarrow> 'w \<Rightarrow> Sandbox option \<Rightarrow> bytes \<Rightarrow> bytes \<Rightarrow> pathError + nat" where
  "openRegular K devNull w s path cwd =
     (case s of
        None \<Rightarrow> Inl ErrPermission
      | Some sb \<Rightarrow>
          sbind (Sandbox_Stat K devNull w s path cwd) (\<lambda>expected.
            if fi_type expected \<noteq> RegularType then Inl ErrNotRegularFile
            else
              (let absp = toAbs path cwd in
               case resolve s absp of
                 None \<Rightarrow> Inl ErrPermission
               | Some (ar, relPath) \<Rightarrow>
                   sbind (case k_rootOpen K (rt_root ar) relPath (O_RDONLY OR O_NONBLOCK) w of
                            Inr f \<Rightarrow> Inr f
                          | Inl e \<Rightarrow>
                              if e = ErrPathEscape then
                                (case resolveRootFollowingSymlinks K w s absp False of
                                   None \<Rightarrow> Inl e
                                 | Some (r, rel) \<Rightarrow> k_rootOpen K (rt_root r) rel (O_RDONLY OR O_NONBLOCK) w)
                              else Inl e) (\<lambda>f.
                   sbind (k_fstat K f w) (\<lambda>opened.
                     if fi_type opened \<noteq> RegularType then Inl ErrNotRegularFile
                     else if \<not> SameFile expected opened then Inl ErrIdentityChanged
                     else Inr f)))))"

section \<open>Truncating\<close>

text \<open>The shared start of the content-changing operations: refuse a read-only sandbox, resolve
  the target, open it and make sure the descriptor is a regular file.\<close>

definition openTarget ::
  "'w kernel \<Rightarrow> Sandbox option \<Rightarrow> bytes \<Rightarrow> bytes \<Rightarrow> flags \<Rightarrow> nat \<Rightarrow> 'w \<Rightarrow> 'w \<times> (pathError + nat \<times> fileInfo)" where
  "openTarget K s path cwd flag perm w =
     (case resolveWriteTarget K w s (toAbs path cwd) of
        None \<Rightarrow> (w, Inl ErrPermission)
      | Some (ar, relPath) \<Rightarrow>
          (case openWriteFile K (rt_root ar) (rt_writeRoot ar) relPath flag perm w of
             (w, Inl e) \<Rightarrow> (w, Inl e)
           | (w, Inr f) \<Rightarrow>
               (case k_fstat K f w of
                  Inl e \<Rightarrow> (fst (k_close K f w), Inl e)
                | Inr info \<Rightarrow>
                    if fi_type info \<noteq> RegularType
                    then (fst (k_close K f w), Inl ErrNotRegularFile)
                    else (w, Inr (f, info)))))"

definition Truncate :: "'w kernel \<Rightarrow> Sandbox option \<Rightarrow> bytes \<Rightarrow> bytes \<Rightarrow> int \<Rightarrow> bool \<Rightarrow> 'w \<Rightarrow> 'w \<times> pathError option" where
  "Truncate K s path cwd newSize create w =
     (case s of
        None \<Rightarrow> (w, Some ErrPermission)
      | Some sb \<Rightarrow>
          if readOnly sb then (w, Some ErrPermission)
          else if newSize < 0 then (w, Some ErrInvalid)
          else
            (let flag = O_WRONLY OR O_NONBLOCK; flag = (if create then flag OR O_CREATE else flag)
             in case openTarget K s path cwd flag 438 w of
                  (w, Inl e) \<Rightarrow> (w, Some e)
                | (w, Inr (f, _)) \<Rightarrow>
                    (let (w, truncErr) = k_ftruncate K f newSize w;
                         (w, closeErr) = k_close K f w
                     in (w, if truncErr \<noteq> None then truncErr else closeErr))))"

definition TruncateToZeroIfAtLeast ::
  "'w kernel \<Rightarrow> Sandbox option \<Rightarrow> bytes \<Rightarrow> bytes \<Rightarrow> int \<Rightarrow> bool \<Rightarrow> 'w \<Rightarrow> 'w \<times> int \<times> bool \<times> pathError option" where
  "TruncateToZeroIfAtLeast K s path cwd minSize dryRun w =
     (case s of
        None \<Rightarrow> (w, 0, False, Some ErrPermission)
      | Some sb \<Rightarrow>
          if readOnly sb then (w, 0, False, Some ErrPermission)
          else if minSize < 0 then (w, 0, False, Some ErrInvalid)
          else
            (case openTarget K s path cwd (O_WRONLY OR O_NONBLOCK) 0 w of
               (w, Inl e) \<Rightarrow> (w, 0, False, Some e)
             | (w, Inr (f, info)) \<Rightarrow>
                 (let sizeBefore = fi_size info in
                  if sizeBefore < minSize then (fst (k_close K f w), sizeBefore, False, None)
                  else if sizeBefore = 0 then (fst (k_close K f w), 0, False, None)
                  else if dryRun then (fst (k_close K f w), sizeBefore, True, None)
                  else
                    (let (w, truncErr) = k_ftruncate K f 0 w;
                         (w, closeErr) = k_close K f w
                     in if truncErr \<noteq> None then (w, sizeBefore, False, truncErr)
                        else (w, sizeBefore, True, closeErr)))))"

section \<open>Rewriting\<close>

definition writeRegularFileChunkBytes :: nat where "writeRegularFileChunkBytes = 32 * 1024"

text \<open>The write loop; \<open>t\<close> counts the questions asked of the context.\<close>

function writeChunkedCancellable ::
  "'w kernel \<Rightarrow> (nat \<Rightarrow> bool) \<Rightarrow> nat \<Rightarrow> nat \<Rightarrow> bool \<Rightarrow> bytes \<Rightarrow> 'w \<Rightarrow> 'w \<times> bool \<times> pathError option \<times> nat" where
  "writeChunkedCancellable K ctx t f wroteAny data w =
     (if data = [] then (w, wroteAny, None, t)
      else if ctx t then (w, wroteAny, Some ErrContext, t + 1)
      else
        (let n = min writeRegularFileChunkBytes (length data);
             (w, written, werr) = k_write K f (take n data) w;
             wroteAny = (wroteAny \<or> written > 0)
         in if werr \<noteq> None then (w, wroteAny, werr, t + 1)
            else writeChunkedCancellable K ctx (t + 1) f wroteAny (drop n data) w))"
  by pat_completeness auto
termination
  by (relation "measure (\<lambda>(K, ctx, t, f, wroteAny, data, w). length data)")
    (auto simp: writeRegularFileChunkBytes_def)

declare writeChunkedCancellable.simps [simp del]

definition writeAndTruncateSync ::
  "'w kernel \<Rightarrow> (nat \<Rightarrow> bool) \<Rightarrow> nat \<Rightarrow> nat \<Rightarrow> bytes \<Rightarrow> 'w \<Rightarrow> 'w \<times> bool \<times> pathError option" where
  "writeAndTruncateSync K ctx t f data w =
     (let (w, wroteAnyChunk, writeErr, t) = writeChunkedCancellable K ctx t f False data w;
          writeErr = (if writeErr = None \<and> ctx t then Some ErrContext else writeErr);
          (w, truncErr) = (if writeErr = None then k_ftruncate K f (int (length data)) w else (w, None));
          truncated = (writeErr = None \<and> truncErr = None);
          (w, closeErr) = k_close K f w;
          mutated = (wroteAnyChunk \<or> truncated)
      in (w, mutated, if writeErr \<noteq> None then writeErr
                      else if truncErr \<noteq> None then truncErr else closeErr))"

definition acquireWriteHandle ::
  "'w kernel \<Rightarrow> Sandbox option \<Rightarrow> bytes \<Rightarrow> bytes \<Rightarrow> fileInfo option \<Rightarrow> 'w \<Rightarrow> 'w \<times> (pathError + nat)" where
  "acquireWriteHandle K s path cwd expectedIdentity w =
     (case openTarget K s path cwd (O_WRONLY OR O_NONBLOCK) 0 w of
        (w, Inl e) \<Rightarrow> (w, Inl e)
      | (w, Inr (f, info)) \<Rightarrow>
          (case expectedIdentity of
             None \<Rightarrow> (w, Inr f)
           | Some expected \<Rightarrow>
               if \<not> SameFile expected info then (fst (k_close K f w), Inl ErrIdentityChanged)
               else (w, Inr f)))"

definition maxOutstandingWriteAcquisitions :: nat where "maxOutstandingWriteAcquisitions = 64"

text \<open>The two goroutine races against the context: \<open>inFlight\<close> slots are taken when the race starts,
  and \<open>ctxWon\<close> says whether the context ended before the goroutine delivered its result.  An
  abandoned goroutine still runs to its end, so its effect on the file system is kept; an
  abandoned acquisition closes what it opened, an abandoned write reports that the outcome is
  unknown.\<close>

definition raceAcquisitionAgainstContext ::
  "'w kernel \<Rightarrow> nat \<Rightarrow> bool \<Rightarrow> ('w \<Rightarrow> 'w \<times> (pathError + nat)) \<Rightarrow> 'w \<Rightarrow> 'w \<times> (pathError + nat)" where
  "raceAcquisitionAgainstContext K inFlight ctxWon acquire w =
     (if inFlight \<ge> maxOutstandingWriteAcquisitions then (w, Inl (ErrOther ''too many in-flight write acquisitions''))
      else (case acquire w of
              (w, Inl e) \<Rightarrow> (w, Inl (if ctxWon then ErrContext else e))
            | (w, Inr f) \<Rightarrow> if ctxWon then (fst (k_close K f w), Inl ErrContext) else (w, Inr f)))"

definition acquireWriteHandleBounded ::
  "'w kernel \<Rightarrow> nat \<Rightarrow> bool \<Rightarrow> Sandbox option \<Rightarrow> bytes \<Rightarrow> bytes \<Rightarrow> fileInfo option \<Rightarrow> 'w \<Rightarrow> 'w \<times> (pathError + nat)" where
  "acquireWriteHandleBounded K inFlight ctxWon s path cwd expectedIdentity =
     raceAcquisitionAgainstContext K inFlight ctxWon (acquireWriteHandle K s path cwd expectedIdentity)"

definition writeAndTruncateBounded ::
  "'w kernel \<Rightarrow> (nat \<Rightarrow> bool) \<Rightarrow> nat \<Rightarrow> bool \<Rightarrow> nat \<Rightarrow> bytes \<Rightarrow> 'w \<Rightarrow> 'w \<times> bool \<times> pathError option" where
  "writeAndTruncateBounded K ctx inFlight ctxWon f data w =
     (if inFlight \<ge> maxOutstandingWriteAcquisitions
      then (fst (k_close K f w), False, Some (ErrOther ''too many in-flight write acquisitions''))
      else (let (w, mutated, err) = writeAndTruncateSync K ctx 1 f data w
            in if ctxWon then (w, True, Some (ErrOther ''write outcome unknown'')) else (w, mutated, err)))"

text \<open>\<open>race\<close> gives the two races: slots taken and winner.\<close>

definition WriteRegularFile ::
  "'w kernel \<Rightarrow> (nat \<Rightarrow> bool) \<Rightarrow> (nat \<times> bool) \<times> nat \<times> bool \<Rightarrow> Sandbox option \<Rightarrow> bytes \<Rightarrow> bytes \<Rightarrow> bytes \<Rightarrow> fileInfo option \<Rightarrow> 'w
   \<Rightarrow> 'w \<times> bool \<times> pathError option" where
  "WriteRegularFile K ctx race s path cwd data expectedIdentity w =
     (case s of
        None \<Rightarrow> (w, False, Some ErrPermission)
      | Some sb \<Rightarrow>
          if readOnly sb then (w, False, Some ErrPermission)
          else if ctx 0 then (w, False, Some ErrContext)
          else
            (case acquireWriteHandleBounded K (fst (fst race)) (snd (fst race)) s path cwd expectedIdentity w of
               (w, Inl e) \<Rightarrow> (w, False, Some e)
             | (w, Inr f) \<Rightarrow> writeAndTruncateBounded K ctx (fst (snd race)) (snd (snd race)) f data w))"

section \<open>Removing\<close>

definition Remove :: "'w kernel \<Rightarrow> Sandbox option \<Rightarrow> bytes \<Rightarrow> bytes \<Rightarrow> 'w \<Rightarrow> 'w \<times> pathError option" where
  "Remove K s path cwd w =
     (case s of
        None \<Rightarrow> (w, Some ErrPermission)
      | Some sb \<Rightarrow>
          if readOnly sb then (w, Some ErrPermission)
          else
            (let requiresDir = HasTrailingDirSyntax path;
                 absp = toAbs path cwd
             in case resolveRemoveTarget K w s absp of
                  None \<Rightarrow> (w, Some ErrPermission)
                | Some (ar, relPath) \<Rightarrow>
                    if requiresDir \<and> resolveRootFollowingSymlinks K w s absp False = None
                    then (w, Some ErrPermission)
                    else
                      (let relPath = (if requiresDir \<and> \<not> HasTrailingDirSyntax relPath
                                      then relPath @ ''/'' else relPath)
                       in removeFile K (rt_root ar) (rt_writeRoot ar) relPath w)))"

section \<open>Listing\<close>

type_synonym dirEntry = "bytes \<times> fileType"

definition MaxGlobEntries :: int where "MaxGlobEntries = 10000"

text \<open>\<open>readDir f n\<close> is the directory descriptor's \<^verbatim>\<open>ReadDir\<close>: the entries and the error, if any,
  the end of the directory not being one.\<close>

definition readDirN ::
  "'w kernel \<Rightarrow> (nat \<Rightarrow> int \<Rightarrow> dirEntry list \<times> pathError option) \<Rightarrow> 'w \<Rightarrow> Sandbox option \<Rightarrow> bytes \<Rightarrow> bytes \<Rightarrow> int
   \<Rightarrow> pathError + dirEntry list" where
  "readDirN K readDir w s path cwd maxEntries =
     (let absp = toAbs path cwd in
      case resolve s absp of
        None \<Rightarrow> if maxEntries > 0 \<and> isAncestorOfRoot s absp then Inr [] else Inl ErrPermission
      | Some (ar, relPath) \<Rightarrow>
          sbind (openWithSymlinkFallback K w s (rt_root ar) relPath absp) (\<lambda>f.
            (let (entries, err) = readDir f (if maxEntries \<le> 0 then -1 else maxEntries + 1) in
             case err of
               Some e \<Rightarrow> Inl e
             | None \<Rightarrow>
                 if maxEntries > 0 \<and> int (length entries) > maxEntries then Inl ErrTooManyEntries
                 else Inr (sort_key fst entries))))"

text \<open>The batches a directory delivers, each with whether more may follow, the directory ended
  or the read failed.  The loop ends at the first batch that does not promise more; a directory
  that ends without saying so is read as ended.\<close>

datatype readStatus = ReadMore | ReadEOF | ReadFailed pathError

type_synonym batches = "(dirEntry list \<times> readStatus) list"

fun skipOffset :: "nat \<Rightarrow> nat \<Rightarrow> dirEntry list \<Rightarrow> nat \<times> dirEntry list" where
  "skipOffset offset skipped [] = (skipped, [])"
| "skipOffset offset skipped (e # es) =
     (if skipped < offset then skipOffset offset (skipped + 1) es
      else (let (sk, rest) = skipOffset offset skipped es in (sk, e # rest)))"

fun collectLoop ::
  "batches \<Rightarrow> nat \<Rightarrow> nat \<Rightarrow> nat \<Rightarrow> dirEntry list \<Rightarrow> dirEntry list \<times> bool \<times> pathError option" where
  "collectLoop [] offset maxRead skipped entries = (entries, False, None)"
| "collectLoop ((batch, st) # bs) offset maxRead skipped entries =
     (let (skipped, new) = skipOffset offset skipped batch;
          entries = entries @ new;
          lastErr = (case st of ReadFailed e \<Rightarrow> Some e | _ \<Rightarrow> None)
      in if length entries > maxRead then (entries, True, lastErr)
         else if st \<noteq> ReadMore then (entries, False, lastErr)
         else collectLoop bs offset maxRead skipped entries)"

definition CollectDirEntries :: "batches \<Rightarrow> nat \<Rightarrow> nat \<Rightarrow> dirEntry list \<times> bool \<times> pathError option" where
  "CollectDirEntries bs offset maxRead =
     (let (entries, truncated, lastErr) = collectLoop bs offset maxRead 0 [];
          entries = sort_key fst entries
      in (if truncated \<and> length entries > maxRead then take maxRead entries else entries,
          truncated, lastErr))"

definition ReadDirLimited ::
  "'w kernel \<Rightarrow> (nat \<Rightarrow> batches) \<Rightarrow> 'w \<Rightarrow> Sandbox option \<Rightarrow> bytes \<Rightarrow> bytes \<Rightarrow> int \<Rightarrow> int
   \<Rightarrow> (dirEntry list \<times> bool) \<times> pathError option" where
  "ReadDirLimited K readBatches w s path cwd offset maxRead =
     (let absp = toAbs path cwd in
      case resolve s absp of
        None \<Rightarrow> (([], False), Some ErrPermission)
      | Some (ar, relPath) \<Rightarrow>
          (case openWithSymlinkFallback K w s (rt_root ar) relPath absp of
             Inl e \<Rightarrow> (([], False), Some e)
           | Inr f \<Rightarrow>
               (let offset = (if offset < 0 then 0 else offset) in
                if maxRead \<le> 0 then (([], False), None)
                else (let (entries, truncated, lastErr) =
                        CollectDirEntries (readBatches f) (nat offset) (nat maxRead)
                      in ((entries, truncated), lastErr)))))"

section \<open>The advisory check and the configuration\<close>

definition Sandbox_CheckPath ::
  "'w kernel \<Rightarrow> 'w \<Rightarrow> Sandbox option \<Rightarrow> bytes \<Rightarrow> bytes \<Rightarrow> PathOperation \<Rightarrow> pathError option" where
  "Sandbox_CheckPath K w s path cwd operation =
     (if (operation = PathStat \<or> operation = PathLstat) \<and> IsDevNull path then None
      else
        (let absp = toAbs path cwd in
         case s of
           None \<Rightarrow> Some ErrPermission
         | Some sb \<Rightarrow>
             if operation = PathRead \<or> operation = PathStat \<or> operation = PathLstat then
               (case resolve s absp of
                  None \<Rightarrow> Some ErrPermission
                | Some (ar, rel) \<Rightarrow>
                    (let res = (if operation = PathLstat then k_rootLstat K (rt_root ar) rel w
                                else k_rootStat K (rt_root ar) rel w)
                     in if res = Inl ErrPathEscape \<and>
                           resolveRootFollowingSymlinks K w s absp (operation = PathLstat) = None
                        then Some ErrPermission else None))
             else if operation \<noteq> PathWrite \<and> operation \<noteq> PathRemove then Some ErrUnknownOperation
             else if readOnly sb then Some ErrPermission
             else
               (case (if operation = PathRemove then resolveRemoveTarget K w s absp
                      else resolveWriteTarget K w s absp) of
                  None \<Rightarrow> Some ErrPermission
                | Some (ar, rel) \<Rightarrow>
                    (case rejectSymlinkPathComponents K w (rt_root ar) rel (operation = PathWrite) of
                       Some e \<Rightarrow> Some e
                     | None \<Rightarrow>
                         (case k_rootLstat K (rt_root ar) rel w of
                            Inl _ \<Rightarrow> None
                          | Inr info \<Rightarrow>
                              if operation = PathRemove then
                                (if fi_type info = DirType then Some ErrIsDirectory else None)
                              else if fi_type info \<noteq> RegularType then Some ErrNotRegularFile
                              else (case fileLinkCount info of
                                      Some links \<Rightarrow> if links > 1 then Some ErrMultiplyLinkedWriteTarget else None
                                    | None \<Rightarrow> None))))))"

definition SetHostPrefix :: "bytes \<Rightarrow> Sandbox \<Rightarrow> Sandbox" where
  "SetHostPrefix pfx sb = sb\<lparr>hostPrefix := Clean pfx\<rparr>"

definition SetWritable :: "Sandbox \<Rightarrow> Sandbox" where
  "SetWritable sb = sb\<lparr>readOnly := False\<rparr>"

fun canonicalizeFrom :: "root list \<Rightarrow> bytes \<Rightarrow> bytes" where
  "canonicalizeFrom [] absp = absp"
| "canonicalizeFrom (r # rs) absp =
     (if rt_canonicalAbsPath r = [] \<or> rt_canonicalAbsPath r = rt_absPath r then canonicalizeFrom rs absp
      else (case Rel (rt_absPath r) absp of
              Inl _ \<Rightarrow> canonicalizeFrom rs absp
            | Inr rel \<Rightarrow>
                if rel = ''..'' \<or> hasPrefix rel ''../'' then canonicalizeFrom rs absp
                else if rel = ''.'' then rt_canonicalAbsPath r
                else Join (rt_canonicalAbsPath r) rel))"

definition CanonicalizeRootPrefix :: "Sandbox option \<Rightarrow> bytes \<Rightarrow> bytes" where
  "CanonicalizeRootPrefix s absp =
     (case s of None \<Rightarrow> absp | Some sb \<Rightarrow> canonicalizeFrom (sb_roots sb) absp)"

definition Paths :: "Sandbox option \<Rightarrow> bytes list" where
  "Paths s = (case s of None \<Rightarrow> [] | Some sb \<Rightarrow> map rt_absPath (sb_roots sb))"

definition PathAccesses :: "Sandbox option \<Rightarrow> (bytes \<times> bool) list" where
  "PathAccesses s =
     (case s of None \<Rightarrow> [] | Some sb \<Rightarrow>
        map (\<lambda>r. (rt_absPath r, rt_mode r = pathModeReadWrite)) (sb_roots sb))"

text \<open>Construction.  The calls on the ambient file system are the fields of \<open>opener\<close>; an entry
  whose root cannot be opened, or changed meanwhile, is skipped.  The warnings are left out.\<close>

record opener =
  op_getwd :: "bytes option"
  op_openRoot :: "bytes \<Rightarrow> pathError + nat"
  op_evalSymlinks :: "bytes \<Rightarrow> pathError + bytes"
  op_stat :: "bytes \<Rightarrow> pathError + fileInfo"

definition filepath_Abs :: "opener \<Rightarrow> bytes \<Rightarrow> pathError + bytes" where
  "filepath_Abs Op p =
     (if IsAbs p then Inr (Clean p)
      else (case op_getwd Op of None \<Rightarrow> Inl (ErrOther ''getwd'') | Some wd \<Rightarrow> Inr (Join wd p)))"

definition sameOpenedRootAndPath :: "'w kernel \<Rightarrow> 'w \<Rightarrow> opener \<Rightarrow> nat \<Rightarrow> bytes \<Rightarrow> pathError + bool" where
  "sameOpenedRootAndPath K w Op r path =
     sbind (k_rootStat K r ''.'' w) (\<lambda>rootInfo.
     sbind (op_stat Op path) (\<lambda>pathInfo.
       if fi_sys rootInfo = None \<or> fi_sys pathInfo = None then Inr False
       else Inr (fi_dev rootInfo = fi_dev pathInfo \<and> fi_ino rootInfo = fi_ino pathInfo)))"

definition canonicalForOpenedRoot :: "'w kernel \<Rightarrow> 'w \<Rightarrow> opener \<Rightarrow> bytes \<Rightarrow> nat \<Rightarrow> pathError + bytes" where
  "canonicalForOpenedRoot K w Op absp r =
     (let canonical = (case op_evalSymlinks Op absp of Inl _ \<Rightarrow> absp | Inr c \<Rightarrow> c) in
      sbind (sameOpenedRootAndPath K w Op r canonical) (\<lambda>same.
        if \<not> same then Inl (ErrOther ''path changed while opening root'') else Inr canonical))"

definition openEntry :: "'w kernel \<Rightarrow> 'w \<Rightarrow> opener \<Rightarrow> bytes \<Rightarrow> pathError + root" where
  "openEntry K w Op raw =
     (let (p, mode, _) = splitAllowedPathMode raw in
      sbind (filepath_Abs Op p) (\<lambda>absp.
      sbind (op_openRoot Op absp) (\<lambda>r.
      sbind (canonicalForOpenedRoot K w Op absp r) (\<lambda>canonical.
      sbind (k_rootStat K r ''.'' w) (\<lambda>identity.
      sbind (if mode = pathModeReadWrite
             then sbind (k_rootOpen K r ''.'' O_RDONLY w) (\<lambda>f. Inr (Some f)) else Inr None) (\<lambda>writeRoot.
      Inr \<lparr>rt_absPath = absp, rt_canonicalAbsPath = canonical, rt_mode = mode, rt_root = r,
           rt_writeRoot = writeRoot, rt_identity = Some identity\<rparr>))))))"

definition New :: "'w kernel \<Rightarrow> 'w \<Rightarrow> opener \<Rightarrow> bytes list \<Rightarrow> Sandbox" where
  "New K w Op paths =
     \<lparr>sb_roots = List.map_filter (\<lambda>raw. case openEntry K w Op raw of Inl _ \<Rightarrow> None | Inr r \<Rightarrow> Some r) paths,
      hostPrefix = [], readOnly = True\<rparr>"

end
