(* ===== verification/Sandbox_Policy.thy ===== *)
theory Sandbox_Policy
  imports Sandbox_Ops "HOL-Library.Multiset"
begin

text \<open>
  What the sandbox guarantees: a read-only sandbox changes nothing, a change needs a
  governing read-write grant and no read-only root on the way, links never lead out of the
  configured roots, a rewrite reports truthfully whether it touched the file, and listings
  are bounded.  The sandbox implements the interface \<open>path_policy\<close>.
\<close>

section \<open>Resolution\<close>

definition sandboxOk :: "Sandbox \<Rightarrow> bool" where
  "sandboxOk sb \<longleftrightarrow> (\<forall>r\<in>set (sb_roots sb). cleanAbs (rt_absPath r))"

definition sandboxGrants :: "Sandbox option \<Rightarrow> (bytes \<times> pathMode) list" where
  "sandboxGrants s = (case s of None \<Rightarrow> [] | Some sb \<Rightarrow> map (\<lambda>r. (rt_absPath r, rt_mode r)) (sb_roots sb))"

lemma Join_abs: "IsAbs a \<Longrightarrow> cleanAbs (Join a b)"
proof -
  assume a: "IsAbs a"
  then have "IsAbs (a @ chSlash # b)" by (auto simp: IsAbs_def)
  then show ?thesis using a by (simp add: Join_def cleanAbs_def Clean_Clean IsAbs_def [of a])
qed

lemma New_ok:
  assumes "\<And>wd. op_getwd Op = Some wd \<Longrightarrow> IsAbs wd"
  shows "sandboxOk (New K w Op paths)"
proof -
  have "cleanAbs (rt_absPath r)" if "openEntry K w Op raw = Inr r" for raw r
  proof -
    from that obtain p absp where p: "filepath_Abs Op p = Inr absp" "rt_absPath r = absp"
      by (auto simp: openEntry_def sbind_Inr_iff Let_def split: prod.splits)
    have "cleanAbs absp" if "filepath_Abs Op q = Inr absp" for q
      using that assms Join_abs IsAbs_Clean
      by (auto simp: filepath_Abs_def cleanAbs_def Clean_Clean split: if_splits option.splits)
    then show ?thesis using p by simp
  qed
  then show ?thesis
    by (auto simp: sandboxOk_def New_def List.map_filter_def split: sum.splits)
qed

lemma resolve_selected:
  "resolve (Some sb) absp = Some (ar, rel) \<Longrightarrow> selected absp rt_absPath (sb_roots sb) (Some (ar, rel))"
  using resolvePath_selected [of absp rt_absPath "sb_roots sb" None]
  by (simp add: resolve_def resolveBy_def)

lemma resolve_governs:
  assumes "sandboxOk sb" "resolve (Some sb) absp = Some (ar, rel)"
  shows "IsAbs absp" "governs (sandboxGrants (Some sb)) (rt_absPath ar, rt_mode ar) absp"
  using governs_selected(1) [OF resolve_selected [OF assms(2)]]
    governs_selected(2) [OF resolve_selected [OF assms(2)], of rt_mode] assms(1)
  by (simp_all add: sandboxOk_def sandboxGrants_def)

lemma resolveModeChecked_resolve:
  assumes "resolveModeCheckedTarget K w s absp preserveLast = Some (ar, rel)"
  obtains sb where "s = Some sb" "resolve (Some sb) absp = Some (ar, rel)" "rt_mode ar = pathModeReadWrite"
    "\<not> reachesReadOnlyRoot K w sb ar rel preserveLast"
  using assms
  by (auto simp: resolveModeCheckedTarget_def Let_def split: option.splits prod.splits if_splits)

lemmas target_defs = resolveWriteTarget_def resolveRemoveTarget_def

interpretation sandbox: path_policy
  "\<lambda>s. case s of None \<Rightarrow> True | Some sb \<Rightarrow> sandboxOk sb" sandboxGrants "Sandbox_CheckPath K w" for K w
proof (unfold_locales, goal_cases)
  case (1 s path cwd op)
  then obtain sb where s: "s = Some sb" "sandboxOk sb"
    by (auto simp: Sandbox_CheckPath_def split: option.splits if_splits)
  have "\<exists>ar rel pl. resolveModeCheckedTarget K w s (toAbs path cwd) pl = Some (ar, rel)"
    using 1(2,3) s(1)
    by (auto simp: Sandbox_CheckPath_def target_defs Let_def split: if_splits option.splits)
  then obtain ar rel pl where "resolveModeCheckedTarget K w s (toAbs path cwd) pl = Some (ar, rel)" by blast
  then have r: "resolve (Some sb) (toAbs path cwd) = Some (ar, rel)" "rt_mode ar = pathModeReadWrite"
    using s(1) by (auto elim: resolveModeChecked_resolve)
  show ?case
    using resolve_governs [OF s(2) r(1)] r(2) s(1)
    by (auto intro!: exI [of _ "(rt_absPath ar, rt_mode ar)"])
next
  case (2 s path cwd)
  then obtain sb ar rel where "s = Some sb" "sandboxOk sb" "resolve (Some sb) (toAbs path cwd) = Some (ar, rel)"
    by (auto simp: Sandbox_CheckPath_def Let_def split: option.splits if_splits)
  then show ?case
    using resolve_governs(2) [of sb "toAbs path cwd" ar rel]
    by (intro bexI [of _ "(rt_absPath ar, rt_mode ar)"]) (simp_all add: governs_def)
next
  case (3 s path cwd x)
  then show ?case by (auto simp: Sandbox_CheckPath_def split: option.splits)
qed

section \<open>Changes need a read-write grant\<close>

lemma openTarget_None:
  "resolveWriteTarget K w s (toAbs path cwd) = None \<Longrightarrow> openTarget K s path cwd flag perm w = (w, Inl ErrPermission)"
  by (simp add: openTarget_def)

definition refused :: "'w kernel \<Rightarrow> 'w \<Rightarrow> Sandbox option \<Rightarrow> bytes \<Rightarrow> bool" where
  "refused K w s absp \<longleftrightarrow> s = None \<or> readOnly (the s) \<or>
     resolveWriteTarget K w s absp = None \<and> resolveRemoveTarget K w s absp = None"

lemma Open_refused: "refused K w s (toAbs path cwd) \<Longrightarrow> fst (Sandbox_Open K s path cwd flag perm w) = w"
  by (cases s; cases "flag AND writeOpenFlags = 0")
    (auto simp: refused_def Sandbox_Open_def Let_def split: option.split prod.split sum.split)

lemma Truncate_refused: "refused K w s (toAbs path cwd) \<Longrightarrow> fst (Truncate K s path cwd newSize create w) = w"
  by (cases s) (auto simp: refused_def Truncate_def Let_def openTarget_None)

lemma TruncateToZero_refused:
  "refused K w s (toAbs path cwd) \<Longrightarrow> fst (TruncateToZeroIfAtLeast K s path cwd minSize dryRun w) = w"
  by (cases s) (auto simp: refused_def TruncateToZeroIfAtLeast_def openTarget_None)

lemma WriteRegularFile_refused:
  "refused K w s (toAbs path cwd) \<Longrightarrow>
     fst (WriteRegularFile K ctx race s path cwd data ident w) = w"
  by (cases s) (auto simp: refused_def WriteRegularFile_def acquireWriteHandleBounded_def
        raceAcquisitionAgainstContext_def acquireWriteHandle_def openTarget_None)

lemma Remove_refused: "refused K w s (toAbs path cwd) \<Longrightarrow> fst (Remove K s path cwd w) = w"
  by (cases s) (auto simp: refused_def Remove_def)

text \<open>The state each mutating operation of the sandbox can leave.\<close>

inductive sandboxChange :: "'w kernel \<Rightarrow> Sandbox option \<Rightarrow> bytes \<Rightarrow> bytes \<Rightarrow> 'w \<Rightarrow> 'w \<Rightarrow> bool"
  for K s path cwd w where
  "sandboxChange K s path cwd w (fst (Sandbox_Open K s path cwd flag perm w))"
| "sandboxChange K s path cwd w (fst (Truncate K s path cwd newSize create w))"
| "sandboxChange K s path cwd w (fst (TruncateToZeroIfAtLeast K s path cwd minSize dryRun w))"
| "sandboxChange K s path cwd w (fst (WriteRegularFile K ctx race s path cwd data ident w))"
| "sandboxChange K s path cwd w (fst (Remove K s path cwd w))"

lemma sandboxChange_target:
  assumes "sandboxChange K s path cwd w w'" "w' \<noteq> w"
  shows "\<exists>sb pl ar rel. s = Some sb \<and> \<not> readOnly sb \<and>
    resolveModeCheckedTarget K w s (toAbs path cwd) pl = Some (ar, rel)"
proof -
  have "\<not> refused K w s (toAbs path cwd)"
    using assms
    by cases (auto simp: Open_refused Truncate_refused TruncateToZero_refused WriteRegularFile_refused Remove_refused)
  then show ?thesis by (auto simp: refused_def target_defs) blast+
qed


text \<open>C3. Every change is governed by a read-write grant: if an operation changes the file
  system, the sandbox is writable and the most specific root that contains the path, among all
  configured roots, is read-write.\<close>

theorem changes_need_rw_grant:
  assumes "sandboxOk sb" "sandboxChange K (Some sb) path cwd w w'" "w' \<noteq> w"
  shows "\<not> readOnly sb \<and> (\<exists>g. governs (sandboxGrants (Some sb)) g (toAbs path cwd) \<and> snd g = pathModeReadWrite)"
proof -
  obtain pl ar rel where t: "\<not> readOnly sb"
    "resolveModeCheckedTarget K w (Some sb) (toAbs path cwd) pl = Some (ar, rel)"
    using sandboxChange_target [OF assms(2,3)] by auto
  then have "resolve (Some sb) (toAbs path cwd) = Some (ar, rel)" "rt_mode ar = pathModeReadWrite"
    by (auto elim: resolveModeChecked_resolve)
  then show ?thesis
    using resolve_governs(2) [OF assms(1), of "toAbs path cwd" ar rel] t(1) by (metis snd_conv)
qed

section \<open>Aliases of read-only roots\<close>

lemma reachesFrom_False:
  assumes "\<not> reachesFrom K w ros rt preserveLast components is" "i \<in> set is" "sorted is" "distinct is"
    "components ! i \<noteq> ''.''"
    "\<forall>j\<in>set is. j \<le> i \<longrightarrow> components ! j \<noteq> ''.'' \<longrightarrow> (\<exists>info.
       (if preserveLast \<and> j + 1 = length components then k_rootLstat K rt (joinWith chSlash (take (j + 1) components)) w
        else k_rootStat K rt (joinWith chSlash (take (j + 1) components)) w) = Inr info)"
  shows "\<exists>info. (if preserveLast \<and> i + 1 = length components then k_rootLstat K rt (joinWith chSlash (take (i + 1) components)) w
      else k_rootStat K rt (joinWith chSlash (take (i + 1) components)) w) = Inr info \<and> \<not> matchesAny ros info"
  using assms
proof (induction "is")
  case (Cons k ks)
  have le: "k \<le> i" using Cons.prems(2,3) by auto
  show ?case
  proof (cases "i = k")
    case True
    then show ?thesis using Cons.prems(1,5,6) by (auto simp: Let_def split: if_splits)
  next
    case False
    then have i: "i \<in> set ks" using Cons.prems(2) by simp
    have "\<not> reachesFrom K w ros rt preserveLast components ks"
    proof (cases "components ! k = ''.''")
      case True
      then show ?thesis using Cons.prems(1) by simp
    next
      case False
      then have "\<exists>info. (if preserveLast \<and> k + 1 = length components then k_rootLstat K rt (joinWith chSlash (take (k + 1) components)) w
        else k_rootStat K rt (joinWith chSlash (take (k + 1) components)) w) = Inr info"
        using Cons.prems(6) le by (metis list.set_intros(1))
      then show ?thesis using Cons.prems(1) False by (auto simp: Let_def split: if_splits)
    qed
    then show ?thesis using Cons.IH i Cons.prems(3-6) by auto
  qed
qed simp

text \<open>C19. No alias reaches a read-only root: on the way to an accepted write target, neither the
  root directory itself nor any existing directory the path walks through is, by device and
  inode, the directory of a read-only root, however the path spells it.\<close>

theorem no_alias_of_read_only_root:
  assumes "resolveWriteTarget K w (Some sb) absp = Some (ar, rel)"
    "r \<in> set (sb_roots sb)" "rt_mode r = pathModeReadOnly" "rt_identity r = Some ro"
    "components = splitOn chSlash (Clean rel)" "i < length components" "components ! i \<noteq> ''.''"
    "\<forall>j \<le> i. components ! j \<noteq> ''.'' \<longrightarrow>
       (\<exists>info. k_rootStat K (rt_root ar) (joinWith chSlash (take (j + 1) components)) w = Inr info)"
  shows "(\<forall>own. rt_identity ar = Some own \<longrightarrow> \<not> SameFile ro own) \<and>
    (\<exists>info. k_rootStat K (rt_root ar) (joinWith chSlash (take (i + 1) components)) w = Inr info \<and>
       \<not> SameFile ro info)"
proof -
  have no: "\<not> reachesReadOnlyRoot K w sb ar rel False"
    using assms(1) by (auto simp: target_defs elim: resolveModeChecked_resolve)
  have ro: "ro \<in> set (readOnlyIdentities sb)"
    using assms(2-4) by (force simp: readOnlyIdentities_def List.map_filter_def)
  then have ne: "readOnlyIdentities sb \<noteq> []" by auto
  have own: "\<not> SameFile ro own" if "rt_identity ar = Some own" for own
    using no ne ro that by (auto simp: reachesReadOnlyRoot_def Let_def matchesAny_def list_ex_iff split: if_splits)
  have "\<not> reachesFrom K w (readOnlyIdentities sb) (rt_root ar) False components [0..<length components]"
    using no ne assms(5) by (auto simp: reachesReadOnlyRoot_def Let_def split: if_splits)
  then obtain info where "k_rootStat K (rt_root ar) (joinWith chSlash (take (i + 1) components)) w = Inr info"
    "\<not> matchesAny (readOnlyIdentities sb) info"
    using reachesFrom_False [of K w "readOnlyIdentities sb" "rt_root ar" False components "[0..<length components]" i]
      assms(6-8) by auto
  then show ?thesis using own ro by (auto simp: matchesAny_def list_ex_iff)
qed

section \<open>Links across roots\<close>

lemma walkLinks_Stop:
  assumes "walkLinks K w sb ar absp preserveLast components is = WalkStop" "i \<in> set is" "sorted is"
    "components ! i \<noteq> ''.''" "\<forall>j\<in>set is. preserveLast \<longrightarrow> j \<le> i \<longrightarrow> j + 1 \<noteq> length components"
    "\<forall>j\<in>set is. j \<le> i \<longrightarrow> components ! j \<noteq> ''.'' \<longrightarrow>
       (\<exists>info. k_rootLstat K (rt_root ar) (joinWith chSlash (take (j + 1) components)) w = Inr info)"
  shows "\<exists>info. k_rootLstat K (rt_root ar) (joinWith chSlash (take (i + 1) components)) w = Inr info \<and>
    fi_type info \<noteq> SymlinkType"
  using assms
proof (induction "is")
  case (Cons k ks)
  have k: "k \<le> i" using Cons.prems(2,3) by auto
  show ?case
  proof (cases "components ! k = ''.''")
    case True
    then show ?thesis using Cons by auto
  next
    case False
    then obtain info where info: "k_rootLstat K (rt_root ar) (joinWith chSlash (take (k + 1) components)) w = Inr info"
      using Cons.prems(6) k by (metis list.set_intros(1))
    have "\<not> (preserveLast \<and> k + 1 = length components)" using Cons.prems(5) k by auto
    then have "fi_type info \<noteq> SymlinkType" "walkLinks K w sb ar absp preserveLast components ks = WalkStop"
      using Cons.prems(1) False info by (auto simp: Let_def split: if_splits sum.splits)
    then show ?thesis using Cons info by (cases "i = k") auto
  qed
qed simp

lemma followLinks_Some:
  "followLinks K w sb preserveLast n absp = Some (r, rel) \<Longrightarrow>
     \<exists>absp'. resolve (Some sb) absp' = Some (r, rel) \<and>
       walkLinks K w sb r absp' preserveLast (splitOn chSlash rel) [0..<length (splitOn chSlash rel)] = WalkStop"
proof (induction n arbitrary: absp)
  case (Suc n)
  then show ?case
    by (auto simp: Let_def simp del: splitOn.simps walkLinks.simps split: option.splits linkWalk.splits)
qed simp

text \<open>C20. Links never lead out of the configured roots: when resolution across links answers, after
  at most eleven rounds, it names a root of the sandbox and a path that stays below it, and no
  existing component of that path is a link any more (the last one may be, when it is to be kept).\<close>

theorem links_stay_in_roots:
  assumes "sandboxOk sb" "resolveRootFollowingSymlinks K w (Some sb) absp preserveLast = Some (r, rel)"
  shows "r \<in> set (sb_roots sb) \<and> \<not> escapes rel \<and>
    (\<forall>i < length (splitOn chSlash rel). splitOn chSlash rel ! i \<noteq> ''.'' \<longrightarrow>
       (preserveLast \<longrightarrow> i + 1 < length (splitOn chSlash rel)) \<longrightarrow>
       (\<forall>j \<le> i. splitOn chSlash rel ! j \<noteq> ''.'' \<longrightarrow>
         (\<exists>info. k_rootLstat K (rt_root r) (joinWith chSlash (take (j + 1) (splitOn chSlash rel))) w = Inr info)) \<longrightarrow>
       (\<exists>info. k_rootLstat K (rt_root r) (joinWith chSlash (take (i + 1) (splitOn chSlash rel))) w = Inr info \<and>
          fi_type info \<noteq> SymlinkType))"
proof -
  obtain absp' where r: "resolve (Some sb) absp' = Some (r, rel)"
    and stop: "walkLinks K w sb r absp' preserveLast (splitOn chSlash rel) [0..<length (splitOn chSlash rel)] = WalkStop"
    using followLinks_Some [of K w sb preserveLast "maxSymlinkHops + 1" "Clean absp" r rel] assms(2)
    unfolding resolveRootFollowingSymlinks_def option.case by blast
  have "r \<in> set (sb_roots sb)" "\<not> escapes rel"
    using resolve_selected [OF r] by (auto simp: selected_def covers_def)
  moreover have "\<exists>info. k_rootLstat K (rt_root r) (joinWith chSlash (take (i + 1) (splitOn chSlash rel))) w = Inr info \<and>
      fi_type info \<noteq> SymlinkType"
    if "i < length (splitOn chSlash rel)" "splitOn chSlash rel ! i \<noteq> ''.''"
      "preserveLast \<longrightarrow> i + 1 < length (splitOn chSlash rel)"
      "\<forall>j \<le> i. splitOn chSlash rel ! j \<noteq> ''.'' \<longrightarrow>
         (\<exists>info. k_rootLstat K (rt_root r) (joinWith chSlash (take (j + 1) (splitOn chSlash rel))) w = Inr info)" for i
    by (rule walkLinks_Stop [OF stop]) (use that in auto)
  ultimately show ?thesis by blast
qed

section \<open>Rewriting a file\<close>

text \<open>What the write loop relies on: a write without error takes all the bytes and puts them at
  the file offset, a write of no bytes changes nothing, truncation cuts or pads, a failed
  truncation and closing change no content.\<close>

definition fileCalls :: "'w kernel \<Rightarrow> nat \<Rightarrow> ('w \<Rightarrow> bytes) \<Rightarrow> ('w \<Rightarrow> nat) \<Rightarrow> bool" where
  "fileCalls K f content pos \<longleftrightarrow>
     (\<forall>d w w' n. k_write K f d w = (w', n, None) \<longrightarrow>
        n = length d \<and> pos w' = pos w + length d \<and>
        (pos w \<le> length (content w) \<longrightarrow>
           content w' = take (pos w) (content w) @ d @ drop (pos w + length d) (content w))) \<and>
     (\<forall>d w w' e. k_write K f d w = (w', 0, e) \<longrightarrow> content w' = content w) \<and>
     (\<forall>n w w'. k_ftruncate K f (int n) w = (w', None) \<longrightarrow>
        content w' = take n (content w) @ replicate (n - length (content w)) (CHR 0x00)) \<and>
     (\<forall>n w w' e. k_ftruncate K f n w = (w', Some e) \<longrightarrow> content w' = content w) \<and>
     (\<forall>w. content (fst (k_close K f w)) = content w)"

lemma writeChunked_step:
  assumes "data \<noteq> []" "\<not> ctx t" "chunk = take (min writeRegularFileChunkBytes (length data)) data"
    "k_write K f chunk w = (w1, n, werr)"
  shows "writeChunkedCancellable K ctx t f wroteAny data w =
    (if werr \<noteq> None then (w1, wroteAny \<or> n > 0, werr, t + 1)
     else writeChunkedCancellable K ctx (t + 1) f (wroteAny \<or> n > 0)
       (drop (min writeRegularFileChunkBytes (length data)) data) w1)"
  using assms by (subst writeChunkedCancellable.simps) (simp add: Let_def)

lemma writeChunked_complete:
  assumes "fileCalls K f content pos"
  shows "writeChunkedCancellable K ctx t f wroteAny data w = (w', any', None, t') \<Longrightarrow>
    pos w = length front \<Longrightarrow> content w = front @ drop (length front) old \<Longrightarrow>
    content w' = front @ data @ drop (length front + length data) old"
proof (induction "length data" arbitrary: data w t wroteAny front rule: less_induct)
  case less
  show ?case
  proof (cases "data = []")
    case True
    then show ?thesis using less.prems by (simp add: writeChunkedCancellable.simps)
  next
    case False
    define n where "n = min writeRegularFileChunkBytes (length data)"
    obtain w1 k werr where wr: "k_write K f (take n data) w = (w1, k, werr)" by (cases "k_write K f (take n data) w")
    have ctx: "\<not> ctx t"
      using less.prems(1) False by (auto simp: writeChunkedCancellable.simps split: if_splits)
    have ok: "werr = None" "writeChunkedCancellable K ctx (t + 1) f (wroteAny \<or> k > 0) (drop n data) w1 = (w', any', None, t')"
      using writeChunked_step [where K = K and ctx = ctx, OF False ctx refl wr [unfolded n_def]] less.prems(1)
      by (auto simp: n_def split: if_splits)
    have n: "0 < n" "n \<le> length data" using False by (auto simp: n_def writeRegularFileChunkBytes_def)
    have "content w' = (front @ take n data) @ drop n data @ drop (length (front @ take n data) + length (drop n data)) old"
    proof (rule less.hyps [OF _ ok(2)])
      show "length (drop n data) < length data" using n by simp
      show "pos w1 = length (front @ take n data)"
        using assms wr ok(1) less.prems(2) by (auto simp: fileCalls_def)
      show "content w1 = (front @ take n data) @ drop (length (front @ take n data)) old"
        using assms wr ok(1) less.prems(2,3) n by (simp add: fileCalls_def add.commute)
    qed
    then show ?thesis using n by simp
  qed
qed

lemma writeChunked_any:
  "fst (snd (writeChunkedCancellable K ctx t f True data w))"
proof (induction "length data" arbitrary: data w t rule: less_induct)
  case less
  show ?case
  proof (cases "data = [] \<or> ctx t")
    case True
    then show ?thesis by (auto simp: writeChunkedCancellable.simps)
  next
    case False
    define n where "n = min writeRegularFileChunkBytes (length data)"
    obtain w1 k werr where wr: "k_write K f (take n data) w = (w1, k, werr)" by (cases "k_write K f (take n data) w")
    have "length (drop n data) < length data" using False by (auto simp: n_def writeRegularFileChunkBytes_def)
    then show ?thesis
      using less writeChunked_step [OF _ _ refl wr [unfolded n_def]] False by (simp add: n_def)
  qed
qed

lemma writeChunked_untouched:
  assumes "fileCalls K f content pos"
  shows "writeChunkedCancellable K ctx t f wroteAny data w = (w', False, err, t') \<Longrightarrow> content w' = content w"
proof (induction "length data" arbitrary: data w t wroteAny rule: less_induct)
  case less
  show ?case
  proof (cases "data = [] \<or> ctx t")
    case True
    then show ?thesis using less.prems by (auto simp: writeChunkedCancellable.simps split: if_splits)
  next
    case False
    define n where "n = min writeRegularFileChunkBytes (length data)"
    obtain w1 k werr where wr: "k_write K f (take n data) w = (w1, k, werr)" by (cases "k_write K f (take n data) w")
    have st: "writeChunkedCancellable K ctx t f wroteAny data w =
      (if werr \<noteq> None then (w1, wroteAny \<or> k > 0, werr, t + 1)
       else writeChunkedCancellable K ctx (t + 1) f (wroteAny \<or> k > 0) (drop n data) w1)"
      using writeChunked_step [OF _ _ refl wr [unfolded n_def]] False by (simp add: n_def)
    have n: "0 < n" "n \<le> length data" using False by (auto simp: n_def writeRegularFileChunkBytes_def)
    show ?thesis
    proof (cases werr)
      case (Some e)
      then have "k = 0" "w' = w1" using st less.prems by auto
      then show ?thesis using assms wr unfolding fileCalls_def by blast
    next
      case None
      then have "k = length (take n data)" using assms wr unfolding fileCalls_def by blast
      then have "k = n" using n by simp
      then have "writeChunkedCancellable K ctx (t + 1) f True (drop n data) w1 = (w', False, err, t')"
        using st less.prems None n by simp
      then show ?thesis using writeChunked_any [of K ctx "t + 1" f "drop n data" w1] by simp
    qed
  qed
qed

text \<open>C21. A rewrite is complete or reported: when rewriting a file ends without an error the file
  holds exactly the given bytes, whatever it held before, and when it reports that nothing was
  touched the content is the old one, whether the cause was an early cancellation or a failing
  write.\<close>

theorem rewrite_complete_or_reported:
  assumes "fileCalls K f content pos" "pos w = 0"
    "writeAndTruncateSync K ctx t f data w = (w', mutated, err)"
  shows "(err = None \<longrightarrow> content w' = data) \<and> (\<not> mutated \<longrightarrow> content w' = content w)"
proof -
  obtain w1 any' werr t1 where wr: "writeChunkedCancellable K ctx t f False data w = (w1, any', werr, t1)"
    by (cases "writeChunkedCancellable K ctx t f False data w")
  obtain w2 terr where tr: "k_ftruncate K f (int (length data)) w1 = (w2, terr)"
    by (cases "k_ftruncate K f (int (length data)) w1")
  have close: "k_close K f v = (v', e) \<Longrightarrow> content v' = content v" for v v' e
    using assms(1) unfolding fileCalls_def by (metis fst_conv)
  have full: "content w1 = data @ drop (length data) (content w)" if "werr = None"
    using writeChunked_complete [OF assms(1), of ctx t False data w w1 any' t1 "[]" "content w"] wr assms(2) that by simp
  have same: "content w1 = content w" if "\<not> any'"
    using writeChunked_untouched [OF assms(1), of ctx t False data w w1 werr t1] wr that by simp
  have cut: "content w2 = data" if "werr = None" "terr = None"
    using full [OF that(1)] tr that(2) assms(1) by (auto simp: fileCalls_def)
  have uncut: "content w2 = content w1" if "terr \<noteq> None"
    using that tr assms(1) unfolding fileCalls_def by blast
  show ?thesis
    using assms(3) wr tr close cut uncut same
    by (auto simp: writeAndTruncateSync_def Let_def split: prod.splits if_splits)
qed

section \<open>Listing a directory\<close>

lemma skipOffset_drop:
  "skipped \<le> offset \<Longrightarrow>
     skipOffset offset skipped es = (min offset (skipped + length es), drop (offset - skipped) es)"
proof (induction es arbitrary: skipped)
  case (Cons e es)
  then show ?case
    by (cases "skipped < offset") (auto simp: Suc_diff_Suc [symmetric] Let_def min_def)
qed simp

fun delivered :: "batches \<Rightarrow> dirEntry list" where
  "delivered [] = []"
| "delivered ((batch, st) # bs) = batch @ (if st = ReadMore then delivered bs else [])"

lemma collectLoop_delivered:
  assumes "skipped \<le> offset" "collectLoop bs offset maxRead skipped entries = (es, truncated, err)"
    "length entries \<le> maxRead" "skipped < offset \<longrightarrow> entries = []"
  shows "\<exists>rest. entries @ drop (offset - skipped) (delivered bs) = es @ rest \<and>
    (truncated \<longleftrightarrow> length es > maxRead) \<and> (\<not> truncated \<longrightarrow> rest = [])"
  using assms
proof (induction bs arbitrary: skipped entries)
  case (Cons b bs)
  obtain batch st where b: "b = (batch, st)" by (cases b)
  define new where "new = drop (offset - skipped) batch"
  define sk where "sk = min offset (skipped + length batch)"
  have split: "drop (offset - skipped) (delivered (b # bs)) =
      new @ (if st = ReadMore then drop (offset - sk) (delivered bs) else [])"
    using Cons.prems(1) by (auto simp: b new_def sk_def min_def)
  have sk: "sk \<le> offset" "sk < offset \<longrightarrow> entries @ new = []"
    using Cons.prems(1,4) by (auto simp: sk_def new_def)
  have step: "collectLoop (b # bs) offset maxRead skipped entries =
      (let lastErr = (case st of ReadFailed e \<Rightarrow> Some e | _ \<Rightarrow> None)
       in if length (entries @ new) > maxRead then (entries @ new, True, lastErr)
          else if st \<noteq> ReadMore then (entries @ new, False, lastErr)
          else collectLoop bs offset maxRead sk (entries @ new))"
    using Cons.prems(1) by (simp add: b skipOffset_drop new_def sk_def Let_def)
  show ?case
  proof (cases "length (entries @ new) > maxRead \<or> st \<noteq> ReadMore")
    case True
    then show ?thesis
      using Cons.prems(2) unfolding step split by (auto simp: Let_def simp del: length_append split: if_splits)
  next
    case False
    then have "collectLoop bs offset maxRead sk (entries @ new) = (es, truncated, err)"
      using Cons.prems(2) unfolding step by (simp add: Let_def)
    then show ?thesis
      using Cons.IH [OF sk(1), of "entries @ new"] sk(2) False unfolding split by auto
  qed
qed auto

text \<open>C22. A limited listing is sorted, bounded and complete up to its limit: it holds as many of the
  entries after the offset as the limit allows, each as often as the directory delivered it, and
  says it was cut exactly when there were more.\<close>

theorem limited_listing:
  assumes "CollectDirEntries bs offset maxRead = (es, truncated, err)"
  shows "sorted (map fst es) \<and> mset es \<subseteq># mset (drop offset (delivered bs)) \<and>
    length es = min maxRead (length (drop offset (delivered bs))) \<and>
    (truncated \<longleftrightarrow> length (drop offset (delivered bs)) > maxRead)"
proof -
  obtain es' tr' err' where c: "collectLoop bs offset maxRead 0 [] = (es', tr', err')"
    by (cases "collectLoop bs offset maxRead 0 []")
  obtain rest where r: "drop offset (delivered bs) = es' @ rest" "tr' \<longleftrightarrow> length es' > maxRead" "\<not> tr' \<longrightarrow> rest = []"
    using collectLoop_delivered [OF _ c] by auto
  have es: "es = take maxRead (sort_key fst es')" "truncated = tr'"
    using assms c r(2) by (auto simp: CollectDirEntries_def Let_def)
  have "mset es \<subseteq># mset (sort_key fst es')"
    unfolding es by (metis append_take_drop_id mset_append mset_subset_eq_add_left)
  then have "mset es \<subseteq># mset es'" by simp
  then have sub: "mset es \<subseteq># mset (drop offset (delivered bs))"
    unfolding r(1) mset_append by (rule subset_mset.order_trans) simp
  have "sorted (map fst es)" unfolding es take_map [symmetric] by (rule sorted_wrt_take) simp
  moreover have "length es = min maxRead (length (drop offset (delivered bs)))"
    using r unfolding es r(1) by auto
  ultimately show ?thesis using r sub unfolding es(2) r(1) by auto
qed

section \<open>A concrete sandbox\<close>

text \<open>A writable root and a read-only one; the link \<open>l\<close> of the first leads into the second.\<close>

definition demoFs1 :: demoFs where
  "demoFs1 = demoFs0 @ [(5, NDir [(''p'', 6)]), (6, NFile 1 ''conf'')]"

definition demoSandbox :: Sandbox where
  "demoSandbox =
     \<lparr>sb_roots = [\<lparr>rt_absPath = ''/data'', rt_canonicalAbsPath = ''/data'', rt_mode = pathModeReadWrite, rt_root = 0,
                   rt_writeRoot = Some 0, rt_identity = Some (demoInfo (0, NDir []))\<rparr>,
                  \<lparr>rt_absPath = ''/etc'', rt_canonicalAbsPath = ''/etc'', rt_mode = pathModeReadOnly, rt_root = 5,
                   rt_writeRoot = None, rt_identity = Some (demoInfo (5, NDir []))\<rparr>],
      hostPrefix = [], readOnly = False\<rparr>"

lemma demoSandbox_ok: "sandboxOk demoSandbox"
  by code_simp


theorem changes_need_rw_grant_witness:
  "\<exists>g. governs (sandboxGrants (Some demoSandbox)) g (toAbs ''a/f'' ''/data'') \<and> snd g = pathModeReadWrite"
proof -
  have "resolveRemoveTarget demoKernel demoFs1 (Some demoSandbox) (toAbs ''a/f'' ''/data'') =
      Some (hd (sb_roots demoSandbox), ''a/f'')" "\<not> HasTrailingDirSyntax ''a/f''"
    "removeFile demoKernel 0 (Some 0) ''a/f'' demoFs1 = ((1, NDir [(''h'', 4)]) # demoFs1, None)"
    by code_simp+
  moreover have "\<not> readOnly demoSandbox" "rt_root (hd (sb_roots demoSandbox)) = 0"
    "rt_writeRoot (hd (sb_roots demoSandbox)) = Some 0" by (simp_all add: demoSandbox_def)
  ultimately have "fst (Remove demoKernel (Some demoSandbox) ''a/f'' ''/data'' demoFs1) \<noteq> demoFs1"
    by (simp add: Remove_def)
  from changes_need_rw_grant [OF demoSandbox_ok sandboxChange.intros(5) this] show ?thesis by (rule conjunct2)
qed

theorem no_alias_of_read_only_root_witness:
  "\<exists>info. k_rootStat demoKernel 0 ''a/f'' demoFs1 = Inr info \<and> \<not> SameFile (demoInfo (5, NDir [])) info"
proof -
  define ar where "ar = hd (sb_roots demoSandbox)"
  define r where "r = sb_roots demoSandbox ! 1"
  have "(\<forall>own. rt_identity ar = Some own \<longrightarrow> \<not> SameFile (demoInfo (5, NDir [])) own) \<and>
    (\<exists>info. k_rootStat demoKernel (rt_root ar) (joinWith chSlash (take (1 + 1) [''a'', ''f''])) demoFs1 = Inr info \<and>
       \<not> SameFile (demoInfo (5, NDir [])) info)"
  proof (rule no_alias_of_read_only_root)
    show "resolveWriteTarget demoKernel demoFs1 (Some demoSandbox) ''/data/a/f'' = Some (ar, ''a/f'')"
      unfolding ar_def by code_simp
    show "r \<in> set (sb_roots demoSandbox)" "rt_mode r = pathModeReadOnly" "rt_identity r = Some (demoInfo (5, NDir []))"
      by (simp_all add: r_def demoSandbox_def)
    show "[''a'', ''f''] = splitOn chSlash (Clean ''a/f'')" by code_simp
    have "k_rootStat demoKernel (rt_root ar) (joinWith chSlash (take (0 + 1) [''a'', ''f''])) demoFs1 =
        Inr (demoInfo (1, NDir [(''f'', 2), (''h'', 4)]))"
      "k_rootStat demoKernel (rt_root ar) (joinWith chSlash (take (1 + 1) [''a'', ''f''])) demoFs1 =
        Inr (demoInfo (2, NFile 1 ''xyz''))"
      unfolding ar_def by code_simp+
    then show "\<forall>j \<le> 1. [''a'', ''f''] ! j \<noteq> ''.'' \<longrightarrow>
      (\<exists>info. k_rootStat demoKernel (rt_root ar) (joinWith chSlash (take (j + 1) [''a'', ''f''])) demoFs1 = Inr info)"
      by (auto simp: le_Suc_eq)
  qed simp_all
  then show ?thesis by (simp add: ar_def demoSandbox_def)
qed

theorem links_stay_in_roots_witness:
  "sb_roots demoSandbox ! 1 \<in> set (sb_roots demoSandbox) \<and> \<not> escapes ''p''"
proof -
  have "resolveRootFollowingSymlinks demoKernel demoFs1 (Some demoSandbox) ''/data/l/p'' False =
      Some (sb_roots demoSandbox ! 1, ''p'')" by code_simp
  from links_stay_in_roots [OF demoSandbox_ok this] show ?thesis by blast
qed

text \<open>One open file: its content and the offset of the descriptor.\<close>

definition oneFile :: "(bytes \<times> nat) kernel" where
  "oneFile =
     \<lparr>k_openDir = (\<lambda>_ _ _. Inl ErrNotDirectory), k_openat = (\<lambda>_ _ _ _ w. (w, Inr 0)),
      k_fstatat = (\<lambda>_ _ _ _. Inl ErrNotExist), k_unlinkat = (\<lambda>_ _ w. (w, Some ErrPermission)),
      k_fstat = (\<lambda>_ w. Inr (demoInfo (0, NFile 1 (fst w)))),
      k_ftruncate = (\<lambda>_ n w. if n < 0 then (w, Some ErrInvalid)
        else ((take (nat n) (fst w) @ replicate (nat n - length (fst w)) (CHR 0x00), snd w), None)),
      k_write = (\<lambda>_ d w. if d = [] then (w, 0, None) else ((take (snd w) (fst w) @ replicate (snd w - length (fst w)) (CHR 0x00) @ d @
                           drop (snd w + length d) (fst w), snd w + length d), length d, None)),
      k_close = (\<lambda>_ w. (w, None)),
      k_rootLstat = (\<lambda>_ _ _. Inl ErrNotExist), k_rootStat = (\<lambda>_ _ _. Inl ErrNotExist),
      k_rootReadlink = (\<lambda>_ _ _. Inl ErrNotExist), k_rootOpen = (\<lambda>_ _ _ _. Inl ErrNotExist)\<rparr>"

lemma oneFile_calls: "fileCalls oneFile 0 fst snd"
  by (auto simp: fileCalls_def oneFile_def split: if_splits)

theorem rewrite_complete_or_reported_witness:
  "fst (fst (writeAndTruncateSync oneFile (\<lambda>_. False) 1 0 ''new'' (''longer than that'', 0))) = ''new''"
proof -
  obtain w' mutated err where
    r: "writeAndTruncateSync oneFile (\<lambda>_. False) 1 0 ''new'' (''longer than that'', 0) = (w', mutated, err)"
    by (cases "writeAndTruncateSync oneFile (\<lambda>_. False) 1 0 ''new'' (''longer than that'', 0)")
  have "snd (snd (writeAndTruncateSync oneFile (\<lambda>_. False) 1 0 ''new'' (''longer than that'', 0))) = None"
    by code_simp
  then have "err = None" using r by simp
  moreover have "(err = None \<longrightarrow> fst w' = ''new'') \<and> (\<not> mutated \<longrightarrow> fst w' = fst (''longer than that'', 0::nat))"
    by (rule rewrite_complete_or_reported [OF oneFile_calls _ r]) simp
  ultimately show ?thesis using r by simp
qed

theorem limited_listing_witness:
  "sorted [''a'', ''b''] \<and>
   length (drop 1 (delivered [([(''z'', DirType), (''b'', RegularType)], ReadMore), ([(''a'', DirType), (''c'', DirType)], ReadEOF)])) > 2"
proof -
  have "CollectDirEntries [([(''z'', DirType), (''b'', RegularType)], ReadMore), ([(''a'', DirType), (''c'', DirType)], ReadEOF)] 1 2 =
    ([(''a'', DirType), (''b'', RegularType)], True, None)" by code_simp
  from limited_listing [OF this] show ?thesis by simp
qed

end
