(* ===== verification/Shell_Syntax.thy ===== *)
theory Shell_Syntax
  imports Prelude
begin

text \<open>
  The syntax tree the interpreter runs: the node types of the parser package as far as the code
  inspects them.  A command substitution carries a number, its identity as a pointer.  Words are
  lists of parts.  The parser package's own functions are fields of \<open>syntaxApi\<close>.
\<close>

datatype redirOp =
    RdrOut | AppOut | RdrIn | RdrInOut | DplIn | DplOut | ClbOut | HdocOp | DashHdoc | WordHdoc | RdrAll | AppAll

datatype binOp = AndStmt | OrStmt | Pipe | PipeAll

record paramFlags =
  pe_Short :: bool
  pe_Length :: bool
  pe_Slice :: bool
  pe_Repl :: bool
  pe_Excl :: bool
  pe_Index :: bool
  pe_Names :: bool
  pe_Exp :: bool

text \<open>Commands the interpreter does not run; the text is the declaration's keyword or the type.\<close>

datatype otherCommand =
    CaseClause | FuncDecl | ArithmCmd | TestClause | DeclClause bytes | LetClause | TimeClause
  | CoprocClause | TestDecl | UnknownCommand bytes

datatype wordPart =
    Lit bytes
  | SglQuoted bytes
  | DblQuoted "wordPart list"
  | ParamExp paramFlags "bytes option" "wordPart list list"
  | CmdSubst nat "stmt list"
  | BraceExp bool "wordPart list list"
  | ArithmExp "wordPart list list"
  | ProcSubst "stmt list"
  | ExtGlob
and redirect = Redirect redirOp "bytes option" "wordPart list option" "wordPart list option"
and assign = Assign bytes bool bool bool "wordPart list option"
and stmt = Stmt "command option" bool bool bool bool "redirect list"
and command =
    CallExpr "assign list" "wordPart list list"
  | Subshell "stmt list"
  | Block "stmt list"
  | IfClause ifClause
  | ForClause bool "(bytes \<times> bool \<times> wordPart list list) option" "stmt list"
  | WhileClause bool "stmt list" "stmt list"
  | BinaryCmd binOp stmt stmt
  | OtherCommand otherCommand
and ifClause = If bool "stmt list" "stmt list" "ifClause option"

text \<open>\<open>Redirect op n word hdoc\<close>; \<open>Assign name append array index value\<close> (the three flags: whether the
  construct is used); \<open>Stmt cmd negated background coprocess disown redirs\<close>; \<open>ForClause select loop
  body\<close> with no loop for the C style; \<open>WhileClause until cond body\<close>; \<open>If hasThen cond then else\<close>.\<close>

type_synonym syn_word = "wordPart list"

record syntaxApi =
  SplitBraces :: "syn_word \<Rightarrow> syn_word \<times> bool"
  WordLit :: "syn_word \<Rightarrow> bytes"

definition r_Op :: "redirect \<Rightarrow> redirOp" where "r_Op rd = (case rd of Redirect op n w h \<Rightarrow> op)"
definition r_N :: "redirect \<Rightarrow> bytes option" where "r_N rd = (case rd of Redirect op n w h \<Rightarrow> n)"
definition r_Word :: "redirect \<Rightarrow> syn_word option" where "r_Word rd = (case rd of Redirect op n w h \<Rightarrow> w)"
definition r_Hdoc :: "redirect \<Rightarrow> syn_word option" where "r_Hdoc rd = (case rd of Redirect op n w h \<Rightarrow> h)"

lemma redirect_fields [simp]:
  "r_Op (Redirect op n w h) = op" "r_N (Redirect op n w h) = n"
  "r_Word (Redirect op n w h) = w" "r_Hdoc (Redirect op n w h) = h"
  by (simp_all add: r_Op_def r_N_def r_Word_def r_Hdoc_def)

end
