(* ===== verification/Field_Bound.thy ===== *)
theory Field_Bound
  imports Field_Sources
begin

text \<open>
  The count of field sources bounds the fields: a reference count of the runs a word's text splits
  into, and the simulation that relates it to the static count and the later charges.
\<close>

section \<open>The reference count\<close>

text \<open>A word's text is a sequence of separators and field characters; a field is a maximal run of
  the latter.  An unsplit part is one character, for it makes a field even when it is empty.\<close>

datatype fieldTok = Sep | Ch

fun runsOf :: "bool \<Rightarrow> fieldTok list \<Rightarrow> int" where
  "runsOf opn [] = 0"
| "runsOf opn (Sep # ts) = runsOf False ts"
| "runsOf opn (Ch # ts) = (if opn then 0 else 1) + runsOf True ts"

definition splitToks :: "bytes \<Rightarrow> bytes \<Rightarrow> fieldTok list" where
  "splitToks ifs v = map (\<lambda>c. if c \<in> set (runes ifs) then Sep else Ch) (runes v)"

fun wordToks :: "(bytes \<Rightarrow> bytes) \<Rightarrow> bytes \<Rightarrow> (nat \<Rightarrow> bytes) \<Rightarrow> syn_word \<Rightarrow> nat \<Rightarrow> fieldTok list" where
  "wordToks look ifs outs [] k = []"
| "wordToks look ifs outs (part # parts) k =
     (case part of
        CmdSubst i sts \<Rightarrow> splitToks ifs (normalizeSubstOutput (outs k)) @ wordToks look ifs outs parts (k + 1)
      | ParamExp fl param ws \<Rightarrow>
          (case param of None \<Rightarrow> [] | Some name \<Rightarrow> splitToks ifs (look name)) @ wordToks look ifs outs parts k
      | BraceExp sq elems \<Rightarrow> wordToks look ifs outs parts k
      | _ \<Rightarrow> Ch # wordToks look ifs outs parts k)"

text \<open>Each substitution is charged once, in order, with its output.\<close>

fun chargeLoop :: "bytes \<Rightarrow> (nat \<Rightarrow> bytes) \<Rightarrow> nat list \<Rightarrow> splitSubst list \<Rightarrow> int \<times> splitSubst list" where
  "chargeLoop ifs outs [] substs = (0, substs)"
| "chargeLoop ifs outs (i # is) substs =
     (let (n, substs) = substFieldSources substs i (normalizeSubstOutput (outs i)) ifs;
          (m, substs) = chargeLoop ifs outs is substs
      in (n + m, substs))"

section \<open>Splitting one value\<close>

lemma fieldRuns_runs:
  "fieldRuns p cs inF = (n, opens) \<Longrightarrow>
     0 \<le> n \<and> runsOf inF (map (\<lambda>c. if p c then Sep else Ch) cs @ rest) = n + runsOf opens rest"
proof (induction cs arbitrary: inF n opens)
  case (Cons c cs)
  obtain m o' where m: "fieldRuns p cs (\<not> p c) = (m, o')" by (cases "fieldRuns p cs (\<not> p c)")
  then show ?case using Cons.IH [OF m] Cons.prems by (auto split: if_splits)
qed simp

definition continued :: "int \<Rightarrow> bool \<Rightarrow> bool \<Rightarrow> int" where
  "continued n opn closes = (if n > 0 \<and> opn \<and> \<not> closes then n - 1 else n)"

lemma runsOf_True:
  "runsOf True (t # ts) = (if t = Ch then runsOf False (t # ts) - 1 else runsOf False (t # ts))"
  by (cases t) auto

lemma runsOf_all_Ch: "(\<forall>t\<in>set ts. t = Ch) \<Longrightarrow> ts \<noteq> [] \<Longrightarrow>
    runsOf opn (ts @ rest) = (if opn then 0 else 1) + runsOf True rest"
proof (induction ts arbitrary: opn)
  case (Cons t ts)
  then show ?case by (cases ts) auto
qed simp

lemma split_runs:
  assumes "splitFieldSources v ifs = (n, closes, opens)"
  shows "0 \<le> n \<and> runsOf opn (splitToks ifs v @ rest) = continued n opn closes + runsOf (if v = [] then opn else opens) rest"
proof (cases "v = []")
  case True
  then have "runes v = []" by simp
  then show ?thesis using assms True by (auto simp: splitFieldSources_def splitToks_def continued_def Let_def split: if_splits)
next
  case False
  then obtain c cs where v: "runes v = c # cs" by (metis neq_Nil_conv runes_Nil)
  show ?thesis
  proof (cases "ifs = []")
    case True
    then have "runes ifs = []" by simp
    then have "runsOf opn (splitToks ifs v @ rest) = (if opn then 0 else 1) + runsOf True rest"
      by (intro runsOf_all_Ch) (auto simp: splitToks_def v)
    then show ?thesis
      using assms True False by (cases v) (auto simp: splitFieldSources_def continued_def)
  next
    case ifs: False
    obtain m o' where m: "fieldRuns (\<lambda>c. c \<in> set (runes ifs)) (runes v) False = (m, o')"
      by (cases "fieldRuns (\<lambda>c. c \<in> set (runes ifs)) (runes v) False")
    have eq: "n = m" "opens = o'" "closes = (c \<in> set (runes ifs))"
      using assms ifs m by (auto simp: splitFieldSources_def Let_def v)
    have r: "0 \<le> m" "runsOf False (splitToks ifs v @ rest) = m + runsOf o' rest"
      using fieldRuns_runs [OF m, of rest] by (simp_all add: splitToks_def)
    have pos: "m > 0" if "c \<notin> set (runes ifs)"
    proof -
      obtain k o2 where "fieldRuns (\<lambda>c. c \<in> set (runes ifs)) cs True = (k, o2)" "0 \<le> k"
        using fieldRuns_runs by (cases "fieldRuns (\<lambda>c. c \<in> set (runes ifs)) cs True") blast
      then show ?thesis using m that by (simp add: v)
    qed
    show ?thesis
      using r pos False by (cases opn) (auto simp: eq continued_def splitToks_def v runsOf_True)
  qed
qed

lemma continued_mono: "(a \<longrightarrow> b) \<Longrightarrow> continued n b closes \<le> continued n a closes"
  by (auto simp: continued_def)

section \<open>Charging in order\<close>

definition substsOk :: "splitSubst list \<Rightarrow> bool" where
  "substsOk substs \<longleftrightarrow>
     (\<forall>i < length substs. \<not> inBrace (substs ! i) \<and> (\<forall>p. prev (substs ! i) = Some p \<longrightarrow> p < i))"

lemma substsOk_snoc:
  "substsOk (xs @ [x]) \<longleftrightarrow> substsOk xs \<and> \<not> inBrace x \<and> (\<forall>p. prev x = Some p \<longrightarrow> p < length xs)"
  unfolding substsOk_def by (auto simp: nth_append less_Suc_eq split: if_splits)

lemma subst_shape:
  assumes "substFieldSources substs i out ifs = (n, substs')" "\<not> inBrace (substs ! i)"
  shows "\<exists>after. substs' = substs[i := (substs ! i)\<lparr>ran := True, openAfter := after\<rparr>]"
  using assms by (auto simp: substFieldSources_def Let_def split: prod.splits)

lemma subst_append:
  assumes "i < length substs" "\<And>p. prev (substs ! i) = Some p \<Longrightarrow> p < length substs"
  shows "substFieldSources (substs @ [x]) i out ifs =
    (let (n, substs') = substFieldSources substs i out ifs in (n, substs' @ [x]))"
proof -
  have at: "(substs @ [x]) ! i = substs ! i" "\<And>y. (substs @ [x])[i := y] = substs[i := y] @ [x]"
    using assms(1) by (simp_all add: nth_append list_update_append)
  obtain n closes opens where v: "splitFieldSources out ifs = (n, closes, opens)"
    by (cases "splitFieldSources out ifs")
  show ?thesis
  proof (cases "prev (substs ! i)")
    case None
    then show ?thesis by (simp add: substFieldSources_def at v Let_def)
  next
    case (Some p)
    then have "(substs @ [x]) ! p = substs ! p" using assms(2) by (simp add: nth_append)
    then show ?thesis using Some by (simp add: substFieldSources_def at v Let_def)
  qed
qed

lemma subst_charge:
  assumes "substFieldSources substs i out ifs = (n, substs')" "substsOk substs" "i < length substs"
  shows "substsOk substs'" "length substs' = length substs" "ran (substs' ! i)"
    "\<forall>j. j \<noteq> i \<longrightarrow> substs' ! j = substs ! j"
    "substFieldSources (substs @ [x]) i out ifs = (n, substs' @ [x])"
proof -
  obtain after where s': "substs' = substs[i := (substs ! i)\<lparr>ran := True, openAfter := after\<rparr>]"
    using subst_shape [OF assms(1)] assms(2,3) by (auto simp: substsOk_def)
  then show "substsOk substs'" using assms(2,3) by (simp add: substsOk_def nth_list_update)
  show "length substs' = length substs" "ran (substs' ! i)" "\<forall>j. j \<noteq> i \<longrightarrow> substs' ! j = substs ! j"
    using s' assms(3) by simp_all
  have "\<And>p. prev (substs ! i) = Some p \<Longrightarrow> p < length substs"
    using assms(2,3) unfolding substsOk_def by (meson less_trans)
  then show "substFieldSources (substs @ [x]) i out ifs = (n, substs' @ [x])"
    using subst_append [OF assms(3), of x out ifs] assms(1) by simp
qed

lemma chargeLoop_inv:
  "chargeLoop ifs outs is substs = (D, ds) \<Longrightarrow> substsOk substs \<Longrightarrow> \<forall>i\<in>set is. i < length substs \<Longrightarrow> distinct is \<Longrightarrow>
     substsOk ds \<and> length ds = length substs \<and> (\<forall>i\<in>set is. ran (ds ! i)) \<and>
     (\<forall>j. j \<notin> set is \<longrightarrow> ds ! j = substs ! j) \<and>
     chargeLoop ifs outs is (substs @ [x]) = (D, ds @ [x])"
proof (induction "is" arbitrary: substs D)
  case (Cons i "is")
  obtain n s1 where s1: "substFieldSources substs i (normalizeSubstOutput (outs i)) ifs = (n, s1)"
    by (cases "substFieldSources substs i (normalizeSubstOutput (outs i)) ifs")
  note c = subst_charge [OF s1 Cons.prems(2)]
  obtain m where m: "chargeLoop ifs outs is s1 = (m, ds)" "D = n + m"
    using Cons.prems(1) s1 by (auto split: prod.splits)
  have "substsOk ds \<and> length ds = length s1 \<and> (\<forall>i\<in>set is. ran (ds ! i)) \<and>
      (\<forall>j. j \<notin> set is \<longrightarrow> ds ! j = s1 ! j) \<and> chargeLoop ifs outs is (s1 @ [x]) = (m, ds @ [x])"
    using Cons.IH [OF m(1)] c Cons.prems(3,4) by simp
  then show ?case using c Cons.prems(3,4) m(2) by auto
qed simp

lemma chargeLoop_append:
  "chargeLoop ifs outs (is @ js) substs =
     (let (D, ds) = chargeLoop ifs outs is substs; (E, es) = chargeLoop ifs outs js ds in (D + E, es))"
  by (induction "is" arbitrary: substs) (auto simp: Let_def split: prod.splits)

abbreviation chargeAll :: "bytes \<Rightarrow> (nat \<Rightarrow> bytes) \<Rightarrow> splitSubst list \<Rightarrow> int \<times> splitSubst list" where
  "chargeAll ifs outs substs \<equiv> chargeLoop ifs outs [0..<length substs] substs"

text \<open>The last substitution is charged after the ones before it.\<close>

lemma chargeAll_snoc:
  assumes "chargeAll ifs outs substs = (D, ds)" "substsOk substs"
  shows "chargeAll ifs outs (substs @ [x]) =
    (let (n, es) = substFieldSources (ds @ [x]) (length substs) (normalizeSubstOutput (outs (length substs))) ifs
     in (D + n, es))"
proof -
  have "chargeLoop ifs outs [0..<length substs] (substs @ [x]) = (D, ds @ [x])"
    using chargeLoop_inv [OF assms, of x] by simp
  then show ?thesis by (simp add: chargeLoop_append split: prod.splits)
qed

definition beforeLast :: "splitSubst list \<Rightarrow> splitSubst \<Rightarrow> bool" where
  "beforeLast ds x = (case prev x of None \<Rightarrow> openBefore x | Some p \<Rightarrow> openAfter (ds ! p))"

lemma chargeAll_snoc_value:
  assumes "chargeAll ifs outs substs = (D, ds)" "substsOk (substs @ [x])"
    "splitFieldSources (normalizeSubstOutput (outs (length substs))) ifs = (n, closes, opens)"
  defines "after \<equiv> (if normalizeSubstOutput (outs (length substs)) \<noteq> [] then opens else beforeLast ds x)"
  shows "chargeAll ifs outs (substs @ [x]) =
    (D + continued n (beforeLast ds x) closes + (if deferredNext x \<and> \<not> after then 1 else 0),
     ds @ [x\<lparr>ran := True, openAfter := after\<rparr>])"
proof -
  have ok: "substsOk substs" using assms(2) by (simp add: substsOk_snoc)
  have x: "\<not> inBrace x" "\<And>p. prev x = Some p \<Longrightarrow> p < length substs"
    using assms(2) by (simp_all add: substsOk_snoc)
  have ds: "length ds = length substs" "\<And>p. p < length substs \<Longrightarrow> ran (ds ! p)"
    using chargeLoop_inv [OF assms(1) ok, of x] by auto
  have "substFieldSources (ds @ [x]) (length substs) (normalizeSubstOutput (outs (length substs))) ifs =
      (continued n (beforeLast ds x) closes + (if deferredNext x \<and> \<not> after then 1 else 0),
       ds @ [x\<lparr>ran := True, openAfter := after\<rparr>])"
  proof -
    have at: "(ds @ [x]) ! length substs = x" "\<And>y. (ds @ [x])[length substs := y] = ds @ [y]"
      by (simp_all add: ds(1) [symmetric])
    have "(case prev x of None \<Rightarrow> openBefore x
           | Some p \<Rightarrow> if ran ((ds @ [x]) ! p) then openAfter ((ds @ [x]) ! p) else openBefore x) = beforeLast ds x"
      using x(2) ds by (simp add: beforeLast_def nth_append split: option.split)
    then show ?thesis
      using x(1) by (simp add: substFieldSources_def assms(3) at after_def continued_def Let_def)
  qed
  then show ?thesis using chargeAll_snoc [OF assms(1) ok, of x] by simp
qed

section \<open>The bound\<close>

fun braceFree :: "syn_word \<Rightarrow> bool" where
  "braceFree [] = True"
| "braceFree (part # parts) = ((case part of BraceExp sq elems \<Rightarrow> False | _ \<Rightarrow> True) \<and> braceFree parts)"

text \<open>The state of the static walk together with the charges it leads to: what is counted so far
  plus what will be charged, and what is known of the open field.\<close>

definition accounted :: "bytes \<Rightarrow> (nat \<Rightarrow> bytes) \<Rightarrow> bool \<Rightarrow> nat option \<Rightarrow> splitSubst list \<Rightarrow> bool \<Rightarrow> bool" where
  "accounted ifs outs opn afterSubst substs realOpen \<longleftrightarrow>
     substsOk substs \<and>
     (case afterSubst of
        None \<Rightarrow> opn \<longrightarrow> realOpen
      | Some k \<Rightarrow> \<not> opn \<and> Suc k = length substs \<and> \<not> deferredNext (substs ! k) \<and>
          (openAfter (snd (chargeAll ifs outs substs) ! k) \<longrightarrow> realOpen))"

lemma snoc_decomp: "Suc k = length xs \<Longrightarrow> xs = take k xs @ [xs ! k]"
  by (metis lessI take_Suc_conv_app_nth take_all_iff order_refl)

lemma settle_accounted:
  assumes "accounted ifs outs opn afterSubst substs realOpen"
    "settle afterSubst False counted sources substs = (sources', substs')"
  shows "substsOk substs' \<and> length substs' = length substs \<and>
    sources' + fst (chargeAll ifs outs substs') =
      sources + fst (chargeAll ifs outs substs) -
        (case afterSubst of None \<Rightarrow> 0
         | Some k \<Rightarrow> if counted \<and> openAfter (snd (chargeAll ifs outs substs) ! k) then 1 else 0)"
proof (cases "afterSubst \<noteq> None \<and> counted")
  case False
  then show ?thesis using assms by (auto simp: settle_def accounted_def split: option.splits)
next
  case True
  then obtain k where k: "afterSubst = Some k" "Suc k = length substs" "\<not> deferredNext (substs ! k)" "substsOk substs"
    using assms(1) by (auto simp: accounted_def)
  define front where "front = take k substs"
  define x where "x = substs ! k"
  have split: "substs = front @ [x]" "length front = k"
    using snoc_decomp [OF k(2)] k(2) by (simp_all add: front_def x_def)
  have s': "sources' = sources - 1" "substs' = front @ [x\<lparr>deferredNext := True\<rparr>]"
    using assms(2) True k(1) unfolding split by (simp_all add: settle_def split(2) [symmetric])
  have ok': "substsOk substs'"
    using k(4) unfolding s'(2) split(1) by (simp add: substsOk_snoc)
  obtain D ds where D: "chargeAll ifs outs front = (D, ds)" by (cases "chargeAll ifs outs front")
  obtain n closes opens where v: "splitFieldSources (normalizeSubstOutput (outs (length front))) ifs = (n, closes, opens)"
    by (cases "splitFieldSources (normalizeSubstOutput (outs (length front))) ifs")
  have okf: "substsOk front"
    using k(4) unfolding split(1) by (simp add: substsOk_snoc)
  have "length ds = k" using chargeLoop_inv [OF D okf, of x] split(2) by simp
  then show ?thesis
    using chargeAll_snoc_value [OF D k(4) [unfolded split(1)] v] k(3)
      chargeAll_snoc_value [OF D ok' [unfolded s'(2)] v] ok' True k(1)
    by (simp add: split s' beforeLast_def nth_append cong: option.case_cong)
qed

lemma accounted_subst:
  assumes "accounted ifs outs opn afterSubst substs realOpen"
    "\<not> inBrace x" "openBefore x = opn" "prev x = afterSubst" "\<not> deferredNext x"
    "out = normalizeSubstOutput (outs (length substs))" "splitFieldSources out ifs = (n, closes, opens)"
  shows "accounted ifs outs False (Some (length substs)) (substs @ [x]) (if out = [] then realOpen else opens)"
    "fst (chargeAll ifs outs (substs @ [x])) \<ge> fst (chargeAll ifs outs substs) + continued n realOpen closes"
proof -
  obtain D ds where D: "chargeAll ifs outs substs = (D, ds)" by (cases "chargeAll ifs outs substs")
  have ok: "substsOk substs" using assms(1) by (simp add: accounted_def)
  have okx: "substsOk (substs @ [x])"
    using assms(1,2,4) by (auto simp: substsOk_snoc accounted_def split: option.splits)
  have len: "length ds = length substs" using chargeLoop_inv [OF D ok, of x] by simp
  have b: "beforeLast ds x \<longrightarrow> realOpen"
    using assms(1,3,4) D by (auto simp: beforeLast_def accounted_def split: option.splits)
  note v = chargeAll_snoc_value [OF D okx assms(7) [unfolded assms(6)]]
  show "accounted ifs outs False (Some (length substs)) (substs @ [x]) (if out = [] then realOpen else opens)"
    using okx b v assms(5,6) len by (auto simp: accounted_def nth_append)
  show "fst (chargeAll ifs outs (substs @ [x])) \<ge> fst (chargeAll ifs outs substs) + continued n realOpen closes"
    using v D continued_mono [OF b, of n closes] assms(5) by simp
qed

lemma param_accounted:
  assumes "accounted ifs outs opn afterSubst substs realOpen"
    "(case param of None \<Rightarrow> (0, False, opn) | Some name \<Rightarrow> paramSources (look name) ifs opn) = (n, counted, opn1)"
  shows "\<exists>real1 r. (opn1 \<longrightarrow> real1) \<and>
    r \<le> n - (case afterSubst of None \<Rightarrow> 0
       | Some k \<Rightarrow> if counted \<and> openAfter (snd (chargeAll ifs outs substs) ! k) then 1 else 0) \<and>
    (\<forall>rest. runsOf realOpen ((case param of None \<Rightarrow> [] | Some name \<Rightarrow> splitToks ifs (look name)) @ rest) =
       r + runsOf real1 rest)"
proof (cases param)
  case None
  then show ?thesis
    using assms by (intro exI [of _ realOpen] exI [of _ 0]) (auto simp: accounted_def split: option.splits)
next
  case (Some name)
  define v where "v = look name"
  obtain n0 closes opens where sp: "splitFieldSources v ifs = (n0, closes, opens)" by (cases "splitFieldSources v ifs")
  have n: "n = continued n0 opn closes" "counted = (n > 0 \<and> \<not> closes)" "opn1 = (if v \<noteq> [] then opens else opn)"
    using assms(2) Some sp by (auto simp: paramSources_def continued_def v_def [symmetric] Let_def)
  note r = split_runs [OF sp]
  have "continued n0 realOpen closes \<le> n - (case afterSubst of None \<Rightarrow> 0
       | Some k \<Rightarrow> if counted \<and> openAfter (snd (chargeAll ifs outs substs) ! k) then 1 else 0)"
    using assms(1) n r by (auto simp: accounted_def continued_def split: option.splits if_splits)
  moreover have "opn1 \<longrightarrow> (if v = [] then realOpen else opens)"
    using assms(1) n(3) by (auto simp: accounted_def split: option.splits)
  ultimately show ?thesis
    using r Some by (intro exI [of _ "if v = [] then realOpen else opens"] exI [of _ "continued n0 realOpen closes"])
      (auto simp: v_def)
qed

lemma sources_bound:
  "braceFree parts \<Longrightarrow> accounted ifs outs opn afterSubst substs realOpen \<Longrightarrow>
   partsFieldSources look ifs False parts opn afterSubst sources substs = (sources', opn', substs') \<Longrightarrow>
   sources + fst (chargeAll ifs outs substs) + runsOf realOpen (wordToks look ifs outs parts (length substs))
     \<le> sources' + fst (chargeAll ifs outs substs')"
proof (induction parts arbitrary: opn afterSubst sources substs realOpen)
  case (Cons part parts)
  let ?D = "\<lambda>s. fst (chargeAll ifs outs s)"
  have unsplit: ?case
    if w: "wordToks look ifs outs (part # parts) (length substs) = Ch # wordToks look ifs outs parts (length substs)"
      and p: "partsFieldSources look ifs False (part # parts) opn afterSubst sources substs =
        (let (sources, substs) = settle afterSubst False (\<not> opn) (if opn then sources else sources + 1) substs
         in partsFieldSources look ifs False parts True None sources substs)"
  proof -
    obtain src1 sub1 where s: "settle afterSubst False (\<not> opn) (if opn then sources else sources + 1) substs = (src1, sub1)"
      by (cases "settle afterSubst False (\<not> opn) (if opn then sources else sources + 1) substs")
    note a = settle_accounted [OF Cons.prems(2) s]
    have "src1 + ?D sub1 + runsOf True (wordToks look ifs outs parts (length sub1)) \<le> sources' + ?D substs'"
      by (rule Cons.IH) (use Cons.prems(1,3) a p s in \<open>simp_all add: accounted_def\<close>)
    moreover have "sources + ?D substs + (if realOpen then 0 else 1) \<le> src1 + ?D sub1"
      using a Cons.prems(2) by (auto simp: accounted_def split: option.splits if_splits)
    ultimately show ?thesis using w a by simp
  qed
  show ?case
  proof (cases part)
    case (CmdSubst i sts)
    define x where "x = \<lparr>ss_cs = i, inBrace = False, openBefore = opn, prev = afterSubst,
        deferredNext = False, ran = False, openAfter = False\<rparr>"
    define out where "out = normalizeSubstOutput (outs (length substs))"
    obtain n closes opens where v: "splitFieldSources out ifs = (n, closes, opens)" by (cases "splitFieldSources out ifs")
    have x: "\<not> inBrace x" "openBefore x = opn" "prev x = afterSubst" "\<not> deferredNext x" by (simp_all add: x_def)
    note a = accounted_subst [OF Cons.prems(2) x out_def v]
    have "sources + ?D (substs @ [x]) + runsOf (if out = [] then realOpen else opens)
        (wordToks look ifs outs parts (length (substs @ [x]))) \<le> sources' + ?D substs'"
      by (rule Cons.IH [OF _ a(1)]) (use Cons.prems(1,3) CmdSubst in \<open>simp_all add: x_def\<close>)
    then show ?thesis using a(2) split_runs [OF v, of realOpen] by (simp add: CmdSubst out_def)
  next
    case (ParamExp fl param ws)
    obtain n counted opn1 where
      pv: "(case param of None \<Rightarrow> (0, False, opn) | Some name \<Rightarrow> paramSources (look name) ifs opn) = (n, counted, opn1)"
      by (cases "case param of None \<Rightarrow> (0, False, opn) | Some name \<Rightarrow> paramSources (look name) ifs opn")
    obtain src1 sub1 where s: "settle afterSubst False counted (sources + n) substs = (src1, sub1)"
      by (cases "settle afterSubst False counted (sources + n) substs")
    note a = settle_accounted [OF Cons.prems(2) s]
    have opn: "opn \<longrightarrow> realOpen" using Cons.prems(2) by (auto simp: accounted_def split: option.splits)
    from param_accounted [OF Cons.prems(2) pv] obtain real1 r where r: "opn1 \<longrightarrow> real1"
      "r \<le> n - (case afterSubst of None \<Rightarrow> 0
        | Some k \<Rightarrow> if counted \<and> openAfter (snd (chargeAll ifs outs substs) ! k) then 1 else 0)"
      "\<forall>rest. runsOf realOpen ((case param of None \<Rightarrow> [] | Some name \<Rightarrow> splitToks ifs (look name)) @ rest) =
         r + runsOf real1 rest" by blast
    have real: "opn1 \<longrightarrow> real1" "sources + ?D substs + r \<le> src1 + ?D sub1" using r(1,2) a by (blast, linarith)
    have runs: "runsOf realOpen ((case param of None \<Rightarrow> [] | Some name \<Rightarrow> splitToks ifs (look name)) @
         wordToks look ifs outs parts (length substs)) = r + runsOf real1 (wordToks look ifs outs parts (length substs))"
      using r(3) by simp
    have "src1 + ?D sub1 + runsOf real1 (wordToks look ifs outs parts (length sub1)) \<le> sources' + ?D substs'"
      by (rule Cons.IH) (use Cons.prems(1,3) ParamExp pv s a real(1) in \<open>simp_all add: accounted_def\<close>)
    then show ?thesis using real(2) runs a by (simp add: ParamExp)
  qed (use unsplit Cons.prems(1) in auto)
qed simp

text \<open>C35. The field count is never exceeded: for a word without braces, the sources counted before
  expansion plus what its command substitutions are charged once their outputs are known are at
  least the number of fields the expanded text splits into.\<close>

theorem field_sources_bound:
  assumes "braceFree parts" "wordFieldSources look ifs parts = (wordSources, splitSubsts)"
  shows "runsOf False (wordToks look ifs outs parts 0) \<le>
    wordSources + fst (chargeLoop ifs outs [0..<length splitSubsts] splitSubsts)"
proof -
  obtain opn' where p: "partsFieldSources look ifs False parts False None 0 [] = (wordSources, opn', splitSubsts)"
    using assms(2) by (auto simp: wordFieldSources_def split: prod.splits)
  have "accounted ifs outs False None [] False" by (simp add: accounted_def substsOk_def)
  from sources_bound [OF assms(1) this p] show ?thesis by simp
qed

definition demoFlags :: paramFlags where
  "demoFlags = \<lparr>pe_Short = True, pe_Length = False, pe_Slice = False, pe_Repl = False, pe_Excl = False,
     pe_Index = False, pe_Names = False, pe_Exp = False\<rparr>"

text \<open>The word \<^verbatim>\<open>a$V$(cmd)b\<close>, where \<^verbatim>\<open>$V\<close> is \<^verbatim>\<open>1 2\<close> and the command prints \<^verbatim>\<open>x y z\<close>, ends in a newline and
  holds a NUL.\<close>

theorem field_sources_bound_witness:
  "runsOf False (wordToks (\<lambda>_. ''1 2'') '' '' (\<lambda>_. ''x y z'' @ [chNUL, chNL])
     [Lit ''a'', ParamExp demoFlags (Some ''V'') [], CmdSubst 7 [], Lit ''b''] 0) \<le> 4"
proof -
  have "wordFieldSources (\<lambda>_. ''1 2'') '' '' [Lit ''a'', ParamExp demoFlags (Some ''V'') [], CmdSubst 7 [], Lit ''b''] =
    (2, [\<lparr>ss_cs = 7, inBrace = False, openBefore = True, prev = None, deferredNext = True, ran = False, openAfter = False\<rparr>])"
    by code_simp
  from field_sources_bound [OF _ this, of "\<lambda>_. ''x y z'' @ [chNUL, chNL]"]
  have "runsOf False (wordToks (\<lambda>_. ''1 2'') '' '' (\<lambda>_. ''x y z'' @ [chNUL, chNL])
     [Lit ''a'', ParamExp demoFlags (Some ''V'') [], CmdSubst 7 [], Lit ''b''] 0) \<le>
     2 + fst (chargeLoop '' '' (\<lambda>_. ''x y z'' @ [chNUL, chNL]) [0..<1]
       [\<lparr>ss_cs = 7, inBrace = False, openBefore = True, prev = None, deferredNext = True, ran = False, openAfter = False\<rparr>])"
    by simp
  moreover have "fst (chargeLoop '' '' (\<lambda>_. ''x y z'' @ [chNUL, chNL]) [0..<1]
       [\<lparr>ss_cs = 7, inBrace = False, openBefore = True, prev = None, deferredNext = True, ran = False, openAfter = False\<rparr>]) = 2"
    by code_simp
  ultimately show ?thesis by simp
qed

end
