(* ===== verification/Expansion.thy ===== *)
theory Expansion
  imports Field_Sources Runner_Vars
begin

text \<open>
  Expansion and its limits (\<^verbatim>\<open>interp/runner_expand.go\<close>): the capped writer, what an expansion
  error does to the shell, the size estimate made before a word is expanded, the collector of
  fields with its caps, and bounded literals.  The expander itself is a third-party package and
  enters through the record \<open>expander\<close>.
\<close>

section \<open>Limits\<close>

definition maxCmdSubstOutput :: int where "maxCmdSubstOutput = 2 ^ 20"
definition MaxExpandedArgumentsPerCommand :: int where "MaxExpandedArgumentsPerCommand = 16 * 2 ^ 10"
definition MaxExpandedBytesPerCommand :: int where "MaxExpandedBytesPerCommand = 10 * 2 ^ 20"
definition MaxExpandedBytesPerRun :: int where "MaxExpandedBytesPerRun = 64 * 2 ^ 20"
definition maxStdoutBytes :: int where "maxStdoutBytes = 10 * 1024 * 1024"
definition maxStderrBytes :: int where "maxStderrBytes = 10 * 1024 * 1024"

text \<open>The capped writer in front of a writer \<open>wr\<close>, which reports the bytes it took and an error.\<close>

record limitWriter =
  lw_limit :: int
  lw_n :: int
  lw_exceeded :: bool

definition limitWriter_Write ::
  "(bytes \<Rightarrow> 's \<Rightarrow> 's \<times> int \<times> 'e option) \<Rightarrow> bytes \<Rightarrow> limitWriter \<times> 's \<Rightarrow> (limitWriter \<times> 's) \<times> int \<times> 'e option" where
  "limitWriter_Write wr p lws =
     (case lws of (lw, s) \<Rightarrow>
        if lw_n lw \<ge> lw_limit lw then ((lw\<lparr>lw_exceeded := True\<rparr>, s), int (length p), None)
        else
          (let remaining = lw_limit lw - lw_n lw in
           if int (length p) > remaining then
             (case wr (take (nat remaining) p) s of
                (s, _, Some e) \<Rightarrow> ((lw, s), remaining, Some e)
              | (s, _, None) \<Rightarrow> ((lw\<lparr>lw_n := lw_limit lw, lw_exceeded := True\<rparr>, s), int (length p), None))
           else
             (case wr p s of (s, n, e) \<Rightarrow> ((lw\<lparr>lw_n := lw_n lw + n\<rparr>, s), n, e))))"

text \<open>A buffer behind a capped writer: what it holds after the writes \<open>ps\<close>.\<close>

definition bufferWrite :: "bytes \<Rightarrow> bytes \<Rightarrow> bytes \<times> int \<times> unit option" where
  "bufferWrite p buf = (buf @ p, int (length p), None)"

definition captureAll :: "bytes list \<Rightarrow> limitWriter \<times> bytes \<Rightarrow> limitWriter \<times> bytes" where
  "captureAll ps lws = foldl (\<lambda>lws p. fst (limitWriter_Write bufferWrite p lws)) lws ps"

definition captured :: "int \<Rightarrow> bytes list \<Rightarrow> bytes" where
  "captured limit ps = snd (captureAll ps (\<lparr>lw_limit = limit, lw_n = 0, lw_exceeded = False\<rparr>, []))"

definition writesTo :: "nat \<Rightarrow> (nat \<times> bytes) list \<Rightarrow> bytes list" where
  "writesTo fd log = map snd (filter (\<lambda>(d, p). d = fd) log)"

section \<open>The shell's state\<close>

record fieldCollector =
  maxFields :: int
  c_fields :: "bytes list"
  c_bytes :: int
  wordSources :: int
  splitSubsts :: "splitSubst list"
  substSources :: int

text \<open>The runner's state; \<open>expansionByteCount\<close> and \<open>fileRemovalCount\<close> are shared by all subshells of
  a run, like the world.  Readers and writers are numbers, 0 for discarded output.\<close>

record 'w shell = Runner +
  r_Dir :: bytes
  Params :: "bytes list"
  r_stdin :: nat
  r_stdout :: nat
  inPipeline :: bool
  inPipelineStage :: bool
  inLoop :: bool
  breakEnclosing :: int
  contnEnclosing :: int
  lastExpandExit :: exitStatus
  totalCount :: nat
  dispatchedCount :: nat
  unallowedCount :: nat
  unknownCount :: nat
  expansionByteCount :: "int option"
  fileRemovalCount :: "int option"
  activeFields :: "fieldCollector option"
  world :: 'w

definition setExit :: "exitStatus \<Rightarrow> 'r Runner_scheme \<Rightarrow> 'r Runner_scheme" where
  "setExit e r = r\<lparr>r_exit := e\<rparr>"

definition setCode :: "8 word \<Rightarrow> 'r Runner_scheme \<Rightarrow> 'r Runner_scheme" where
  "setCode c r = r\<lparr>r_exit := (r_exit r)\<lparr>code := c\<rparr>\<rparr>"

definition fatalExitWith :: "goError \<Rightarrow> 'r Runner_scheme \<Rightarrow> 'r Runner_scheme" where
  "fatalExitWith e r = r\<lparr>r_exit := fatal (Some e) (r_exit r)\<rparr>"

text \<open>\<open>ctx w\<close> is the context's error, if it has ended.\<close>

definition stop :: "('w \<Rightarrow> goError option) \<Rightarrow> 'w shell \<Rightarrow> bool \<times> 'w shell" where
  "stop ctx r =
     (if exiting (r_exit r) then (True, r)
      else (case ctx (world r) of None \<Rightarrow> (False, r) | Some e \<Rightarrow> (True, fatalExitWith e r)))"

definition Out :: "bytes \<Rightarrow> 'w shell \<Rightarrow> 'w shell" where
  "Out s r = r\<lparr>r_written := r_written r @ [(r_stdout r, s)]\<rparr>"

section \<open>Expansion errors\<close>

datatype expErr = LimitErr bytes | UnsetParameter bytes | UnexpectedCommand bytes | StorageErr bytes | OtherExpErr bytes

definition errText :: "expErr \<Rightarrow> bytes" where
  "errText e = (case e of LimitErr m \<Rightarrow> m | UnsetParameter m \<Rightarrow> m | UnexpectedCommand m \<Rightarrow> m | StorageErr m \<Rightarrow> m | OtherExpErr m \<Rightarrow> m)"

definition expandErr :: "expErr \<Rightarrow> 'r Runner_scheme \<Rightarrow> 'r Runner_scheme" where
  "expandErr e r =
     (let r = errf (errText e @ [chNL]) r;
          abort = (\<lambda>r. r\<lparr>r_exit := (r_exit r)\<lparr>code := 1, exiting := True\<rparr>\<rparr>)
      in case e of
           LimitErr _ \<Rightarrow> abort (r\<lparr>r_exit := (r_exit r)\<lparr>limitExit := True\<rparr>\<rparr>)
         | OtherExpErr m \<Rightarrow>
             if m = ''invalid indirect expansion'' \<or> hasSuffix m ''not supported'' then abort r else setCode 1 r
         | _ \<Rightarrow> abort r)"

section \<open>The size estimate\<close>

definition saturatedSize :: int where "saturatedSize = MaxExpandedBytesPerCommand + 1"

definition addExpansionSize :: "int \<Rightarrow> int \<Rightarrow> int" where
  "addExpansionSize a b =
     (if a \<ge> saturatedSize \<or> b \<ge> saturatedSize \<or> b > saturatedSize - a then saturatedSize else a + b)"

text \<open>The pair is (known, maximum).\<close>

fun wordPartsExpansionSize :: "(bytes \<Rightarrow> bytes) \<Rightarrow> syn_word \<Rightarrow> int \<times> int \<Rightarrow> expErr + int \<times> int"
  and partExpansionSize :: "(bytes \<Rightarrow> bytes) \<Rightarrow> wordPart \<Rightarrow> expErr + int \<times> int"
  and elemsExpansionSize :: "(bytes \<Rightarrow> bytes) \<Rightarrow> syn_word list \<Rightarrow> int \<times> int \<Rightarrow> expErr + int \<times> int" where
  "wordPartsExpansionSize look [] tot = Inr tot"
| "wordPartsExpansionSize look (part # parts) tot =
     (case partExpansionSize look part of
        Inl e \<Rightarrow> Inl e
      | Inr sz \<Rightarrow> wordPartsExpansionSize look parts
                     (addExpansionSize (fst tot) (fst sz), addExpansionSize (snd tot) (snd sz)))"
| "partExpansionSize look (Lit v) = Inr (int (length v), int (length v))"
| "partExpansionSize look (SglQuoted v) = Inr (int (length v), int (length v))"
| "partExpansionSize look (DblQuoted ps) = wordPartsExpansionSize look ps (0, 0)"
| "partExpansionSize look (ParamExp fl param ws) =
     (case param of
        None \<Rightarrow> Inl (OtherExpErr ''unsupported parameter expansion'')
      | Some name \<Rightarrow> Inr (int (length (look name)), int (length (look name))))"
| "partExpansionSize look (CmdSubst i sts) = Inr (0, maxCmdSubstOutput)"
| "partExpansionSize look (BraceExp sq elems) = elemsExpansionSize look elems (0, 0)"
| "partExpansionSize look (ArithmExp ws) = Inl (OtherExpErr ''unsupported expansion part'')"
| "partExpansionSize look (ProcSubst sts) = Inl (OtherExpErr ''unsupported expansion part'')"
| "partExpansionSize look ExtGlob = Inl (OtherExpErr ''unsupported expansion part'')"
| "elemsExpansionSize look [] sz = Inr sz"
| "elemsExpansionSize look (elem # elems) sz =
     (case wordPartsExpansionSize look elem (0, 0) of
        Inl e \<Rightarrow> Inl e
      | Inr es \<Rightarrow> elemsExpansionSize look elems (max (fst sz) (fst es), max (snd sz) (snd es)))"

definition checkWordExpansionSize :: "(bytes \<Rightarrow> bytes) \<Rightarrow> syn_word option \<Rightarrow> int \<Rightarrow> bytes \<Rightarrow> expErr option" where
  "checkWordExpansionSize look w limit message =
     (case w of
        None \<Rightarrow> None
      | Some parts \<Rightarrow>
          (case wordPartsExpansionSize look parts (0, 0) of
             Inl e \<Rightarrow> Some e
           | Inr (known, maximum) \<Rightarrow>
               if known > limit then Some (LimitErr message)
               else if maximum > MaxExpandedBytesPerCommand
               then Some (LimitErr (''expansion exceeds maximum intermediate size ('' @ itoa MaxExpandedBytesPerCommand @ '' bytes)''))
               else None))"

definition chargeExpansionBytes :: "int \<Rightarrow> 'w shell \<Rightarrow> 'w shell \<times> expErr option" where
  "chargeExpansionBytes n r =
     (case expansionByteCount r of
        None \<Rightarrow> (r, None)
      | Some count \<Rightarrow>
          if n \<le> 0 then (r, None)
          else
            (let r = r\<lparr>expansionByteCount := Some (count + n)\<rparr> in
             if count + n > MaxExpandedBytesPerRun
             then (r, Some (LimitErr (''expansion exceeds maximum cumulative size ('' @ itoa MaxExpandedBytesPerRun @ '' bytes)'')))
             else (r, None)))"

section \<open>The expander\<close>

text \<open>The third-party expander: \<open>FieldsSeq\<close> expands a word to the fields of each brace alternative in
  turn, \<open>ex_Literal\<close> and \<open>ex_Document\<close> to one string.  All may call back to run command
  substitutions; \<open>None\<close> is a call that does not return.  \<open>VarString\<close> is a variable's value as text.\<close>

datatype fieldsEnd = FieldsOk | FieldsErr expErr | FieldsGlobPanic

type_synonym 'w substCallback = "nat \<Rightarrow> stmt list \<Rightarrow> 'w shell \<Rightarrow> ('w shell \<times> (expErr + bytes)) option"

record 'w expander =
  ex_api :: expandApi
  ex_syntax :: syntaxApi
  VarString :: "variable \<Rightarrow> bytes"
  FieldsSeq :: "'w substCallback \<Rightarrow> syn_word \<Rightarrow> ('w shell \<Rightarrow> ('w shell \<times> bytes list \<times> fieldsEnd) option) list"
  ex_Literal :: "'w substCallback \<Rightarrow> syn_word \<Rightarrow> 'w shell \<Rightarrow> ('w shell \<times> (expErr + bytes)) option"
  ex_Document :: "'w substCallback \<Rightarrow> syn_word \<Rightarrow> 'w shell \<Rightarrow> ('w shell \<times> (expErr + bytes)) option"
  ex_ctx :: "'w \<Rightarrow> goError option"

definition varText :: "'w expander \<Rightarrow> 'w shell \<Rightarrow> bytes \<Rightarrow> bytes" where
  "varText X r name = VarString X (snd (lookupVar (ex_api X) name r))"

definition fieldSplitIFS :: "'w expander \<Rightarrow> 'w shell \<Rightarrow> bytes" where
  "fieldSplitIFS X r =
     (let vr = snd (lookupVar (ex_api X) ''IFS'' r)
      in if IsSet (ex_api X) vr then VarString X vr else [CHR '' '', chTAB, chNL])"

section \<open>Collecting fields\<close>

definition newFieldCollector :: "int \<Rightarrow> fieldCollector" where
  "newFieldCollector m =
     \<lparr>maxFields = m, c_fields = [], c_bytes = 0, wordSources = 0, splitSubsts = [], substSources = 0\<rparr>"

definition fieldLimitError :: "fieldCollector \<Rightarrow> expErr" where
  "fieldLimitError c = LimitErr (''expansion exceeds maximum field count ('' @ itoa (maxFields c) @ '')'')"

definition commandSizeError :: expErr where
  "commandSizeError = LimitErr (''expansion exceeds maximum command size ('' @ itoa MaxExpandedBytesPerCommand @ '' bytes)'')"

definition setCommandPrefixFields :: "nat \<Rightarrow> fieldCollector \<Rightarrow> 'w shell \<Rightarrow> bool \<times> fieldCollector \<times> 'w shell" where
  "setCommandPrefixFields n c r =
     (let c = c\<lparr>maxFields := int n + MaxExpandedArgumentsPerCommand\<rparr> in
      if int (length (c_fields c)) > maxFields c then
        (False, c, expandErr (LimitErr (''expansion exceeds maximum argument count ('' @
                     itoa MaxExpandedArgumentsPerCommand @ '')'')) r)
      else (True, c\<lparr>c_bytes := sum_list (map (\<lambda>f. int (length f)) (drop n (c_fields c)))\<rparr>, r))"

text \<open>The fields of one alternative, as they are yielded.\<close>

fun takeFields :: "'w expander \<Rightarrow> bytes list \<Rightarrow> fieldCollector \<Rightarrow> 'w shell \<Rightarrow> bool \<times> fieldCollector \<times> 'w shell" where
  "takeFields X [] c r = (True, c, r)"
| "takeFields X (field # fs) c r =
     (case stop (ex_ctx X) r of
        (True, r) \<Rightarrow> (False, c, r)
      | (False, r) \<Rightarrow>
          (let c = c\<lparr>substSources := 0\<rparr>; fieldBytes = int (length field) in
           if int (length (c_fields c)) \<ge> maxFields c then (False, c, expandErr (fieldLimitError c) r)
           else if fieldBytes > MaxExpandedBytesPerCommand - c_bytes c then (False, c, expandErr commandSizeError r)
           else (case chargeExpansionBytes fieldBytes r of
                   (r, Some e) \<Rightarrow> (False, c, expandErr e r)
                 | (r, None) \<Rightarrow>
                     takeFields X fs (c\<lparr>c_bytes := c_bytes c + fieldBytes, c_fields := c_fields c @ [field]\<rparr>) r)))"

definition braceExpansionLimitErrorPrefix :: bytes where
  "braceExpansionLimitErrorPrefix = ''brace expansion would exceed ''"

definition asLimitErr :: "expErr \<Rightarrow> expErr" where
  "asLimitErr e = (if hasPrefix (errText e) braceExpansionLimitErrorPrefix then LimitErr (errText e) else e)"

definition collectorOf :: "fieldCollector \<Rightarrow> 'w shell \<Rightarrow> fieldCollector" where
  "collectorOf c r = (case activeFields r of None \<Rightarrow> c | Some c' \<Rightarrow> c')"

text \<open>The alternatives of one word: the expander works on the state with the collector active, so
  that the substitutions it runs can be charged.\<close>

fun runAlternatives ::
  "'w expander \<Rightarrow> ('w shell \<Rightarrow> ('w shell \<times> bytes list \<times> fieldsEnd) option) list \<Rightarrow> fieldCollector \<Rightarrow> 'w shell
   \<Rightarrow> (bool \<times> fieldCollector \<times> 'w shell) option" where
  "runAlternatives X [] c r = Some (True, c, r)"
| "runAlternatives X (alt # alts) c r =
     (case alt (r\<lparr>activeFields := Some c\<rparr>) of
        None \<Rightarrow> None
      | Some (r, fs, fin) \<Rightarrow>
          (case takeFields X fs (collectorOf c r) r of
             (False, c, r) \<Rightarrow> Some (False, c, r)
           | (True, c, r) \<Rightarrow>
               (case fin of
                  FieldsOk \<Rightarrow> runAlternatives X alts c r
                | FieldsErr e \<Rightarrow> Some (False, c, expandErr (asLimitErr e) r)
                | FieldsGlobPanic \<Rightarrow> Some (False, c, expandErr (OtherExpErr ''invalid glob pattern in expansion'') r))))"

text \<open>One word: the size estimate, the count of field sources, the expansion.\<close>

definition addWord ::
  "'w expander \<Rightarrow> 'w substCallback \<Rightarrow> bytes \<Rightarrow> syn_word \<Rightarrow> fieldCollector \<Rightarrow> 'w shell
   \<Rightarrow> (bool \<times> fieldCollector \<times> 'w shell) option" where
  "addWord X cb ifs w c r =
     (case stop (ex_ctx X) r of
        (True, r) \<Rightarrow> Some (False, c, r)
      | (False, r) \<Rightarrow>
          (let estimated = fst (SplitBraces (ex_syntax X) w);
               remaining = MaxExpandedBytesPerCommand - c_bytes c
           in case checkWordExpansionSize (varText X r) (Some estimated) remaining (errText commandSizeError) of
                Some e \<Rightarrow> Some (False, c, expandErr e r)
              | None \<Rightarrow>
                  (let (sources, substs) = wordFieldSources (varText X r) ifs estimated;
                       c = c\<lparr>wordSources := sources, splitSubsts := substs, substSources := 0\<rparr>
                   in if wordSources c > maxFields c - int (length (c_fields c))
                      then Some (False, c, expandErr (fieldLimitError c) r)
                      else runAlternatives X (FieldsSeq X cb w) c r)))"

fun addWords ::
  "'w expander \<Rightarrow> 'w substCallback \<Rightarrow> bytes \<Rightarrow> syn_word list \<Rightarrow> fieldCollector \<Rightarrow> 'w shell
   \<Rightarrow> (bool \<times> fieldCollector \<times> 'w shell) option" where
  "addWords X cb ifs [] c r = Some (True, c, r)"
| "addWords X cb ifs (w # ws) c r =
     (case addWord X cb ifs w c r of
        None \<Rightarrow> None
      | Some (False, c, r) \<Rightarrow> Some (False, c, r)
      | Some (True, c, r) \<Rightarrow> addWords X cb ifs ws c r)"

definition fieldCollector_add ::
  "'w expander \<Rightarrow> 'w substCallback \<Rightarrow> syn_word list \<Rightarrow> fieldCollector \<Rightarrow> 'w shell
   \<Rightarrow> (bool \<times> fieldCollector \<times> 'w shell) option" where
  "fieldCollector_add X cb ws c r =
     map_option (\<lambda>(b, c, r'). (b, c, r'\<lparr>activeFields := activeFields r\<rparr>))
       (addWords X cb (fieldSplitIFS X r) ws c r)"

definition chargeSplitSubstOutput :: "'w expander \<Rightarrow> nat \<Rightarrow> bytes \<Rightarrow> 'w shell \<Rightarrow> 'w shell \<times> expErr option" where
  "chargeSplitSubstOutput X i out r =
     (case activeFields r of
        None \<Rightarrow> (r, None)
      | Some c \<Rightarrow>
          (case filter (\<lambda>k. ss_cs (splitSubsts c ! k) = i) [0..<length (splitSubsts c)] of
             [] \<Rightarrow> (r, None)
           | ks \<Rightarrow>
               (let (n, substs) = substFieldSources (splitSubsts c) (last ks) (normalizeSubstOutput out) (fieldSplitIFS X r);
                    c = c\<lparr>splitSubsts := substs, substSources := substSources c + n\<rparr>;
                    r = r\<lparr>activeFields := Some c\<rparr>
                in if wordSources c + substSources c > maxFields c - int (length (c_fields c))
                   then (r, Some (fieldLimitError c)) else (r, None))))"

definition expandFields :: "'w expander \<Rightarrow> 'w substCallback \<Rightarrow> syn_word list \<Rightarrow> 'w shell \<Rightarrow> (bytes list \<times> 'w shell) option" where
  "expandFields X cb ws r =
     map_option (\<lambda>(_, c, r). (c_fields c, r))
       (fieldCollector_add X cb ws (newFieldCollector MaxExpandedArgumentsPerCommand) r)"

section \<open>Bounded strings\<close>

definition literalBounded ::
  "'w expander \<Rightarrow> 'w substCallback \<Rightarrow> syn_word \<Rightarrow> int \<Rightarrow> bytes \<Rightarrow> 'w shell \<Rightarrow> (bytes \<times> 'w shell) option" where
  "literalBounded X cb w limit message r =
     (case checkWordExpansionSize (varText X r) (Some w) limit message of
        Some e \<Rightarrow> Some ([], expandErr e r)
      | None \<Rightarrow>
          (case ex_Literal X cb w r of
             None \<Rightarrow> None
           | Some (r, Inl e) \<Rightarrow> Some ([], expandErr e r)
           | Some (r, Inr str) \<Rightarrow>
               if int (length str) > limit then Some ([], expandErr (LimitErr message) r)
               else (case chargeExpansionBytes (int (length str)) r of
                       (r, Some e) \<Rightarrow> Some ([], expandErr e r)
                     | (r, None) \<Rightarrow> Some (str, r))))"

definition literal :: "'w expander \<Rightarrow> 'w substCallback \<Rightarrow> syn_word \<Rightarrow> 'w shell \<Rightarrow> (bytes \<times> 'w shell) option" where
  "literal X cb w = literalBounded X cb w MaxExpandedBytesPerCommand
     (''expansion exceeds maximum size ('' @ itoa MaxExpandedBytesPerCommand @ '' bytes)'')"

definition assignmentLiteral ::
  "'w expander \<Rightarrow> 'w substCallback \<Rightarrow> bytes \<Rightarrow> syn_word \<Rightarrow> 'w shell \<Rightarrow> (bytes \<times> 'w shell) option" where
  "assignmentLiteral X cb name w = literalBounded X cb w MaxVarBytes
     (name @ '': value too large (limit '' @ itoa MaxVarBytes @ '' bytes)'')"

definition MaxHeredocBytes :: int where "MaxHeredocBytes = 10 * 2 ^ 20"

definition heredocSizeError :: expErr where
  "heredocSizeError = LimitErr (''heredoc: content exceeds maximum size ('' @ itoa MaxHeredocBytes @ '' bytes)'')"

definition document :: "'w expander \<Rightarrow> 'w substCallback \<Rightarrow> syn_word \<Rightarrow> 'w shell \<Rightarrow> ('w shell \<times> (expErr + bytes)) option" where
  "document X cb w r =
     (case checkWordExpansionSize (varText X r) (Some w) MaxHeredocBytes (errText heredocSizeError) of
        Some e \<Rightarrow> Some (r, Inl e)
      | None \<Rightarrow>
          (case ex_Document X cb w r of
             None \<Rightarrow> None
           | Some (r, Inl e) \<Rightarrow> Some (r, Inl e)
           | Some (r, Inr str) \<Rightarrow>
               Some (r, if int (length str) > MaxHeredocBytes then Inl heredocSizeError else Inr str)))"

end
