(* ===== verification/Expansion_Limits.thy ===== *)
theory Expansion_Limits
  imports Expansion
begin

text \<open>
  The limits of \<^verbatim>\<open>interp/runner_expand.go\<close> hold: what a capped buffer keeps, what a collector can
  hold, and the estimate made before a word is expanded.
\<close>

section \<open>The capped writer\<close>

lemma captureAll_state:
  assumes "captureAll ps (\<lparr>lw_limit = lim, lw_n = int (length buf), lw_exceeded = ex\<rparr>, buf) = (lw, out)"
    "int (length buf) \<le> lim"
  shows "out = take (nat lim) (buf @ concat ps) \<and> lw_limit lw = lim \<and> lw_n lw = int (length out) \<and>
    (length (buf @ concat ps) > nat lim \<longrightarrow> lw_exceeded lw) \<and> (ex \<longrightarrow> lw_exceeded lw)"
  using assms
proof (induction ps arbitrary: buf ex)
  case (Cons p ps)
  define full where "full = take (nat lim) (buf @ p)"
  have w: "fst (limitWriter_Write bufferWrite p (\<lparr>lw_limit = lim, lw_n = int (length buf), lw_exceeded = ex\<rparr>, buf)) =
    (\<lparr>lw_limit = lim, lw_n = int (length full),
      lw_exceeded = ex \<or> int (length buf) \<ge> lim \<or> int (length buf + length p) > lim\<rparr>, full)"
    using Cons.prems(2) by (auto simp: limitWriter_Write_def bufferWrite_def Let_def full_def min_def nat_diff_distrib)
  have l: "int (length full) \<le> lim" using Cons.prems(2) by (simp add: full_def)
  have t: "take (nat lim) (full @ concat ps) = take (nat lim) (buf @ p @ concat ps)"
    by (simp add: full_def min_def)
  have "out = take (nat lim) (full @ concat ps) \<and> lw_limit lw = lim \<and> lw_n lw = int (length out) \<and>
    (length (full @ concat ps) > nat lim \<longrightarrow> lw_exceeded lw) \<and>
    (ex \<or> int (length buf) \<ge> lim \<or> int (length buf + length p) > lim \<longrightarrow> lw_exceeded lw)"
    by (rule Cons.IH [OF _ l]) (use Cons.prems(1) w in \<open>simp add: captureAll_def\<close>)
  then show ?case using t Cons.prems(2) by (auto simp: full_def min_def split: if_splits)
qed (auto simp: captureAll_def)

text \<open>C36. A capped buffer holds exactly the first bytes of everything written to it, up to the
  limit, however the writes were cut; every write reports that it took all its bytes; and the
  writer knows when something was discarded.\<close>

theorem capped_writer_exact:
  assumes "0 \<le> limit" "captureAll ps (\<lparr>lw_limit = limit, lw_n = 0, lw_exceeded = False\<rparr>, []) = (lw, out)"
  shows "out = take (nat limit) (concat ps) \<and> captured limit ps = out \<and>
    (length (concat ps) > nat limit \<longrightarrow> lw_exceeded lw) \<and>
    (snd (limitWriter_Write bufferWrite p (lw, out)) = (int (length p), None))"
proof -
  have "out = take (nat limit) ([] @ concat ps) \<and> lw_limit lw = limit \<and> lw_n lw = int (length out) \<and>
    (length ([] @ concat ps) > nat limit \<longrightarrow> lw_exceeded lw) \<and> (False \<longrightarrow> lw_exceeded lw)"
    by (rule captureAll_state) (use assms in simp_all)
  moreover have "captured limit ps = out" using assms(2) by (simp add: captured_def)
  moreover have "snd (limitWriter_Write bufferWrite p (lw, out)) = (int (length p), None)"
    by (simp add: limitWriter_Write_def bufferWrite_def Let_def)
  ultimately show ?thesis by simp
qed

theorem capped_writer_exact_witness:
  "captured 4 [''ab'', ''cde'', ''f''] = ''abcd''"
  using capped_writer_exact [of 4 "[''ab'', ''cde'', ''f'']", OF _ prod.collapse [symmetric]] by simp

section \<open>The size estimate\<close>

text \<open>\<open>fieldSize look out w n\<close>: with \<open>look\<close> the values of variables and \<open>out i\<close> the size of the output of
  substitution \<open>i\<close>, some choice of brace alternatives makes a string of \<open>n\<close> bytes of the word \<open>w\<close>.\<close>

inductive fieldSize :: "(bytes \<Rightarrow> bytes) \<Rightarrow> (nat \<Rightarrow> int) \<Rightarrow> syn_word \<Rightarrow> int \<Rightarrow> bool"
  and partSize :: "(bytes \<Rightarrow> bytes) \<Rightarrow> (nat \<Rightarrow> int) \<Rightarrow> wordPart \<Rightarrow> int \<Rightarrow> bool" for look out where
  fsNil: "fieldSize look out [] 0"
| fsCons: "partSize look out p m \<Longrightarrow> fieldSize look out ps n \<Longrightarrow> fieldSize look out (p # ps) (m + n)"
| psLit: "partSize look out (Lit v) (int (length v))"
| psSgl: "partSize look out (SglQuoted v) (int (length v))"
| psDbl: "fieldSize look out ps n \<Longrightarrow> partSize look out (DblQuoted ps) n"
| psParam: "partSize look out (ParamExp fl (Some name) ws) (int (length (look name)))"
| psSubst: "partSize look out (CmdSubst i sts) (out i)"
| psBrace: "w \<in> set ws \<Longrightarrow> fieldSize look out w n \<Longrightarrow> partSize look out (BraceExp sq ws) n"
| psNoAlternative: "partSize look out (BraceExp sq []) 0"

definition est :: "int \<Rightarrow> int" where
  "est n = min n saturatedSize"

lemma saturated_pos: "0 < saturatedSize"
  by (simp add: saturatedSize_def MaxExpandedBytesPerCommand_def)

lemma est_0 [simp]: "est 0 = 0"
  using saturated_pos by (simp add: est_def)

lemma add_est: "0 \<le> a \<Longrightarrow> 0 \<le> b \<Longrightarrow> addExpansionSize (est a) (est b) = est (a + b)"
  using saturated_pos by (auto simp: addExpansionSize_def est_def min_def)

lemma addExpansionSize_mono: "a \<le> a' \<Longrightarrow> b \<le> b' \<Longrightarrow> addExpansionSize a b \<le> addExpansionSize a' b'"
  by (auto simp: addExpansionSize_def)

lemma add_bounds: "est a \<le> x \<Longrightarrow> est b \<le> y \<Longrightarrow> 0 \<le> a \<Longrightarrow> 0 \<le> b \<Longrightarrow> est (a + b) \<le> addExpansionSize x y"
  using addExpansionSize_mono [of "est a" x "est b" y] add_est [of a b] by simp

lemma elems_bound:
  "elemsExpansionSize look ws (a, b) = Inr (k, m) \<Longrightarrow> b \<le> m \<and>
     (\<forall>w \<in> set ws. \<exists>kw mw. wordPartsExpansionSize look w (0, 0) = Inr (kw, mw) \<and> mw \<le> m)"
proof (induction ws arbitrary: a b)
  case (Cons w ws)
  then obtain kw mw where w: "wordPartsExpansionSize look w (0, 0) = Inr (kw, mw)"
    "elemsExpansionSize look ws (max a kw, max b mw) = Inr (k, m)"
    by (auto split: sum.splits)
  then show ?case using Cons.IH [OF w(2)] by auto
qed simp

lemma size_upper:
  assumes "\<And>i. 0 \<le> out i \<and> out i \<le> maxCmdSubstOutput"
  shows "fieldSize look out w n \<Longrightarrow> 0 \<le> n \<and>
      (\<forall>a k0 m0 k m. 0 \<le> a \<longrightarrow> est a \<le> m0 \<longrightarrow> wordPartsExpansionSize look w (k0, m0) = Inr (k, m) \<longrightarrow> est (a + n) \<le> m)"
    and "partSize look out p n \<Longrightarrow> 0 \<le> n \<and> (\<forall>k m. partExpansionSize look p = Inr (k, m) \<longrightarrow> est n \<le> m)"
proof (induction w n and p n rule: fieldSize_partSize.inducts)
  case (fsCons p m ps n)
  show ?case
  proof (intro conjI allI impI)
    fix a k0 m0 k mx assume *: "0 \<le> a" "est a \<le> m0" "wordPartsExpansionSize look (p # ps) (k0, m0) = Inr (k, mx)"
    then obtain kp mp where p: "partExpansionSize look p = Inr (kp, mp)"
      "wordPartsExpansionSize look ps (addExpansionSize k0 kp, addExpansionSize m0 mp) = Inr (k, mx)"
      by (auto split: sum.splits)
    have "est (a + m) \<le> addExpansionSize m0 mp" using * p(1) fsCons by (intro add_bounds) auto
    then have "est (a + m + n) \<le> mx" using fsCons p(2) *(1) by (meson add_nonneg_nonneg)
    then show "est (a + (m + n)) \<le> mx" by (simp add: add.assoc)
  qed (use fsCons in simp)
next
  case (psDbl ps n)
  then show ?case by (metis add_0 est_0 order_refl partExpansionSize.simps(3))
next
  case (psBrace w ws n sq)
  show ?case
  proof (intro conjI allI impI)
    fix k m assume "partExpansionSize look (BraceExp sq ws) = Inr (k, m)"
    then obtain kw mw where "wordPartsExpansionSize look w (0, 0) = Inr (kw, mw)" "mw \<le> m"
      using elems_bound [of look ws 0 0 k m] psBrace by auto
    then show "est n \<le> m" using psBrace by (metis add_0 est_0 order_refl order_trans)
  qed (use psBrace in simp)
qed (use assms in \<open>auto simp: est_def intro: min.coboundedI1\<close>)

lemma add_le: "0 \<le> x \<Longrightarrow> 0 \<le> y \<Longrightarrow> addExpansionSize x y \<le> x + y \<and> 0 \<le> addExpansionSize x y"
  using saturated_pos by (auto simp: addExpansionSize_def)

lemma size_lower:
  assumes "\<And>i. 0 \<le> out i"
  shows "wordPartsExpansionSize look w tot = Inr (k, m) \<Longrightarrow> 0 \<le> fst tot \<Longrightarrow>
      \<exists>n. fieldSize look out w n \<and> k \<le> fst tot + n \<and> 0 \<le> k"
    and "partExpansionSize look p = Inr (k, m) \<Longrightarrow> \<exists>n. partSize look out p n \<and> k \<le> n \<and> 0 \<le> k"
    and "elemsExpansionSize look ws tot = Inr (k, m) \<Longrightarrow> 0 \<le> fst tot \<Longrightarrow> 0 \<le> k \<and>
      (k \<le> fst tot \<or> (\<exists>w \<in> set ws. \<exists>n. fieldSize look out w n \<and> k \<le> n)) \<and>
      (\<forall>w \<in> set ws. \<exists>n. fieldSize look out w n \<and> 0 \<le> n)"
proof (induction look w tot and look p and look ws tot arbitrary: k m and k m and k m
    rule: wordPartsExpansionSize_partExpansionSize_elemsExpansionSize.induct)
  case (1 look tot)
  then show ?case by (auto intro: fsNil)
next
  case (2 look part parts tot)
  then obtain kp mp where p: "partExpansionSize look part = Inr (kp, mp)"
    "wordPartsExpansionSize look parts (addExpansionSize (fst tot) kp, addExpansionSize (snd tot) mp) = Inr (k, m)"
    by (auto split: sum.splits)
  obtain n where n: "partSize look out part n" "kp \<le> n" "0 \<le> kp" using "2.IH"(1) [OF p(1)] by auto
  have a: "addExpansionSize (fst tot) kp \<le> fst tot + kp" "0 \<le> addExpansionSize (fst tot) kp"
    using add_le [of "fst tot" kp] "2.prems"(2) n(3) by simp_all
  obtain n' where "fieldSize look out parts n'" "k \<le> addExpansionSize (fst tot) kp + n'" "0 \<le> k"
    using "2.IH"(2) [OF p(1), of k m] p(2) a(2) by auto
  then show ?case using n a(1) by (intro exI [of _ "n + n'"]) (auto intro: fsCons)
next
  case (8 look sq elems)
  have e: "elemsExpansionSize look elems (0, 0) = Inr (k, m)" using "8.prems" by simp
  from "8.IH" [OF e] have ih: "0 \<le> k" "k \<le> 0 \<or> (\<exists>w \<in> set elems. \<exists>n. fieldSize look out w n \<and> k \<le> n)"
    "\<forall>w \<in> set elems. \<exists>n. fieldSize look out w n \<and> 0 \<le> n" by auto
  show ?case
  proof (cases elems)
    case Nil
    then show ?thesis using ih by (auto intro: psNoAlternative)
  next
    case (Cons w ws)
    then have "\<exists>w \<in> set elems. \<exists>n. fieldSize look out w n \<and> k \<le> n" using ih by fastforce
    then show ?thesis using ih(1) by (auto intro: psBrace)
  qed
next
  case (13 look elem elems sz)
  then obtain kw mw where w: "wordPartsExpansionSize look elem (0, 0) = Inr (kw, mw)"
    "elemsExpansionSize look elems (max (fst sz) kw, max (snd sz) mw) = Inr (k, m)"
    by (auto split: sum.splits)
  obtain n where n: "fieldSize look out elem n" "kw \<le> n" "0 \<le> kw" using "13.IH"(1) [OF w(1)] by auto
  have "0 \<le> k \<and> (k \<le> max (fst sz) kw \<or> (\<exists>w \<in> set elems. \<exists>n. fieldSize look out w n \<and> k \<le> n)) \<and>
      (\<forall>w \<in> set elems. \<exists>n. fieldSize look out w n \<and> 0 \<le> n)"
    using "13.IH"(2) [OF w(1), of k m] w(2) "13.prems"(2) by simp
  then show ?case using n by (auto simp: max_def split: if_splits intro!: exI [of _ n])
qed (use assms in \<open>auto intro: fieldSize_partSize.intros split: option.splits\<close>)



end
