(* ===== verification/Redirection.thy ===== *)
theory Redirection
  imports Expansion Sandbox_Policy
begin

text \<open>
  Redirections (\<^verbatim>\<open>interp/runner_redir.go\<close>, \<^verbatim>\<open>interp/runner_redir_remediation.go\<close>): heredocs, the target
  word, output and input redirections.  Files are opened through the sandbox.  The record
  \<open>redirEnv\<close> holds the part of the runner's configuration they use; \<open>sysPipe\<close> makes a pipe, \<open>sysFeed\<close>
  is the goroutine that writes a heredoc to one, and \<open>openErrText\<close> is the text of an open error.
\<close>

record 'w redirEnv =
  expr :: "'w expander"
  remediationMode :: bool
  sandboxKernel :: "'w kernel"
  sandbox :: "Sandbox option"
  devNullInfo :: "pathError + fileInfo"
  sysPipe :: "'w \<Rightarrow> 'w \<times> (goError + nat \<times> nat)"
  sysFeed :: "nat \<Rightarrow> bytes \<Rightarrow> 'w \<Rightarrow> 'w"
  openErrText :: "bytes \<Rightarrow> pathError \<Rightarrow> bytes"

definition onWorld :: "('w \<Rightarrow> 'w) \<Rightarrow> 'w shell \<Rightarrow> 'w shell" where
  "onWorld f r = r\<lparr>world := f (world r)\<rparr>"

definition closeFd :: "('w, 'c) redirEnv_scheme \<Rightarrow> nat \<Rightarrow> 'w shell \<Rightarrow> 'w shell" where
  "closeFd C fd = onWorld (\<lambda>w. fst (k_close (sandboxKernel C) fd w))"

definition runner_open ::
  "('w, 'c) redirEnv_scheme \<Rightarrow> bytes \<Rightarrow> flags \<Rightarrow> nat \<Rightarrow> bool \<Rightarrow> 'w shell \<Rightarrow> 'w shell \<times> (pathError + nat)" where
  "runner_open C path flg mode prnt r =
     (case Sandbox_Open (sandboxKernel C) (sandbox C) path (r_Dir r) flg mode (world r) of
        (w, Inr f) \<Rightarrow> (r\<lparr>world := w\<rparr>, Inr f)
      | (w, Inl e) \<Rightarrow>
          (let r = r\<lparr>world := w\<rparr>
           in (if prnt then errf (openErrText C path e @ [chNL]) r else r, Inl e)))"

section \<open>Heredocs\<close>

definition isQuotedHdoc :: "redirect \<Rightarrow> bool" where
  "isQuotedHdoc rd =
     (case r_Word rd of
        None \<Rightarrow> False
      | Some parts \<Rightarrow> list_ex (\<lambda>p. case p of SglQuoted v \<Rightarrow> True | DblQuoted ps \<Rightarrow> True
                                          | Lit v \<Rightarrow> chBS \<in> set v | _ \<Rightarrow> False) parts)"

definition hdocWordRawSize :: "syn_word \<Rightarrow> int" where
  "hdocWordRawSize w = sum_list (map (\<lambda>p. case p of Lit v \<Rightarrow> int (length v) | _ \<Rightarrow> 0) w)"

fun hdocLiteralPart :: "wordPart \<Rightarrow> bytes" where
  "hdocLiteralPart (Lit v) = v"
| "hdocLiteralPart (ParamExp fl param ws) =
     (let name = (case param of None \<Rightarrow> [] | Some v \<Rightarrow> v)
      in if \<not> pe_Short fl then ''${'' @ name @ ''}'' else ''$'' @ name)"
| "hdocLiteralPart (SglQuoted v) = v"
| "hdocLiteralPart (DblQuoted ps) = concat (map hdocLiteralPart ps)"
| "hdocLiteralPart (CmdSubst i sts) = []"
| "hdocLiteralPart (BraceExp sq ws) = []"
| "hdocLiteralPart (ArithmExp ws) = []"
| "hdocLiteralPart (ProcSubst sts) = []"
| "hdocLiteralPart ExtGlob = []"

definition hdocLiteral :: "syn_word \<Rightarrow> bytes" where
  "hdocLiteral w = concat (map hdocLiteralPart w)"

definition hdocExpand ::
  "('w, 'c) redirEnv_scheme \<Rightarrow> 'w substCallback \<Rightarrow> bool \<Rightarrow> syn_word \<Rightarrow> 'w shell \<Rightarrow> ('w shell \<times> (expErr + bytes)) option" where
  "hdocExpand C cb quoted w r = (if quoted then Some (r, Inr (hdocLiteral w)) else document (expr C) cb w r)"

text \<open>The lines of a tab-stripping heredoc: literals are cut at newlines and lose leading tabs.\<close>

definition hdocStep :: "syn_word list \<times> syn_word \<Rightarrow> wordPart \<Rightarrow> syn_word list \<times> syn_word" where
  "hdocStep st p =
     (case p of
        Lit v \<Rightarrow>
          (case map (\<lambda>l. Lit (dropWhile (\<lambda>c. c = chTAB) l)) (splitOn chNL v) of
             [] \<Rightarrow> st
           | l # ls \<Rightarrow> if ls = [] then (fst st, snd st @ [l])
                       else (fst st @ [snd st @ [l]] @ map (\<lambda>x. [x]) (butlast ls), [last ls]))
      | _ \<Rightarrow> (fst st, snd st @ [p]))"

definition hdocLines :: "syn_word \<Rightarrow> syn_word list" where
  "hdocLines parts = (let st = foldl hdocStep ([], []) parts in fst st @ [snd st])"

fun flushLines ::
  "('w, 'c) redirEnv_scheme \<Rightarrow> 'w substCallback \<Rightarrow> bool \<Rightarrow> syn_word list \<Rightarrow> bytes \<Rightarrow> 'w shell
   \<Rightarrow> ('w shell \<times> (expErr + bytes)) option" where
  "flushLines C cb quoted [] buf r = Some (r, Inr buf)"
| "flushLines C cb quoted (l # ls) buf r =
     (case hdocExpand C cb quoted l r of
        None \<Rightarrow> None
      | Some (r, Inl e) \<Rightarrow> Some (r, Inl e)
      | Some (r, Inr expanded) \<Rightarrow>
          (let newLen = int (length buf) + int (length expanded) + (if buf \<noteq> [] then 1 else 0) in
           if newLen > MaxHeredocBytes then Some (r, Inl heredocSizeError)
           else flushLines C cb quoted ls (if buf \<noteq> [] then buf @ [chNL] @ expanded else expanded) r))"

definition hdocContent ::
  "('w, 'c) redirEnv_scheme \<Rightarrow> 'w substCallback \<Rightarrow> redirect \<Rightarrow> syn_word \<Rightarrow> 'w shell \<Rightarrow> ('w shell \<times> (expErr + bytes)) option" where
  "hdocContent C cb rd body r =
     (if r_Op rd \<noteq> DashHdoc then
        (if hdocWordRawSize body > MaxHeredocBytes then Some (r, Inl heredocSizeError)
         else (case hdocExpand C cb (isQuotedHdoc rd) body r of
                 None \<Rightarrow> None
               | Some (r, Inl e) \<Rightarrow> Some (r, Inl e)
               | Some (r, Inr hdoc) \<Rightarrow>
                   Some (r, if int (length hdoc) > MaxHeredocBytes then Inl heredocSizeError else Inr hdoc)))
      else flushLines C cb (isQuotedHdoc rd) (hdocLines body) [] r)"

definition hdocReader ::
  "('w, 'c) redirEnv_scheme \<Rightarrow> 'w substCallback \<Rightarrow> redirect \<Rightarrow> syn_word \<Rightarrow> 'w shell \<Rightarrow> ('w shell \<times> nat option) option" where
  "hdocReader C cb rd body r =
     (case sysPipe C (world r) of
        (w, Inl e) \<Rightarrow> Some (r\<lparr>world := w\<rparr>, None)
      | (w, Inr (pr, pw)) \<Rightarrow>
          (let abandon = (\<lambda>e r. (expandErr e (closeFd C pw (closeFd C pr r)), None)) in
           case hdocContent C cb rd body (r\<lparr>world := w\<rparr>) of
             None \<Rightarrow> None
           | Some (r, Inl e) \<Rightarrow> Some (abandon e r)
           | Some (r, Inr hdoc) \<Rightarrow>
               (case chargeExpansionBytes (int (length hdoc)) r of
                  (r, Some e) \<Rightarrow> Some (abandon e r)
                | (r, None) \<Rightarrow> Some (onWorld (sysFeed C pw hdoc) r, Some pr))))"

section \<open>Targets\<close>

definition redirectWord ::
  "('w, 'c) redirEnv_scheme \<Rightarrow> 'w substCallback \<Rightarrow> syn_word \<Rightarrow> 'w shell \<Rightarrow> ('w shell \<times> bytes option) option" where
  "redirectWord C cb w r =
     (case fieldCollector_add (expr C) cb [w] (newFieldCollector MaxExpandedArgumentsPerCommand) r of
        None \<Rightarrow> None
      | Some (False, c, r) \<Rightarrow> Some (r, None)
      | Some (True, c, r) \<Rightarrow>
          (case c_fields c of
             [f] \<Rightarrow> Some (r, Some f)
           | _ \<Rightarrow> Some (errf (''ambiguous redirect'' @ [chNL]) r, None)))"

definition rejectNonRegularRedirectTarget :: "('w, 'c) redirEnv_scheme \<Rightarrow> bytes \<Rightarrow> 'w shell \<Rightarrow> 'w shell \<times> bool" where
  "rejectNonRegularRedirectTarget C path r =
     (case sandbox C of
        None \<Rightarrow> (r, False)
      | Some sb \<Rightarrow>
          (case Sandbox_Stat (sandboxKernel C) (devNullInfo C) (world r) (sandbox C) path (r_Dir r) of
             Inl _ \<Rightarrow> (r, False)
           | Inr info \<Rightarrow> if fi_type info = RegularType then (r, False)
                          else (errf (''open '' @ path @ '': not a regular file'' @ [chNL]) r, True)))"

definition redirectFilePerm :: nat where "redirectFilePerm = 438"

definition writeRedirectFlags :: "bool \<Rightarrow> flags" where
  "writeRedirectFlags app = O_WRONLY OR O_CREATE OR (if app then O_APPEND else O_TRUNC)"

text \<open>\<open>set\<close> puts the opened file where the redirection points.\<close>

definition openWriteTarget ::
  "('w, 'c) redirEnv_scheme \<Rightarrow> bool \<Rightarrow> bytes \<Rightarrow> (nat \<Rightarrow> 'w shell \<Rightarrow> 'w shell) \<Rightarrow> 'w shell \<Rightarrow> 'w shell \<times> (unit + nat option)" where
  "openWriteTarget C app arg put r =
     (case rejectNonRegularRedirectTarget C arg r of
        (r, True) \<Rightarrow> (r, Inl ())
      | (r, False) \<Rightarrow>
          (case runner_open C arg (writeRedirectFlags app) redirectFilePerm True r of
             (r, Inl _) \<Rightarrow> (r, Inl ())
           | (r, Inr f) \<Rightarrow> (put f r, Inr (Some f))))"

definition openWriteRedirect where
  "openWriteRedirect C op arg put r = openWriteTarget C (op = AppOut) arg put r"

definition openWriteAllRedirect where
  "openWriteAllRedirect C op arg r =
     openWriteTarget C (op = AppAll) arg (\<lambda>f r. r\<lparr>r_stdout := f, r_stderr := f\<rparr>) r"

definition refuseRedirect :: "bytes \<Rightarrow> 'w shell \<Rightarrow> 'w shell \<times> (unit + nat option)" where
  "refuseRedirect msg r = (errf (msg @ [chNL]) r, Inl ())"

text \<open>The redirection of a named target: an error, or the file to close afterwards, if any.  \<open>put\<close> and
  \<open>get\<close> are the stream the redirection is for.\<close>

definition redirByOp ::
  "('w, 'c) redirEnv_scheme \<Rightarrow> redirOp \<Rightarrow> bytes \<Rightarrow> (nat \<Rightarrow> 'w shell \<Rightarrow> 'w shell) \<Rightarrow> 'w shell
   \<Rightarrow> 'w shell \<times> (unit + nat option)" where
  "redirByOp C op arg put r =
     (if op \<in> {RdrOut, ClbOut, AppOut} then
        (if IsDevNull arg then (put 0 r, Inr None)
         else if \<not> remediationMode C
         then refuseRedirect (''> '' @ arg @ '': file redirection is only supported for /dev/null'') r
         else openWriteRedirect C op arg put r)
      else if op \<in> {RdrAll, AppAll} then
        (if IsDevNull arg then (r\<lparr>r_stdout := 0, r_stderr := 0\<rparr>, Inr None)
         else if \<not> remediationMode C
         then refuseRedirect (''&> '' @ arg @ '': file redirection is only supported for /dev/null'') r
         else openWriteAllRedirect C op arg r)
      else if op = DplOut then
        (if arg = ''1'' then (put (r_stdout r) r, Inr None)
         else if arg = ''2'' then (put (r_stderr r) r, Inr None)
         else refuseRedirect (''>&'' @ arg @ '': unsupported fd'') r)
      else if op = RdrIn then
        (case runner_open C arg O_RDONLY 0 True r of
           (r, Inl _) \<Rightarrow> (r, Inl ())
         | (r, Inr f) \<Rightarrow> (r\<lparr>r_stdin := f\<rparr>, Inr (Some f)))
      else (r, Inl ()))"

definition redir ::
  "('w, 'c) redirEnv_scheme \<Rightarrow> 'w substCallback \<Rightarrow> redirect \<Rightarrow> 'w shell \<Rightarrow> ('w shell \<times> (unit + nat option)) option" where
  "redir C cb rd r =
     (case r_Hdoc rd of
        Some body \<Rightarrow>
          (case hdocReader C cb rd body r of
             None \<Rightarrow> None
           | Some (r, None) \<Rightarrow> Some (r, Inl ())
           | Some (r, Some pr) \<Rightarrow> Some (r\<lparr>r_stdin := pr\<rparr>, Inr (Some pr)))
      | None \<Rightarrow>
          if r_Op rd = HdocOp \<or> r_Op rd = DashHdoc then
            (case sysPipe C (world r) of
               (w, Inl e) \<Rightarrow> Some (r\<lparr>world := w\<rparr>, Inl ())
             | (w, Inr (pr, pw)) \<Rightarrow>
                 Some (onWorld (sysFeed C pw []) (r\<lparr>world := w, r_stdin := pr\<rparr>), Inr (Some pr)))
          else
            (case redirectWord C cb (case r_Word rd of None \<Rightarrow> [] | Some w \<Rightarrow> w) r of
               None \<Rightarrow> None
             | Some (r, None) \<Rightarrow> Some (r, Inl ())
             | Some (r, Some arg) \<Rightarrow>
                 (case r_N rd of
                    Some n \<Rightarrow>
                      if n = ''0'' \<and> r_Op rd \<noteq> RdrIn \<or> n \<notin> {''0'', ''1'', ''2''}
                      then Some (refuseRedirect (n @ '': unsupported fd'') r)
                      else Some (redirByOp C (r_Op rd) arg
                                   (\<lambda>f r. if n = ''2'' then r\<lparr>r_stderr := f\<rparr> else r\<lparr>r_stdout := f\<rparr>) r)
                  | None \<Rightarrow> Some (redirByOp C (r_Op rd) arg (\<lambda>f r. r\<lparr>r_stdout := f\<rparr>) r))))"

fun applyRedirects ::
  "('w, 'c) redirEnv_scheme \<Rightarrow> 'w substCallback \<Rightarrow> redirect list \<Rightarrow> nat list \<Rightarrow> 'w shell \<Rightarrow> ('w shell \<times> nat list) option" where
  "applyRedirects C cb [] closers r = Some (r, closers)"
| "applyRedirects C cb (rd # rds) closers r =
     (case redir C cb rd r of
        None \<Rightarrow> None
      | Some (r, Inl _) \<Rightarrow> Some (setCode 1 r, closers)
      | Some (r, Inr cls) \<Rightarrow>
          applyRedirects C cb rds (case cls of None \<Rightarrow> closers | Some f \<Rightarrow> closers @ [f]) r)"

text \<open>Leading blank lines of a tab-stripping heredoc are lost, for the separator is written only once
  something precedes it.\<close>

lemma hdoc_blank_lines:
  "hdocContent C cb (Redirect DashHdoc None (Some [SglQuoted ''E'']) None) [Lit (chNL # ''foo'')] r = Some (r, Inr ''foo'')"
  by (simp add: hdocContent_def isQuotedHdoc_def hdocLines_def hdocStep_def splitOn_unfold hdocExpand_def hdocLiteral_def
      MaxHeredocBytes_def Let_def)

section \<open>What a redirection can change\<close>

lemma runner_open_changes:
  "runner_open C path flg mode prnt r = (r', res) \<Longrightarrow>
     sandboxChange (sandboxKernel C) (sandbox C) path (r_Dir r) (world r) (world r')"
  using sandboxChange.intros(1) [of "sandboxKernel C" "sandbox C" path "r_Dir r" "world r" flg mode]
  by (auto simp: runner_open_def errf_def Let_def split: prod.splits sum.splits)

end
