(* ===== verification/Shell_Exec.thy ===== *)
theory Shell_Exec
  imports Redirection
begin

text \<open>
  The interpreter (\<^verbatim>\<open>interp/runner_exec.go\<close>): statements, simple commands and their assignments,
  dispatch with its policy gates, control flow, subshells, pipelines and command substitution.
  Each function of the source is a definition that takes the execution of statements, \<open>run\<close>, as
  an argument; \<open>runStmt\<close> ties the knot with fuel, \<open>None\<close> meaning that it ran out.  The two sides of
  a pipeline run one after the other.  Builtins are looked up in a registry, a field of the
  configuration.
\<close>

section \<open>Configuration\<close>

record Result =
  Code :: "8 word"
  Exiting :: bool
  BreakN :: int
  ContinueN :: int

definition zeroResult :: Result where
  "zeroResult = \<lparr>Code = 0, Exiting = False, BreakN = 0, ContinueN = 0\<rparr>"

text \<open>What a builtin is given: its place, whether it may change directory and variables (not as a
  child of another builtin), whether it has the writing operations, and how it runs others.  A
  run of a child is the exit code and, if it was refused, the message.\<close>

record 'w CallContext =
  cc_InLoop :: bool
  cc_LastExitCode :: "8 word"
  cc_Dir :: bytes
  cc_Stdin :: nat
  cc_topLevel :: bool
  cc_canWrite :: bool
  cc_RemediationMode :: bool
  cc_CommandAllowed :: "bytes \<Rightarrow> bool"
  cc_RunCommand :: "bytes \<Rightarrow> bytes \<Rightarrow> bytes list \<Rightarrow> nat option \<Rightarrow> 'w shell \<Rightarrow> ('w shell \<times> 8 word \<times> bytes option) option"

type_synonym 'w handler = "'w CallContext \<Rightarrow> bytes list \<Rightarrow> 'w shell \<Rightarrow> ('w shell \<times> Result) option"

record 'w config = "'w redirEnv" +
  allowAllCommands :: bool
  allowedCommands :: "bytes list"
  elevatableCommands :: "bytes list"
  elevate :: "(bytes \<Rightarrow> ('w shell \<Rightarrow> ('w shell \<times> Result) option) \<Rightarrow> 'w shell
               \<Rightarrow> ('w shell \<times> Result \<times> goError option) option) option"
  Lookup :: "bytes \<Rightarrow> 'w handler option"
  Meta :: "bytes \<Rightarrow> (bool \<times> bytes) option"
  ResolveName :: "variable \<Rightarrow> 'w shell \<Rightarrow> bytes"
  newBuffer :: "'w \<Rightarrow> 'w \<times> nat"
  readUpTo :: "nat \<Rightarrow> int \<Rightarrow> 'w \<Rightarrow> 'w \<times> bytes \<times> goError option"

text \<open>\<open>elevate\<close> is the caller's callback, \<open>Lookup\<close> and \<open>Meta\<close> the registry (whether a command is for
  remediation mode only, and its message), \<open>ResolveName\<close> the expander's name resolution, empty when
  there is nothing to resolve.  \<open>newBuffer\<close> makes a buffer and gives its number as a writer, \<open>readUpTo\<close>
  reads a descriptor up to a limit.\<close>

definition cmdAllowed :: "('w, 'c) config_scheme \<Rightarrow> bytes \<Rightarrow> bool" where
  "cmdAllowed C name \<longleftrightarrow> allowAllCommands C \<or> name \<in> set (allowedCommands C)"

section \<open>Dispatch\<close>

definition DefaultRemediationDeniedMessage :: "bytes \<Rightarrow> bytes" where
  "DefaultRemediationDeniedMessage name = name @ '': remediation mode required'' @ [chNL]"

definition remediationOnlyRefusal :: "('w, 'c) config_scheme \<Rightarrow> bytes \<Rightarrow> bytes option" where
  "remediationOnlyRefusal C name =
     (if remediationMode C then None
      else (case Meta C name of
              Some (True, msg) \<Rightarrow> Some (if msg = [] then DefaultRemediationDeniedMessage name else msg)
            | _ \<Rightarrow> None))"

definition noExecHandler :: "bool \<Rightarrow> bytes list \<Rightarrow> 'w shell \<Rightarrow> 'w shell \<times> goError option" where
  "noExecHandler helpAvailable args r =
     (case args of
        [] \<Rightarrow> (r, Some (OtherErr ''exec handler called with no arguments''))
      | name # _ \<Rightarrow>
          (let r = errf (''rshell: '' @ name @ '': unknown command'' @ [chNL]) r;
               r = (if helpAvailable then errf (''Run '' @ [chSQ] @ ''help'' @ [chSQ] @ '' to see available commands.'' @ [chNL]) r else r)
           in (r, Some (ExitStatusErr 127))))"

definition exec :: "('w, 'c) config_scheme \<Rightarrow> bytes list \<Rightarrow> 'w shell \<Rightarrow> 'w shell" where
  "exec C args r =
     (let (r, e) = noExecHandler (cmdAllowed C ''help'') args r
      in r\<lparr>r_exit := fromHandlerError e (r_exit r)\<rparr>)"

text \<open>Running another builtin from a builtin (find, xargs): the same gates, a child's context.\<close>

fun runCmdWithStdin ::
  "('w, 'c) config_scheme \<Rightarrow> nat \<Rightarrow> bool \<Rightarrow> nat option \<Rightarrow> bytes \<Rightarrow> bytes \<Rightarrow> bytes list \<Rightarrow> nat option \<Rightarrow> 'w shell
   \<Rightarrow> ('w shell \<times> 8 word \<times> bytes option) option" where
  "runCmdWithStdin C 0 elevated inherited dir cmdName cmdArgs childStdin r = None"
| "runCmdWithStdin C (Suc n) elevated inherited dir cmdName cmdArgs childStdin r =
     (let childStdin = (case childStdin of None \<Rightarrow> inherited | Some f \<Rightarrow> Some f) in
      if \<not> cmdAllowed C cmdName then Some (r, 127, Some (''rshell: '' @ cmdName @ '': command not allowed''))
      else (case Lookup C cmdName of
              None \<Rightarrow> Some (r, 127, Some (''rshell: '' @ cmdName @ '': unknown command''))
            | Some cmdFn \<Rightarrow>
                if elevated \<and> cmdName \<notin> set (elevatableCommands C)
                then Some (r, 126, Some (''rshell: sudo: '' @ cmdName @ '': elevation not allowed''))
                else (case remediationOnlyRefusal C cmdName of
                        Some msg \<Rightarrow> Some (errf msg r, 1, None)
                      | None \<Rightarrow>
                          map_option (\<lambda>(r, res). (r, Code res, None))
                            (cmdFn \<lparr>cc_InLoop = False, cc_LastExitCode = 0, cc_Dir = dir,
                                    cc_Stdin = (case childStdin of None \<Rightarrow> r_stdin r | Some f \<Rightarrow> f),
                                    cc_topLevel = False, cc_canWrite = (remediationMode C \<and> sandbox C \<noteq> None),
                                    cc_RemediationMode = remediationMode C, cc_CommandAllowed = cmdAllowed C,
                                    cc_RunCommand = runCmdWithStdin C n elevated childStdin\<rparr> cmdArgs r))))"

definition callContext :: "('w, 'c) config_scheme \<Rightarrow> nat \<Rightarrow> bool \<Rightarrow> 'w shell \<Rightarrow> 'w CallContext" where
  "callContext C n elevated r =
     \<lparr>cc_InLoop = inLoop r, cc_LastExitCode = code (lastExit r), cc_Dir = r_Dir r, cc_Stdin = r_stdin r,
      cc_topLevel = True, cc_canWrite = (remediationMode C \<and> sandbox C \<noteq> None),
      cc_RemediationMode = remediationMode C, cc_CommandAllowed = cmdAllowed C,
      cc_RunCommand = runCmdWithStdin C n elevated None\<rparr>"

text \<open>The gates before anything of the command is expanded: the shell that refused it, or its
  handler, if it has one.\<close>

definition gates :: "('w, 'c) config_scheme \<Rightarrow> bool \<Rightarrow> bytes \<Rightarrow> 'w shell \<Rightarrow> 'w shell + 'w handler option" where
  "gates C elevated name r =
     (let isAllowed = cmdAllowed C name; known = Lookup C name in
      if \<not> isAllowed then
        (let r = errf (''rshell: '' @ name @ '': command not allowed'' @ [chNL]) r;
             r = (if ''help'' \<in> set (allowedCommands C)
                  then errf (''Run '' @ [chSQ] @ ''help'' @ [chSQ] @ '' to see allowed commands.'' @ [chNL]) r else r)
         in Inl (setCode 127 r))
      else if elevated \<and> (elevate C = None \<or> name \<notin> set (elevatableCommands C)) then
        Inl (setCode 126 (errf (''rshell: sudo: '' @ name @ '': elevation not allowed'' @ [chNL]) r))
      else if elevated \<and> inPipelineStage r then
        Inl (setCode 126 (errf (''rshell: sudo: elevated commands are not allowed in pipelines'' @ [chNL]) r))
      else if known \<noteq> None then
        (case remediationOnlyRefusal C name of
           Some msg \<Rightarrow> Inl (setCode 1 (errf msg r))
         | None \<Rightarrow> Inr known)
      else Inr None)"

definition applyResult :: "('w, 'c) config_scheme \<Rightarrow> Result \<Rightarrow> 'w shell \<Rightarrow> 'w shell" where
  "applyResult C res r =
     (let r = r\<lparr>r_exit := (r_exit r)\<lparr>code := Code res, exiting := Exiting res\<rparr>,
                breakEnclosing := BreakN res, contnEnclosing := ContinueN res\<rparr>
      in case ex_ctx (expr C) (world r) of None \<Rightarrow> r | Some e \<Rightarrow> fatalExitWith e r)"

definition dispatch :: "('w, 'c) config_scheme \<Rightarrow> nat \<Rightarrow> bool \<Rightarrow> bytes \<Rightarrow> 'w handler \<Rightarrow> bytes list \<Rightarrow> 'w shell \<Rightarrow> 'w shell option" where
  "dispatch C n elevated name fn args r =
     (let r = r\<lparr>dispatchedCount := dispatchedCount r + 1\<rparr>;
          body = fn (callContext C n elevated r) (tl args)
      in case (if elevated then elevate C else None) of
           Some el \<Rightarrow>
             (case el name body r of
                None \<Rightarrow> None
              | Some (r, res, Some e) \<Rightarrow> Some (fatalExitWith (OtherErr (''elevating '' @ name)) r)
              | Some (r, res, None) \<Rightarrow> Some (applyResult C res r))
         | None \<Rightarrow> map_option (\<lambda>(r, res). applyResult C res r) (body r))"

text \<open>\<open>setup\<close> finishes the expansion once the gates have passed; its first result is for the caller.
  The context is asked between counting and the gates.\<close>

definition call ::
  "('w, 'c) config_scheme \<Rightarrow> nat \<Rightarrow> bytes list \<Rightarrow> ('w shell \<Rightarrow> ('x \<times> bytes list option \<times> 'w shell) option) \<Rightarrow> 'w shell
   \<Rightarrow> ('x option \<times> 'w shell) option" where
  "call C n args setup r =
     (let elevated = (args \<noteq> [] \<and> hd args = ''sudo'') in
      if elevated \<and> length args < 2
      then Some (None, setCode 2 (errf (''rshell: sudo: command is required'' @ [chNL]) r))
      else
        (let name = hd (if elevated then tl args else args);
             r = r\<lparr>totalCount := totalCount r + 1\<rparr>
         in case stop (ex_ctx (expr C)) r of
              (True, r) \<Rightarrow> Some (None, r)
            | (False, r) \<Rightarrow>
                (let r = r\<lparr>unallowedCount := unallowedCount r + (if cmdAllowed C name then 0 else 1),
                           unknownCount := unknownCount r + (if Lookup C name = None then 1 else 0)\<rparr>
                 in case gates C elevated name r of
                      Inl r \<Rightarrow> Some (None, r)
                    | Inr known \<Rightarrow>
                        (case setup r of
                           None \<Rightarrow> None
                         | Some (x, None, r) \<Rightarrow> Some (Some x, r)
                         | Some (x, Some prepared, r) \<Rightarrow>
                             (let args = (if elevated then tl prepared else prepared)
                              in case known of
                                   Some fn \<Rightarrow> map_option (Pair (Some x)) (dispatch C n elevated name fn args r)
                                 | None \<Rightarrow> Some (Some x, exec C args r))))))"

section \<open>Subshells\<close>

definition subshell :: "('w, 'c) config_scheme \<Rightarrow> bool \<Rightarrow> 'w shell \<Rightarrow> 'w shell \<times> 'w shell" where
  "subshell C background r =
     (let (h, i) = newOverlayEnviron (ex_api (expr C)) (Overlay (writeEnv r)) background (r_heap r);
          r = r\<lparr>r_heap := h\<rparr>
      in (r, r\<lparr>writeEnv := i, inLoop := False, breakEnclosing := 0, contnEnclosing := 0,
               lastExpandExit := zeroExit, totalCount := 0, dispatchedCount := 0, unallowedCount := 0,
               unknownCount := 0, activeFields := None\<rparr>))"

text \<open>What the runners of one run share through pointers: \<open>shareFrom r2 r\<close> is \<open>r\<close> after \<open>r2\<close> has run.\<close>

definition shareFrom :: "'w shell \<Rightarrow> 'w shell \<Rightarrow> 'w shell" where
  "shareFrom r2 r =
     r\<lparr>r_heap := r_heap r2, r_written := r_written r2, expansionByteCount := expansionByteCount r2,
       fileRemovalCount := fileRemovalCount r2, world := world r2\<rparr>"

definition addCounts :: "'w shell \<Rightarrow> 'w shell \<Rightarrow> 'w shell" where
  "addCounts r2 r =
     r\<lparr>totalCount := totalCount r + totalCount r2, dispatchedCount := dispatchedCount r + dispatchedCount r2,
       unallowedCount := unallowedCount r + unallowedCount r2, unknownCount := unknownCount r + unknownCount r2\<rparr>"

definition notExiting :: "exitStatus \<Rightarrow> exitStatus" where
  "notExiting e = (if limitExit e then e else e\<lparr>exiting := False\<rparr>)"

section \<open>Statement lists and loops\<close>

definition interrupted :: "'w shell \<Rightarrow> bool" where
  "interrupted r \<longleftrightarrow> exiting (r_exit r) \<or> breakEnclosing r > 0 \<or> contnEnclosing r > 0"

type_synonym 'w runner = "stmt \<Rightarrow> 'w shell \<Rightarrow> 'w shell option"

fun stmts :: "'w runner \<Rightarrow> stmt list \<Rightarrow> 'w shell \<Rightarrow> 'w shell option" where
  "stmts run [] r = Some r"
| "stmts run (st # sts) r =
     (case run st r of
        None \<Rightarrow> None
      | Some r \<Rightarrow> if interrupted r then Some r else stmts run sts r)"

fun loopBody :: "'w runner \<Rightarrow> stmt list \<Rightarrow> 'w shell \<Rightarrow> (bool \<times> 'w shell) option" where
  "loopBody run [] r = Some (False, r)"
| "loopBody run (st # sts) r =
     (case run st r of
        None \<Rightarrow> None
      | Some r \<Rightarrow>
          if contnEnclosing r > 0 then
            (let r = r\<lparr>contnEnclosing := contnEnclosing r - 1\<rparr> in Some (contnEnclosing r > 0, r))
          else if breakEnclosing r > 0 then Some (True, r\<lparr>breakEnclosing := breakEnclosing r - 1\<rparr>)
          else loopBody run sts r)"

definition loopStmtsBroken :: "'w runner \<Rightarrow> stmt list \<Rightarrow> 'w shell \<Rightarrow> (bool \<times> 'w shell) option" where
  "loopStmtsBroken run sts r =
     map_option (\<lambda>(b, r'). (b, r'\<lparr>inLoop := inLoop r\<rparr>)) (loopBody run sts (r\<lparr>inLoop := True\<rparr>))"

fun execIfChain :: "'w runner \<Rightarrow> ifClause \<Rightarrow> 'w shell \<Rightarrow> 'w shell option" where
  "execIfChain run (If hasThen cond thn els) r =
     (if \<not> hasThen then stmts run thn r
      else (case stmts run cond r of
              None \<Rightarrow> None
            | Some r \<Rightarrow>
                if interrupted r then Some r
                else if ok (r_exit r) then stmts run thn r
                else (case els of
                        None \<Rightarrow> Some (setExit zeroExit r)
                      | Some ic \<Rightarrow> execIfChain run ic (setExit zeroExit r))))"

definition clampLoops :: "bool \<Rightarrow> 'w shell \<Rightarrow> 'w shell" where
  "clampLoops nested r = (if nested then r else r\<lparr>breakEnclosing := 0, contnEnclosing := 0\<rparr>)"

fun forIterations :: "('w, 'c) config_scheme \<Rightarrow> 'w runner \<Rightarrow> bytes \<Rightarrow> stmt list \<Rightarrow> bytes list \<Rightarrow> 'w shell \<Rightarrow> 'w shell option" where
  "forIterations C run name body [] r = Some r"
| "forIterations C run name body (field # items) r =
     (case ex_ctx (expr C) (world r) of
        Some e \<Rightarrow> Some (fatalExitWith e r)
      | None \<Rightarrow>
          (case loopStmtsBroken run body (setVarString (ex_api (expr C)) name field r) of
             None \<Rightarrow> None
           | Some (broken, r) \<Rightarrow>
               if \<not> broken then forIterations C run name body items r
               else if contnEnclosing r > 0 \<and> \<not> inLoop r
               then forIterations C run name body items (r\<lparr>contnEnclosing := 0\<rparr>)
               else Some r))"

definition execFor ::
  "('w, 'c) config_scheme \<Rightarrow> 'w runner \<Rightarrow> 'w substCallback \<Rightarrow> bytes \<Rightarrow> bool \<Rightarrow> syn_word list \<Rightarrow> stmt list \<Rightarrow> 'w shell
   \<Rightarrow> 'w shell option" where
  "execFor C run cb name inToken ws body r =
     (case (if inToken then expandFields (expr C) cb ws r else Some (Params r, r)) of
        None \<Rightarrow> None
      | Some (items, r) \<Rightarrow> map_option (\<lambda>r. clampLoops (inLoop r) r) (forIterations C run name body items r))"

text \<open>The iterations of a while or until loop, at most as many as the fuel: the state, the status of
  the last body, whether a body ran, and whether the condition list ended the loop.\<close>

fun whileIterations ::
  "('w, 'c) config_scheme \<Rightarrow> 'w runner \<Rightarrow> nat \<Rightarrow> bool \<Rightarrow> stmt list \<Rightarrow> stmt list \<Rightarrow> bool \<Rightarrow> exitStatus option \<Rightarrow> 'w shell
   \<Rightarrow> ('w shell \<times> exitStatus option \<times> bool) option" where
  "whileIterations C run 0 until cond body oldInLoop lastBody r = None"
| "whileIterations C run (Suc k) until cond body oldInLoop lastBody r =
     (case ex_ctx (expr C) (world r) of
        Some e \<Rightarrow> Some (fatalExitWith e r, lastBody, False)
      | None \<Rightarrow>
          (case stmts run cond r of
             None \<Rightarrow> None
           | Some r \<Rightarrow>
               if exiting (r_exit r) \<or> fatalExit (r_exit r) then Some (r, lastBody, False)
               else if breakEnclosing r > 0
               then Some (r\<lparr>breakEnclosing := breakEnclosing r - 1\<rparr>, lastBody, True)
               else if contnEnclosing r > 0 then
                 (let r = r\<lparr>contnEnclosing := contnEnclosing r - 1\<rparr> in
                  if contnEnclosing r > 0 \<and> oldInLoop then Some (r, lastBody, False)
                  else
                    (let r = (if contnEnclosing r > 0 then r\<lparr>contnEnclosing := 0\<rparr> else r) in
                     if ok (r_exit r) = until then Some (r, lastBody, True)
                     else whileIterations C run k until cond body oldInLoop lastBody r))
               else if ok (r_exit r) = until then Some (r, lastBody, False)
               else
                 (case loopStmtsBroken run body (setExit zeroExit r) of
                    None \<Rightarrow> None
                  | Some (broken, r) \<Rightarrow>
                      (let lastBody = Some (r_exit r) in
                       if \<not> broken then whileIterations C run k until cond body oldInLoop lastBody r
                       else if contnEnclosing r > 0 \<and> \<not> oldInLoop
                       then whileIterations C run k until cond body oldInLoop lastBody (r\<lparr>contnEnclosing := 0\<rparr>)
                       else Some (r, lastBody, False)))))"

definition execWhileClause ::
  "('w, 'c) config_scheme \<Rightarrow> 'w runner \<Rightarrow> nat \<Rightarrow> bool \<Rightarrow> stmt list \<Rightarrow> stmt list \<Rightarrow> 'w shell \<Rightarrow> 'w shell option" where
  "execWhileClause C run k until cond body r =
     (case whileIterations C run k until cond body (inLoop r) None (r\<lparr>inLoop := True\<rparr>) of
        None \<Rightarrow> None
      | Some (r', lastBody, condBroke) \<Rightarrow>
          (let r' = clampLoops (inLoop r) r';
               r' = (if exiting (r_exit r') \<or> fatalExit (r_exit r') \<or> condBroke then r'
                     else (case lastBody of Some e \<Rightarrow> setExit e r' | None \<Rightarrow> setExit zeroExit r'))
           in Some (r'\<lparr>inLoop := inLoop r\<rparr>)))"

section \<open>Command substitution\<close>

definition catShortcutArg :: "stmt \<Rightarrow> syn_word option" where
  "catShortcutArg st =
     (case st of Stmt cmd negated background coprocess disown rds \<Rightarrow>
        if cmd \<noteq> None \<or> negated \<or> background \<or> coprocess \<or> disown then None
        else (case rds of [rd] \<Rightarrow> if r_Op rd \<noteq> RdrIn then None else r_Word rd | _ \<Rightarrow> None))"

definition substExit :: "8 word \<Rightarrow> 'w shell \<Rightarrow> 'w shell" where
  "substExit c r = r\<lparr>lastExpandExit := zeroExit\<lparr>code := c\<rparr>, lastExit := zeroExit\<lparr>code := c\<rparr>\<rparr>"

definition goErrText :: "goError \<Rightarrow> bytes" where
  "goErrText e = (case e of OtherErr m \<Rightarrow> m | ExitStatusErr c \<Rightarrow> ''exit status '' @ itoa (uint c))"

definition chargedOutput :: "('w, 'c) config_scheme \<Rightarrow> nat \<Rightarrow> bytes \<Rightarrow> 'w shell \<Rightarrow> 'w shell \<times> (expErr + bytes)" where
  "chargedOutput C i out r =
     (case chargeSplitSubstOutput (expr C) i out r of
        (r, Some e) \<Rightarrow> (r, Inl e)
      | (r, None) \<Rightarrow> (r, Inr out))"

text \<open>Reading the file of \<^verbatim>\<open>$(<file)\<close>, once the path is known.\<close>

definition catShortcut :: "('w, 'c) config_scheme \<Rightarrow> nat \<Rightarrow> bytes \<Rightarrow> 'w shell \<Rightarrow> 'w shell \<times> (expErr + bytes)" where
  "catShortcut C i path r =
     (case runner_open C path O_RDONLY 0 True r of
        (r, Inl _) \<Rightarrow> (substExit 1 r, Inr [])
      | (r, Inr f) \<Rightarrow>
          if (case k_fstat (sandboxKernel C) f (world r) of Inr info \<Rightarrow> fi_type info = DirType | Inl _ \<Rightarrow> False)
          then (closeFd C f (substExit 0 r), Inr [])
          else
            (case readUpTo C f maxCmdSubstOutput (world r) of
               (w, out, er) \<Rightarrow>
                 (let r = substExit (if er = None then 0 else 1) (r\<lparr>world := w\<rparr>);
                      (r, res) = (case er of Some e \<Rightarrow> (r, Inl (OtherExpErr (goErrText e)))
                                           | None \<Rightarrow> chargedOutput C i out r)
                  in (closeFd C f r, res))))"

definition substResult :: "('w, 'c) config_scheme \<Rightarrow> nat \<Rightarrow> bytes \<Rightarrow> exitStatus \<Rightarrow> 'w shell \<Rightarrow> 'w shell \<times> (expErr + bytes)" where
  "substResult C i out e r =
     (let r = r\<lparr>lastExpandExit := e, lastExit := e\<rparr> in
      if fatalExit e then
        (r\<lparr>r_exit := fatal (err e) (r_exit r)\<rparr>,
         Inl (OtherExpErr (case err e of Some er \<Rightarrow> goErrText er | None \<Rightarrow> [])))
      else if limitExit e then
        (r\<lparr>r_exit := (r_exit r)\<lparr>code := 1, exiting := True, limitExit := True\<rparr>\<rparr>, Inr [])
      else chargedOutput C i out r)"

fun cmdSubst :: "('w, 'c) config_scheme \<Rightarrow> 'w runner \<Rightarrow> nat \<Rightarrow> 'w substCallback" where
  "cmdSubst C run 0 i sts r = None"
| "cmdSubst C run (Suc n) i sts r =
     (case sts of
        [] \<Rightarrow> Some (r, Inr [])
      | st # rest \<Rightarrow>
          (case (if rest = [] then catShortcutArg st else None) of
             Some w \<Rightarrow>
               if \<not> cmdAllowed C ''cat'' then
                 Some (substExit 1 (errf (''$(<file): file read not permitted (cat not in allowed commands)'' @ [chNL]) r), Inr [])
               else (case redirectWord C (cmdSubst C run n) w r of
                       None \<Rightarrow> None
                     | Some (r, None) \<Rightarrow> Some (substExit 1 r, Inr [])
                     | Some (r, Some path) \<Rightarrow> Some (catShortcut C i path r))
           | None \<Rightarrow>
               (let (r, r2) = subshell C False r;
                    (w, buf) = newBuffer C (world r2)
                in case stmts run sts (r2\<lparr>world := w, r_stdout := buf, inLoop := inLoop r\<rparr>) of
                     None \<Rightarrow> None
                   | Some r2 \<Rightarrow>
                       (let r2 = releaseVarStorage r2
                        in Some (substResult C i (captured maxCmdSubstOutput (writesTo buf (r_written r2)))
                                   ((r_exit r2)\<lparr>exiting := False\<rparr>) (shareFrom r2 r))))))"

section \<open>Simple commands\<close>

definition assignVal ::
  "('w, 'c) config_scheme \<Rightarrow> 'w substCallback \<Rightarrow> variable \<Rightarrow> assign \<Rightarrow> 'w shell \<Rightarrow> (variable \<times> 'w shell) option" where
  "assignVal C cb prv as r =
     (case as of Assign name app arr idx val \<Rightarrow>
        if app then Some (emptyVar, internalErrorf ''assignVal: append should have been rejected by AST validation'' r)
        else if arr then Some (emptyVar, internalErrorf ''assignVal: array assignment should have been rejected by AST validation'' r)
        else (case val of
                Some w \<Rightarrow> map_option (\<lambda>(str, r). (prv\<lparr>vSet := True, vKind := StringKind, vStr := str\<rparr>, r))
                            (assignmentLiteral (expr C) cb name w r)
              | None \<Rightarrow> Some (prv\<lparr>vSet := True, vKind := StringKind, vStr := []\<rparr>, r)))"

definition setVarWithIndex :: "('w, 'c) config_scheme \<Rightarrow> variable \<Rightarrow> bytes \<Rightarrow> bool \<Rightarrow> variable \<Rightarrow> 'w shell \<Rightarrow> 'w shell" where
  "setVarWithIndex C prv name hasIndex vr r =
     (if hasIndex then internalErrorf ''setVarWithIndex: index should have been rejected by AST validation'' r
      else (let name2 = ResolveName C (prv\<lparr>vSet := True\<rparr>) r
            in setVar (ex_api (expr C)) (if name2 \<noteq> [] then name2 else name) vr r))"

fun bareAssigns :: "('w, 'c) config_scheme \<Rightarrow> 'w substCallback \<Rightarrow> assign list \<Rightarrow> 'w shell \<Rightarrow> 'w shell option" where
  "bareAssigns C cb [] r = Some r"
| "bareAssigns C cb (Assign name app arr idx val # asgs) r =
     (let (r, prv) = lookupVar (ex_api (expr C)) name r; prv = prv\<lparr>vLocal := False\<rparr>
      in case assignVal C cb prv (Assign name app arr idx val) r of
           None \<Rightarrow> None
         | Some (vr, r) \<Rightarrow> if \<not> ok (r_exit r) then Some r
                           else bareAssigns C cb asgs (setVarWithIndex C prv name idx vr r))"

text \<open>The values of the assignments before a command, each seeing the ones before it.\<close>

fun inlineValues ::
  "('w, 'c) config_scheme \<Rightarrow> 'w substCallback \<Rightarrow> assign list \<Rightarrow> (bytes \<times> variable) list \<Rightarrow> 'w shell
   \<Rightarrow> ((bytes \<times> variable) list \<times> 'w shell) option" where
  "inlineValues C cb [] acc r = Some (acc, r)"
| "inlineValues C cb (Assign name app arr idx val # asgs) acc r =
     (let (r, prv) = lookupVar (ex_api (expr C)) name r
      in case assignVal C cb prv (Assign name app arr idx val) r of
           None \<Rightarrow> None
         | Some (vr, r) \<Rightarrow>
             if \<not> ok (r_exit r) then Some (acc, r)
             else (let vr = vr\<lparr>vExported := True\<rparr>
                   in inlineValues C cb asgs (acc @ [(name, vr)]) (setVar (ex_api (expr C)) name vr r)))"

definition inlineAssignments ::
  "('w, 'c) config_scheme \<Rightarrow> 'w substCallback \<Rightarrow> assign list \<Rightarrow> 'w shell \<Rightarrow> ((bytes \<times> variable) list \<times> 'w shell) option" where
  "inlineAssignments C cb asgs r =
     (let (h, i) = newOverlayEnviron (ex_api (expr C)) (Overlay (writeEnv r)) False (r_heap r)
      in map_option (\<lambda>(acc, r'). (acc, r'\<lparr>r_heap := release i (r_heap r'), writeEnv := writeEnv r\<rparr>))
           (inlineValues C cb asgs [] (r\<lparr>r_heap := h, writeEnv := i\<rparr>)))"

type_synonym restoreVar = "nat \<times> bindingSnapshot"

fun installAssignments ::
  "('w, 'c) config_scheme \<Rightarrow> (bytes \<times> variable) list \<Rightarrow> bytes list \<Rightarrow> restoreVar list \<Rightarrow> 'w shell \<Rightarrow> restoreVar list \<times> 'w shell" where
  "installAssignments C [] seen restores r = (restores, r)"
| "installAssignments C ((name, vr) # rest) seen restores r =
     (let restores = (if name \<in> set seen then restores
                      else restores @ [(writeEnv r, snapshotBinding (writeEnv r) name (r_heap r))])
      in installAssignments C rest (name # seen) restores (setVar (ex_api (expr C)) name vr r))"

text \<open>What is left to do once the gates have passed: the other words, the assignments, the
  redirections.  It hands back what has to be undone and closed.\<close>

definition callSetup ::
  "('w, 'c) config_scheme \<Rightarrow> 'w substCallback \<Rightarrow> assign list \<Rightarrow> syn_word list \<Rightarrow> redirect list \<Rightarrow> fieldCollector \<Rightarrow> nat list
   \<Rightarrow> 'w shell \<Rightarrow> ((restoreVar list \<times> nat list) \<times> bytes list option \<times> 'w shell) option" where
  "callSetup C cb asgs ws redirs c closers r =
     (case fieldCollector_add (expr C) cb ws c r of
        None \<Rightarrow> None
      | Some (False, c, r) \<Rightarrow> Some (([], closers), None, r)
      | Some (True, c, r) \<Rightarrow>
          (case inlineAssignments C cb asgs r of
             None \<Rightarrow> None
           | Some (values, r) \<Rightarrow>
               if \<not> ok (r_exit r) then Some (([], closers), None, r)
               else
                 (case applyRedirects C cb redirs closers r of
                    None \<Rightarrow> None
                  | Some (r, closers) \<Rightarrow>
                      if \<not> ok (r_exit r) then Some (([], closers), None, r)
                      else (let (restores, r) = installAssignments C values [] [] r
                            in Some ((restores, closers), if ok (r_exit r) then Some (c_fields c) else None, r)))))"

definition restoreVars :: "bytes \<Rightarrow> restoreVar list \<Rightarrow> 'w shell \<Rightarrow> 'w shell" where
  "restoreVars cmdName restores r =
     (let isCd = (cmdName = ''cd'' \<and> ok (r_exit r)) in
      foldl (\<lambda>r (env, snap). if isCd \<and> snap_name snap \<in> {''PWD'', ''OLDPWD''} then r
                             else r\<lparr>r_heap := restoreBinding env snap (r_heap r)\<rparr>) r restores)"

text \<open>Words are added while the fields so far are \<open>pending\<close>.\<close>

fun leadWords ::
  "'w expander \<Rightarrow> 'w substCallback \<Rightarrow> (bytes list \<Rightarrow> bool) \<Rightarrow> syn_word list \<Rightarrow> fieldCollector \<Rightarrow> 'w shell
   \<Rightarrow> (syn_word list \<times> fieldCollector \<times> 'w shell) option" where
  "leadWords X cb pending [] c r = Some ([], c, r)"
| "leadWords X cb pending (w # ws) c r =
     (if \<not> pending (c_fields c) then Some (w # ws, c, r)
      else (case fieldCollector_add X cb [w] c r of
              None \<Rightarrow> None
            | Some (_, c, r) \<Rightarrow> leadWords X cb pending ws c r))"

definition bareCommand ::
  "('w, 'c) config_scheme \<Rightarrow> 'w substCallback \<Rightarrow> assign list \<Rightarrow> redirect list \<Rightarrow> nat list \<Rightarrow> 'w shell \<Rightarrow> ('w shell \<times> nat list) option" where
  "bareCommand C cb asgs redirs closers r =
     (case applyRedirects C cb redirs closers r of
        None \<Rightarrow> None
      | Some (r, closers) \<Rightarrow>
          (case (if ok (r_exit r) then bareAssigns C cb asgs r else Some r) of
             None \<Rightarrow> None
           | Some r \<Rightarrow> Some (if ok (r_exit r) then setExit (lastExpandExit r) r else r, closers)))"

definition callExpr ::
  "('w, 'c) config_scheme \<Rightarrow> nat \<Rightarrow> 'w substCallback \<Rightarrow> assign list \<Rightarrow> syn_word list \<Rightarrow> redirect list \<Rightarrow> nat list \<Rightarrow> 'w shell
   \<Rightarrow> ('w shell \<times> nat list) option" where
  "callExpr C n cb asgs args redirs closers r =
     (let r = r\<lparr>lastExpandExit := zeroExit\<rparr>;
          c = newFieldCollector (MaxExpandedArgumentsPerCommand + 2)
      in case leadWords (expr C) cb (\<lambda>fs. fs = []) args c r of
           None \<Rightarrow> None
         | Some (ws, c, r) \<Rightarrow>
             (case leadWords (expr C) cb (\<lambda>fs. fs = [''sudo'']) ws c r of
                None \<Rightarrow> None
              | Some (ws, c, r) \<Rightarrow>
                  if \<not> ok (r_exit r) then Some (r, closers)
                  else
                    (case c_fields c of
                       [] \<Rightarrow> bareCommand C cb asgs redirs closers r
                     | cmdName # others \<Rightarrow>
                         (case setCommandPrefixFields (if cmdName = ''sudo'' \<and> others \<noteq> [] then 2 else 1) c r of
                            (False, c, r) \<Rightarrow> Some (r, closers)
                          | (True, c, r) \<Rightarrow>
                              map_option (\<lambda>(x, r). (case x of
                                   None \<Rightarrow> (r, closers)
                                 | Some (restores, closers) \<Rightarrow> (restoreVars cmdName restores r, closers)))
                                (call C n (cmdName # others) (callSetup C cb asgs ws redirs c closers) r)))))"

section \<open>Commands\<close>

definition pipelineStageInheritsInLoop :: "stmt \<Rightarrow> bool" where
  "pipelineStageInheritsInLoop st =
     (case st of Stmt cmd negated background coprocess disown rds \<Rightarrow>
        (case cmd of
           Some (CallExpr asgs args) \<Rightarrow> True
         | Some (BinaryCmd op x y) \<Rightarrow> op = Pipe
         | _ \<Rightarrow> False))"

definition pipeStage :: "'w shell \<Rightarrow> stmt \<Rightarrow> 'w shell \<Rightarrow> 'w shell" where
  "pipeStage parentR st r =
     r\<lparr>inPipeline := True, inPipelineStage := True,
       inLoop := (pipelineStageInheritsInLoop st \<and> inLoop parentR)\<rparr>"

definition execPipe :: "('w, 'c) config_scheme \<Rightarrow> 'w runner \<Rightarrow> stmt \<Rightarrow> stmt \<Rightarrow> 'w shell \<Rightarrow> 'w shell option" where
  "execPipe C run x y r =
     (case sysPipe C (world r) of
        (w, Inl e) \<Rightarrow> Some (fatalExitWith e (r\<lparr>world := w\<rparr>))
      | (w, Inr (pr, pw)) \<Rightarrow>
          (let (r, rLeft) = subshell C True (r\<lparr>world := w\<rparr>);
               (r, rRight) = subshell C True r;
               rLeft = pipeStage r x (rLeft\<lparr>r_heap := r_heap r, r_stdout := pw\<rparr>);
               rRight = pipeStage r y (rRight\<lparr>r_stdin := pr\<rparr>)
           in case run x rLeft of
                None \<Rightarrow> None
              | Some rLeft \<Rightarrow>
                  (let rLeft = closeFd C pw (releaseVarStorage rLeft) in
                   case run y (shareFrom rLeft rRight) of
                     None \<Rightarrow> None
                   | Some rRight \<Rightarrow>
                       (let rRight = releaseVarStorage rRight;
                            r = closeFd C pr (addCounts rRight (addCounts rLeft (shareFrom rRight r)));
                            r = setExit (notExiting (r_exit rRight)) r;
                            r = (if fatalExit (r_exit rLeft) then r\<lparr>r_exit := fatal (err (r_exit rLeft)) (r_exit r)\<rparr> else r)
                        in Some (if limitExit (r_exit rLeft)
                                 then r\<lparr>r_exit := (r_exit r)\<lparr>code := 1, exiting := True, limitExit := True\<rparr>\<rparr>
                                 else r)))))"

definition execSubshell :: "('w, 'c) config_scheme \<Rightarrow> 'w runner \<Rightarrow> stmt list \<Rightarrow> 'w shell \<Rightarrow> 'w shell option" where
  "execSubshell C run sts r =
     (let (r, r2) = subshell C False r
      in case stmts run sts (r2\<lparr>inPipeline := False\<rparr>) of
           None \<Rightarrow> None
         | Some r2 \<Rightarrow>
             (let r2 = releaseVarStorage r2
              in Some (addCounts r2 (setExit (notExiting (r_exit r2)) (shareFrom r2 r)))))"

definition cmd :: "('w, 'c) config_scheme \<Rightarrow> 'w runner \<Rightarrow> nat \<Rightarrow> 'w substCallback \<Rightarrow> command \<Rightarrow> 'w shell \<Rightarrow> 'w shell option" where
  "cmd C run n cb cm r =
     (case stop (ex_ctx (expr C)) r of
        (True, r) \<Rightarrow> Some r
      | (False, r) \<Rightarrow>
          (case cm of
             Subshell sts \<Rightarrow> execSubshell C run sts r
           | Block sts \<Rightarrow> stmts run sts r
           | CallExpr asgs args \<Rightarrow> map_option fst (callExpr C n cb asgs args [] [] r)
           | BinaryCmd op x y \<Rightarrow>
               (if op = AndStmt \<or> op = OrStmt then
                  (case run x r of
                     None \<Rightarrow> None
                   | Some r \<Rightarrow>
                       if interrupted r then Some r
                       else if ok (r_exit r) = (op = AndStmt) then run y r
                       else Some r)
                else if op = Pipe then execPipe C run x y r
                else Some r)
           | IfClause ic \<Rightarrow> execIfChain run ic r
           | ForClause sel loop body \<Rightarrow>
               (case loop of
                  Some (name, inToken, items) \<Rightarrow> execFor C run cb name inToken items body r
                | None \<Rightarrow> Some (fatalExitWith (OtherErr ''unsupported loop type'') r))
           | WhileClause until cond body \<Rightarrow> execWhileClause C run n until cond body r
           | OtherCommand oc \<Rightarrow> Some (fatalExitWith (OtherErr ''unsupported command node'') r)))"

section \<open>Statements\<close>

definition stmtSync :: "('w, 'c) config_scheme \<Rightarrow> 'w runner \<Rightarrow> nat \<Rightarrow> 'w substCallback \<Rightarrow> stmt \<Rightarrow> 'w shell \<Rightarrow> 'w shell option" where
  "stmtSync C run n cb st r =
     (case st of Stmt cm negated background coprocess disown redirs \<Rightarrow>
        (case (case cm of
                 Some (CallExpr asgs args) \<Rightarrow> callExpr C n cb asgs args redirs [] r
               | _ \<Rightarrow>
                   (case applyRedirects C cb redirs [] r of
                      None \<Rightarrow> None
                    | Some (r, closers) \<Rightarrow>
                        (case (ok (r_exit r), cm) of
                           (True, Some c) \<Rightarrow> map_option (\<lambda>r. (r, closers)) (cmd C run n cb c r)
                         | _ \<Rightarrow> Some (r, closers)))) of
           None \<Rightarrow> None
         | Some (r', closers) \<Rightarrow>
             (let r' = (if negated \<and> \<not> exiting (r_exit r')
                        then setExit (oneIf (ok (r_exit r')) zeroExit) r' else r');
                  r' = r'\<lparr>r_stdin := r_stdin r, r_stdout := r_stdout r, r_stderr := r_stderr r\<rparr>
              in Some (foldr (closeFd C) closers r'))))"

definition stmtWith :: "('w, 'c) config_scheme \<Rightarrow> 'w runner \<Rightarrow> nat \<Rightarrow> 'w substCallback \<Rightarrow> stmt \<Rightarrow> 'w shell \<Rightarrow> 'w shell option" where
  "stmtWith C run n cb st r =
     (case stop (ex_ctx (expr C)) r of
        (True, r) \<Rightarrow> Some r
      | (False, r) \<Rightarrow> map_option (\<lambda>r. r\<lparr>lastExit := r_exit r\<rparr>) (stmtSync C run n cb st (setExit zeroExit r)))"

text \<open>The knot: with fuel \<open>n\<close>, statements run below depth \<open>n\<close>, loops at most \<open>n\<close> times each.\<close>

fun runStmt :: "('w, 'c) config_scheme \<Rightarrow> nat \<Rightarrow> 'w runner" where
  "runStmt C 0 st r = None"
| "runStmt C (Suc n) st r = stmtWith C (runStmt C n) n (cmdSubst C (runStmt C n) n) st r"

end
