(* ===== verification/Option_Calculus.thy ===== *)
theory Option_Calculus
  imports Prelude
begin

text \<open>
  Three calculi for computations that may not return: \<open>opost P a\<close>, that every value \<open>a\<close> returns satisfies
  \<open>P\<close>, \<open>ole a b\<close>, that \<open>b\<close> returns what \<open>a\<close> returns if \<open>a\<close> returns, and \<open>odef a\<close>, that \<open>a\<close> returns.  Their rules follow the
  structure of a definition, so that a proof about it is reduced to its calls.
\<close>

definition opost :: "('a \<Rightarrow> bool) \<Rightarrow> 'a option \<Rightarrow> bool" where
  "opost P a \<longleftrightarrow> (\<forall>x. a = Some x \<longrightarrow> P x)"

definition ole :: "'a option \<Rightarrow> 'a option \<Rightarrow> bool" where
  "ole a b \<longleftrightarrow> a = None \<or> a = b"

section \<open>Partial correctness\<close>

lemma opost_None [simp, intro]: "opost P None"
  by (simp add: opost_def)

lemma opost_Some [simp]: "opost P (Some x) \<longleftrightarrow> P x"
  by (simp add: opost_def)

lemma opost_mono: "opost P a \<Longrightarrow> (\<And>x. P x \<Longrightarrow> Q x) \<Longrightarrow> opost Q a"
  by (auto simp: opost_def)

lemma opost_bind:
  "opost P a \<Longrightarrow> (\<And>x. P x \<Longrightarrow> opost Q (f x)) \<Longrightarrow> opost Q (case a of None \<Rightarrow> None | Some x \<Rightarrow> f x)"
  by (cases a) auto

lemma opost_map: "opost (\<lambda>x. P (f x)) a \<Longrightarrow> opost P (map_option f a)"
  by (cases a) auto

text \<open>Rules that follow a definition's branches and keep what is known in each.\<close>

named_theorems opost_intros

lemma opost_option [opost_intros]:
  "(c = None \<Longrightarrow> opost P a) \<Longrightarrow> (\<And>x. c = Some x \<Longrightarrow> opost P (f x)) \<Longrightarrow> opost P (case c of None \<Rightarrow> a | Some x \<Rightarrow> f x)"
  by (cases c) auto

lemma opost_if [opost_intros]: "(c \<Longrightarrow> opost P a) \<Longrightarrow> (\<not> c \<Longrightarrow> opost P b) \<Longrightarrow> opost P (if c then a else b)"
  by simp

lemma opost_prod [opost_intros]: "(\<And>x y. p = (x, y) \<Longrightarrow> opost P (f x y)) \<Longrightarrow> opost P (case p of (x, y) \<Rightarrow> f x y)"
  by (cases p) auto

lemma opost_sum [opost_intros]:
  "(\<And>x. s = Inl x \<Longrightarrow> opost P (f x)) \<Longrightarrow> (\<And>y. s = Inr y \<Longrightarrow> opost P (g y)) \<Longrightarrow> opost P (case s of Inl x \<Rightarrow> f x | Inr y \<Rightarrow> g y)"
  by (cases s) auto

section \<open>Definedness order\<close>

lemma ole_refl [simp, intro]: "ole a a"
  by (simp add: ole_def)

lemma ole_None [simp, intro]: "ole None b"
  by (simp add: ole_def)

lemma ole_trans: "ole a b \<Longrightarrow> ole b c \<Longrightarrow> ole a c"
  by (auto simp: ole_def)

lemma ole_SomeD: "ole a b \<Longrightarrow> a = Some x \<Longrightarrow> b = Some x"
  by (simp add: ole_def)

named_theorems ole_intros

lemma ole_bind [ole_intros]:
  "ole a b \<Longrightarrow> (\<And>x. ole (f x) (g x)) \<Longrightarrow>
     ole (case a of None \<Rightarrow> None | Some x \<Rightarrow> f x) (case b of None \<Rightarrow> None | Some x \<Rightarrow> g x)"
  unfolding ole_def by (elim disjE) (simp_all split: option.split)

lemma ole_map [ole_intros]: "ole a b \<Longrightarrow> ole (map_option f a) (map_option f b)"
  by (auto simp: ole_def)

lemma ole_if [ole_intros]: "(c \<Longrightarrow> ole a a') \<Longrightarrow> (\<not> c \<Longrightarrow> ole b b') \<Longrightarrow> ole (if c then a else b) (if c then a' else b')"
  by simp

lemma ole_prod [ole_intros]: "(\<And>x y. ole (f x y) (g x y)) \<Longrightarrow> ole (case p of (x, y) \<Rightarrow> f x y) (case p of (x, y) \<Rightarrow> g x y)"
  by (cases p) simp

lemma ole_sum [ole_intros]:
  "(\<And>x. ole (f x) (f' x)) \<Longrightarrow> (\<And>x. ole (g x) (g' x)) \<Longrightarrow>
     ole (case s of Inl x \<Rightarrow> f x | Inr y \<Rightarrow> g y) (case s of Inl x \<Rightarrow> f' x | Inr y \<Rightarrow> g' y)"
  by (cases s) simp_all

lemma ole_bool [ole_intros]:
  "ole a a' \<Longrightarrow> ole b b' \<Longrightarrow> ole (case c of True \<Rightarrow> a | False \<Rightarrow> b) (case c of True \<Rightarrow> a' | False \<Rightarrow> b')"
  by (cases c) simp_all

lemma ole_option [ole_intros]:
  "ole a a' \<Longrightarrow> (\<And>x. ole (f x) (g x)) \<Longrightarrow>
     ole (case c of None \<Rightarrow> a | Some x \<Rightarrow> f x) (case c of None \<Rightarrow> a' | Some x \<Rightarrow> g x)"
  by (cases c) simp_all

lemma ole_list [ole_intros]:
  "ole a a' \<Longrightarrow> (\<And>x xs. ole (f x xs) (g x xs)) \<Longrightarrow>
     ole (case c of [] \<Rightarrow> a | x # xs \<Rightarrow> f x xs) (case c of [] \<Rightarrow> a' | x # xs \<Rightarrow> g x xs)"
  by (cases c) simp_all

section \<open>Definedness\<close>

definition odef :: "'a option \<Rightarrow> bool" where
  "odef a \<longleftrightarrow> a \<noteq> None"

lemma odef_simps [simp]: "odef (Some x)" "\<not> odef None" "odef (map_option f a) = odef a"
  by (simp_all add: odef_def)

named_theorems odef_intros

lemma odef_bind [odef_intros]: "odef a \<Longrightarrow> (\<And>x. a = Some x \<Longrightarrow> odef (f x)) \<Longrightarrow> odef (case a of None \<Rightarrow> None | Some x \<Rightarrow> f x)"
  by (cases a) simp_all

lemma odef_map [odef_intros]: "odef a \<Longrightarrow> odef (map_option f a)"
  by simp

lemma odef_if [odef_intros]: "odef a \<Longrightarrow> odef b \<Longrightarrow> odef (if c then a else b)"
  by simp

lemma odef_prod [odef_intros]: "(\<And>x y. odef (f x y)) \<Longrightarrow> odef (case p of (x, y) \<Rightarrow> f x y)"
  by (cases p) simp

lemma odef_sum [odef_intros]: "(\<And>x. odef (f x)) \<Longrightarrow> (\<And>x. odef (g x)) \<Longrightarrow> odef (case s of Inl x \<Rightarrow> f x | Inr y \<Rightarrow> g y)"
  by (cases s) simp_all

lemma odef_bool [odef_intros]: "odef a \<Longrightarrow> odef b \<Longrightarrow> odef (case c of True \<Rightarrow> a | False \<Rightarrow> b)"
  by (cases c) simp_all

lemma odef_option [odef_intros]:
  "odef a \<Longrightarrow> (\<And>x. c = Some x \<Longrightarrow> odef (f x)) \<Longrightarrow> odef (case c of None \<Rightarrow> a | Some x \<Rightarrow> f x)"
  by (cases c) simp_all

lemma odef_list [odef_intros]: "odef a \<Longrightarrow> (\<And>x xs. c = x # xs \<Longrightarrow> odef (f x xs)) \<Longrightarrow> odef (case c of [] \<Rightarrow> a | x # xs \<Rightarrow> f x xs)"
  by (cases c) simp_all

end
