(* ===== verification/Shell_Fuel.thy ===== *)
theory Shell_Fuel
  imports Shell_Exec Option_Calculus
begin

text \<open>
  Fuel does not matter: with more of it a script that ended ends the same way.  It is shown for
  each definition of the interpreter that it returns the same, or returns at all, when what it
  calls returns more often.
\<close>

definition rle :: "'w runner \<Rightarrow> 'w runner \<Rightarrow> bool" where
  "rle run run' \<longleftrightarrow> (\<forall>st r. ole (run st r) (run' st r))"

definition cle :: "'w substCallback \<Rightarrow> 'w substCallback \<Rightarrow> bool" where
  "cle cb cb' \<longleftrightarrow> (\<forall>i sts r. ole (cb i sts r) (cb' i sts r))"

lemma rleD: "rle run run' \<Longrightarrow> ole (run st r) (run' st r)"
  by (simp add: rle_def)

text \<open>What the parameters have to satisfy: an expander, a builtin and the elevation callback return
  the same when what they call back returns more often.\<close>

definition monoExpander :: "'w expander \<Rightarrow> bool" where
  "monoExpander X \<longleftrightarrow> (\<forall>cb cb'. cle cb cb' \<longrightarrow>
     (\<forall>w. list_all2 (\<lambda>f g. \<forall>r. ole (f r) (g r)) (FieldsSeq X cb w) (FieldsSeq X cb' w) \<and>
       (\<forall>r. ole (ex_Literal X cb w r) (ex_Literal X cb' w r)) \<and>
       (\<forall>r. ole (ex_Document X cb w r) (ex_Document X cb' w r))))"

definition monoHandlers :: "('w, 'c) config_scheme \<Rightarrow> bool" where
  "monoHandlers C \<longleftrightarrow>
     (\<forall>name fn cc rc rc' args r. Lookup C name = Some fn \<longrightarrow>
        (\<forall>d m as si s. ole (rc d m as si s) (rc' d m as si s)) \<longrightarrow>
        ole (fn (cc\<lparr>cc_RunCommand := rc\<rparr>) args r) (fn (cc\<lparr>cc_RunCommand := rc'\<rparr>) args r)) \<and>
     (\<forall>el name f g r. elevate C = Some el \<longrightarrow> (\<forall>s. ole (f s) (g s)) \<longrightarrow> ole (el name f r) (el name g r))"

section \<open>Lists and loops\<close>

lemma stmts_mono [ole_intros]:
  assumes "rle run run'"
  shows "ole (stmts run sts r) (stmts run' sts r)"
proof (induction sts arbitrary: r)
  case (Cons st sts)
  show ?case unfolding stmts.simps by (intro ole_refl ole_bind ole_if rleD [OF assms] Cons.IH)
qed simp

lemma loopStmtsBroken_mono [ole_intros]:
  assumes "rle run run'"
  shows "ole (loopStmtsBroken run sts r) (loopStmtsBroken run' sts r)"
proof -
  have "ole (loopBody run sts r) (loopBody run' sts r)" for r
  proof (induction sts arbitrary: r)
    case (Cons st sts)
    show ?case unfolding loopBody.simps Let_def by (intro ole_refl ole_bind ole_if rleD [OF assms] Cons.IH)
  qed simp
  then show ?thesis unfolding loopStmtsBroken_def by (intro ole_map)
qed

lemma execIfChain_mono [ole_intros]:
  assumes m: "rle run run'"
  shows "ole (execIfChain run ic r) (execIfChain run' ic r)"
  using m
proof (induction run ic r rule: execIfChain.induct)
  case (1 run hasThen cond thn els r)
  have els: "ole (case els of None \<Rightarrow> Some (setExit zeroExit s) | Some ic \<Rightarrow> execIfChain run ic (setExit zeroExit s))
      (case els of None \<Rightarrow> Some (setExit zeroExit s) | Some ic \<Rightarrow> execIfChain run' ic (setExit zeroExit s))"
    if "hasThen" "\<not> interrupted s" "\<not> ok (r_exit s)" "stmts run cond r = Some s" for s
    using 1 that by (cases els) auto
  have st: "ole (stmts run sts s) (stmts run' sts s)" for sts s by (rule stmts_mono [OF 1(2)])
  show ?case
  proof (cases "stmts run cond r")
    case None
    then show ?thesis using st [of thn r] by simp
  next
    case (Some s)
    then have "stmts run' cond r = Some s" using st [of cond r] by (simp add: ole_def)
    then show ?thesis unfolding execIfChain.simps Some option.case
      by (cases hasThen; cases "interrupted s"; cases "ok (r_exit s)") (use Some st els in simp_all)
  qed
qed

lemma forIterations_mono [ole_intros]:
  assumes "rle run run'"
  shows "ole (forIterations C run name body items r) (forIterations C run' name body items r)"
proof (induction items arbitrary: r)
  case (Cons i items)
  show ?case unfolding forIterations.simps
    by (intro ole_refl ole_intros loopStmtsBroken_mono [OF assms] Cons.IH)
qed simp

lemma whileIterations_mono:
  "rle run run' \<Longrightarrow> k \<le> k' \<Longrightarrow>
     ole (whileIterations C run k un cond body old lst r) (whileIterations C run' k' un cond body old lst r)"
proof (induction k arbitrary: k' lst r)
  case (Suc k)
  then obtain m where m: "k' = Suc m" "k \<le> m" by (cases k') auto
  show ?case
    unfolding m(1) whileIterations.simps Let_def by (intro ole_refl ole_intros Suc.IH Suc.prems(1) m(2))
qed simp

lemma execWhile_mono [ole_intros]: "rle run run' \<Longrightarrow> k \<le> k' \<Longrightarrow> ole (execWhileClause C run k un cond body r) (execWhileClause C run' k' un cond body r)"
  unfolding execWhileClause_def Let_def by (intro ole_bind ole_refl whileIterations_mono)

section \<open>Expansion\<close>

lemma runAlternatives_mono:
  "list_all2 (\<lambda>f g. \<forall>r. ole (f r) (g r)) alts alts' \<Longrightarrow> ole (runAlternatives X alts c r) (runAlternatives X alts' c r)"
proof (induction alts alts' arbitrary: c r rule: list_all2_induct)
  case (Cons f alts g alts')
  have "ole (f (r\<lparr>activeFields := Some c\<rparr>)) (g (r\<lparr>activeFields := Some c\<rparr>))" using Cons by simp
  then show ?case
    unfolding runAlternatives.simps
    by (intro ole_refl ole_intros) (auto intro!: Cons.IH split: fieldsEnd.split)
qed simp

lemma add_mono [ole_intros]:
  assumes "monoExpander X" "cle cb cb'"
  shows "ole (fieldCollector_add X cb ws c r) (fieldCollector_add X cb' ws c r)"
proof -
  have w: "ole (addWord X cb ifs w c r) (addWord X cb' ifs w c r)" for ifs w c r
    unfolding addWord_def Let_def
    by (intro ole_refl ole_intros runAlternatives_mono) (use assms in \<open>simp add: monoExpander_def\<close>)
  have "ole (addWords X cb ifs ws c r) (addWords X cb' ifs ws c r)" for ifs
  proof (induction ws arbitrary: c r)
    case (Cons w ws)
    show ?case unfolding addWords.simps by (intro ole_refl ole_intros w Cons.IH)
  qed simp
  then show ?thesis unfolding fieldCollector_add_def by (intro ole_map)
qed

lemma expandFields_mono [ole_intros]: "monoExpander X \<Longrightarrow> cle cb cb' \<Longrightarrow> ole (expandFields X cb ws r) (expandFields X cb' ws r)"
  unfolding expandFields_def by (intro ole_map add_mono)

lemma literal_mono [ole_intros]:
  "monoExpander X \<Longrightarrow> cle cb cb' \<Longrightarrow> ole (assignmentLiteral X cb name w r) (assignmentLiteral X cb' name w r)"
  unfolding assignmentLiteral_def literalBounded_def
  by (intro ole_refl ole_bind ole_option) (simp add: monoExpander_def)

lemma document_mono [ole_intros]: "monoExpander X \<Longrightarrow> cle cb cb' \<Longrightarrow> ole (document X cb w r) (document X cb' w r)"
  unfolding document_def by (intro ole_refl ole_bind ole_option) (simp add: monoExpander_def)

section \<open>Redirections\<close>

lemma hdocReader_mono [ole_intros]:
  assumes "monoExpander (expr C)" "cle cb cb'"
  shows "ole (hdocReader C cb rd body r) (hdocReader C cb' rd body r)"
proof -
  have e: "ole (hdocExpand C cb q w r) (hdocExpand C cb' q w r)" for q w r
    unfolding hdocExpand_def by (intro ole_refl ole_if document_mono assms)
  have f: "ole (flushLines C cb q ls buf r) (flushLines C cb' q ls buf r)" for q ls buf r
  proof (induction ls arbitrary: buf r)
    case (Cons l ls)
    show ?case unfolding flushLines.simps Let_def by (intro ole_refl ole_bind ole_prod ole_sum ole_if e Cons.IH)
  qed simp
  have "ole (hdocContent C cb rd body r) (hdocContent C cb' rd body r)" for r
    unfolding hdocContent_def by (intro ole_refl ole_bind ole_if e f)
  then show ?thesis unfolding hdocReader_def Let_def by (intro ole_refl ole_bind ole_prod ole_sum)
qed

lemma redirectWord_mono [ole_intros]:
  "monoExpander (expr C) \<Longrightarrow> cle cb cb' \<Longrightarrow> ole (redirectWord C cb w r) (redirectWord C cb' w r)"
  unfolding redirectWord_def by (intro ole_refl ole_bind add_mono)

lemma applyRedirects_mono [ole_intros]:
  assumes "monoExpander (expr C)" "cle cb cb'"
  shows "ole (applyRedirects C cb rds closers r) (applyRedirects C cb' rds closers r)"
proof -
  have "ole (redir C cb rd r) (redir C cb' rd r)" for rd r
    unfolding redir_def
    by (intro ole_refl ole_bind ole_option ole_if hdocReader_mono redirectWord_mono assms)
  then show ?thesis
  proof (induction rds arbitrary: closers r)
    case (Cons rd rds)
    show ?case unfolding applyRedirects.simps
      by (intro ole_refl ole_bind ole_prod ole_sum Cons)
  qed simp
qed

section \<open>Dispatch\<close>

lemma handler_mono:
  assumes "monoHandlers C" "Lookup C name = Some fn" "cc = cc'\<lparr>cc_RunCommand := cc_RunCommand cc\<rparr>"
    "\<And>d m as si s. ole (cc_RunCommand cc d m as si s) (cc_RunCommand cc' d m as si s)"
  shows "ole (fn cc args r) (fn cc' args r)"
proof -
  have "ole (fn (cc'\<lparr>cc_RunCommand := cc_RunCommand cc\<rparr>) args r) (fn (cc'\<lparr>cc_RunCommand := cc_RunCommand cc'\<rparr>) args r)"
    using assms(1,2,4) unfolding monoHandlers_def by blast
  then show ?thesis using assms(3) by simp
qed

lemma runCmd_mono:
  assumes m: "monoHandlers C"
  shows "n \<le> k \<Longrightarrow> ole (runCmdWithStdin C n el inh dir name args si r) (runCmdWithStdin C k el inh dir name args si r)"
proof (induction n arbitrary: k inh dir name args si r)
  case (Suc n)
  then obtain j where j: "k = Suc j" "n \<le> j" by (cases k) auto
  show ?case
  proof (cases "Lookup C name")
    case (Some fn)
    show ?thesis
      unfolding j(1) runCmdWithStdin.simps Let_def Some option.case
      by (intro ole_refl ole_if ole_option ole_map handler_mono [OF m Some]) (simp_all add: Suc.IH j(2))
  qed (simp add: j(1) Let_def)
qed simp

lemma dispatch_mono:
  assumes m: "monoHandlers C" and k: "Lookup C name' = Some fn" and n: "n \<le> j"
  shows "ole (dispatch C n el name fn args r) (dispatch C j el name fn args r)"
proof -
  have h: "ole (fn (callContext C n el r') (tl args) s) (fn (callContext C j el r') (tl args) s)" for r' s
    by (rule handler_mono [OF m k]) (simp_all add: callContext_def runCmd_mono [OF m n])
  have e: "ole (elf name f s) (elf name g s)"
    if "(if el then elevate C else None) = Some elf" "\<And>s. ole (f s) (g s)" for elf f g s
    using m that unfolding monoHandlers_def by (auto split: if_splits)
  show ?thesis
    unfolding dispatch_def Let_def
    by (cases "if el then elevate C else None")
      (auto simp del: if_split intro!: ole_map ole_bind e h)
qed

lemma call_mono:
  assumes m: "monoHandlers C" and n: "n \<le> j" and s: "\<And>r. ole (setup r) (setup' r)"
  shows "ole (call C n args setup r) (call C j args setup' r)"
proof -
  have g: "Lookup C name = Some fn" if "gates C el name r = Inr (Some fn)" for el name r fn
    using that by (auto simp: gates_def Let_def split: if_splits option.splits)
  have d: "ole (case known of Some fn \<Rightarrow> map_option (Pair (Some x)) (dispatch C n el name fn as r)
        | None \<Rightarrow> Some (Some x, exec C as r))
      (case known of Some fn \<Rightarrow> map_option (Pair (Some x)) (dispatch C j el name fn as r)
        | None \<Rightarrow> Some (Some x, exec C as r))"
    if "gates C el name r' = Inr known" for known el name as r r' x
    using that g [of el name r'] by (cases known) (auto intro!: ole_map dispatch_mono [OF m _ n])
  have c: "ole (case gates C el name r of Inl r \<Rightarrow> a r | Inr kn \<Rightarrow> f kn) (case gates C el name r of Inl r \<Rightarrow> a r | Inr kn \<Rightarrow> f' kn)"
    if "\<And>kn. gates C el name r = Inr kn \<Longrightarrow> ole (f kn) (f' kn)" for el name r a f f'
    using that by (auto split: sum.split)
  show ?thesis
    unfolding call_def Let_def by (intro ole_refl ole_if ole_prod ole_bool c ole_bind s ole_option d)
qed

section \<open>Simple commands\<close>

lemma assignVal_mono [ole_intros]:
  "monoExpander (expr C) \<Longrightarrow> cle cb cb' \<Longrightarrow> ole (assignVal C cb prv as r) (assignVal C cb' prv as r)"
  by (cases as) (auto simp: assignVal_def intro!: ole_if ole_option ole_map literal_mono)

lemma bareAssigns_mono [ole_intros]:
  assumes "monoExpander (expr C)" "cle cb cb'"
  shows "ole (bareAssigns C cb asgs r) (bareAssigns C cb' asgs r)"
proof (induction asgs arbitrary: r)
  case (Cons a asgs)
  obtain nm ap ar ix v where a: "a = Assign nm ap ar ix v" by (cases a)
  show ?case unfolding a bareAssigns.simps Let_def
    by (intro ole_refl ole_prod ole_bind ole_if assignVal_mono assms Cons.IH)
qed simp

lemma inlineValues_mono:
  assumes "monoExpander (expr C)" "cle cb cb'"
  shows "ole (inlineValues C cb asgs acc r) (inlineValues C cb' asgs acc r)"
proof (induction asgs arbitrary: acc r)
  case (Cons a asgs)
  obtain nm ap ar ix v where a: "a = Assign nm ap ar ix v" by (cases a)
  show ?case unfolding a inlineValues.simps Let_def
    by (intro ole_refl ole_prod ole_bind ole_if assignVal_mono assms Cons.IH)
qed simp

lemma callSetup_mono [ole_intros]:
  "monoExpander (expr C) \<Longrightarrow> cle cb cb' \<Longrightarrow>
     ole (callSetup C cb asgs ws redirs c closers r) (callSetup C cb' asgs ws redirs c closers r)"
  unfolding callSetup_def inlineAssignments_def Let_def
  by (intro ole_refl ole_bind ole_prod ole_bool ole_if ole_map add_mono applyRedirects_mono inlineValues_mono)

lemma leadWords_mono [ole_intros]:
  assumes "monoExpander X" "cle cb cb'"
  shows "ole (leadWords X cb p ws c r) (leadWords X cb' p ws c r)"
proof (induction ws arbitrary: c r)
  case (Cons w ws)
  show ?case unfolding leadWords.simps by (intro ole_refl ole_bind ole_prod ole_if add_mono assms Cons.IH)
qed simp

lemma callExpr_mono [ole_intros]:
  assumes "monoExpander (expr C)" "monoHandlers C" "cle cb cb'" "n \<le> j"
  shows "ole (callExpr C n cb asgs args redirs closers r) (callExpr C j cb' asgs args redirs closers r)"
proof -
  have "ole (bareCommand C cb asgs redirs closers r) (bareCommand C cb' asgs redirs closers r)" for r
    unfolding bareCommand_def by (intro ole_refl ole_bind ole_prod ole_if applyRedirects_mono bareAssigns_mono assms)
  then show ?thesis
    unfolding callExpr_def Let_def
    by (intro ole_refl ole_bind ole_prod ole_if ole_list ole_bool ole_map leadWords_mono call_mono callSetup_mono assms)
qed

lemma cmdSubst_mono:
  assumes x: "monoExpander (expr C)" and m: "rle run run'"
  shows "n \<le> j \<Longrightarrow> cle (cmdSubst C run n) (cmdSubst C run' j)"
proof (induction n arbitrary: j)
  case (Suc n)
  then obtain i where i: "j = Suc i" "n \<le> i" by (cases j) auto
  have ih: "cle (cmdSubst C run n) (cmdSubst C run' i)" using Suc.IH i by simp
  show ?case
    unfolding i(1) cle_def cmdSubst.simps Let_def
    by (intro allI ole_refl ole_list ole_option ole_if ole_prod ole_bind redirectWord_mono [OF x ih] stmts_mono [OF m])
qed (simp add: cle_def)

section \<open>Statements\<close>

lemma execPipe_mono [ole_intros]:
  assumes "rle run run'"
  shows "ole (execPipe C run x y r) (execPipe C run' x y r)"
  unfolding execPipe_def Let_def by (intro ole_refl ole_prod ole_sum ole_bind rleD [OF assms])

lemma execSubshell_mono [ole_intros]: "rle run run' \<Longrightarrow> ole (execSubshell C run sts r) (execSubshell C run' sts r)"
  unfolding execSubshell_def Let_def by (intro ole_refl ole_prod ole_bind stmts_mono)

lemma execFor_mono [ole_intros]:
  "monoExpander (expr C) \<Longrightarrow> cle cb cb' \<Longrightarrow> rle run run' \<Longrightarrow>
     ole (execFor C run cb name tok ws body r) (execFor C run' cb' name tok ws body r)"
  unfolding execFor_def
  by (intro ole_refl ole_bind ole_prod ole_if ole_map expandFields_mono forIterations_mono)

lemma cmd_mono [ole_intros]:
  assumes "monoExpander (expr C)" "monoHandlers C" "cle cb cb'" "rle run run'" "n \<le> j"
  shows "ole (cmd C run n cb cm r) (cmd C run' j cb' cm r)"
proof -
  obtain b s where s: "stop (ex_ctx (expr C)) r = (b, s)" by (cases "stop (ex_ctx (expr C)) r")
  show ?thesis
    unfolding cmd_def s prod.case
    by (cases cm)
      (auto intro!: ole_refl ole_bind ole_map ole_if ole_option ole_prod execPipe_mono execSubshell_mono stmts_mono
         execIfChain_mono execFor_mono execWhile_mono callExpr_mono assms rleD [OF assms(4)] split: bool.split)
qed

lemma stmtWith_mono:
  assumes "monoExpander (expr C)" "monoHandlers C" "cle cb cb'" "rle run run'" "n \<le> j"
  shows "ole (stmtWith C run n cb st r) (stmtWith C run' j cb' st r)"
proof -
  have nc: "ole (case applyRedirects C cb rds [] r of None \<Rightarrow> None
        | Some (r, cls) \<Rightarrow> (case (ok (r_exit r), cm) of (True, Some c) \<Rightarrow> map_option (\<lambda>r. (r, cls)) (cmd C run n cb c r)
             | _ \<Rightarrow> Some (r, cls)))
      (case applyRedirects C cb' rds [] r of None \<Rightarrow> None
        | Some (r, cls) \<Rightarrow> (case (ok (r_exit r), cm) of (True, Some c) \<Rightarrow> map_option (\<lambda>r. (r, cls)) (cmd C run' j cb' c r)
             | _ \<Rightarrow> Some (r, cls)))" for rds cm r
    by (intro ole_refl ole_bind ole_prod ole_bool ole_option ole_map applyRedirects_mono cmd_mono assms)
  have "ole (stmtSync C run n cb st r) (stmtSync C run' j cb' st r)" for r
  proof (cases st)
    case (Stmt cm ng bg cp ds rds)
    show ?thesis
    proof (cases cm)
      case None
      show ?thesis unfolding stmtSync_def Stmt stmt.case None option.case by (intro ole_bind ole_refl nc)
    next
      case (Some c)
      show ?thesis unfolding stmtSync_def Stmt stmt.case Some option.case
        by (cases c) (simp_all only: command.case, (intro ole_bind ole_refl nc callExpr_mono assms)+)
    qed
  qed
  then show ?thesis unfolding stmtWith_def by (intro ole_refl ole_prod ole_bool ole_map)
qed

lemma runStmt_mono:
  assumes "monoExpander (expr C)" "monoHandlers C"
  shows "n \<le> j \<Longrightarrow> ole (runStmt C n st r) (runStmt C j st r)"
proof (induction n arbitrary: j st r)
  case (Suc n)
  then obtain i where i: "j = Suc i" "n \<le> i" by (cases j) auto
  have m: "rle (runStmt C n) (runStmt C i)" unfolding rle_def using Suc.IH i by simp
  show ?case
    unfolding i(1) runStmt.simps by (rule stmtWith_mono [OF assms cmdSubst_mono [OF assms(1) m i(2)] m i(2)])
qed simp

end
