(* ===== verification/Shell_Frame.thy ===== *)
theory Shell_Frame
  imports Shell_Exec Option_Calculus
begin

text \<open>
  What running a statement leaves alone, and how it changes the store of variables.  \<open>kept\<close> relates
  the state before and after: the environment, the loop and pipeline flags are the same, no break
  or continue is pending outside a loop, and the store has changed by steps of the storage model
  only.  \<open>frame\<close> adds the three streams and the fields collected so far.
\<close>

section \<open>The store\<close>

abbreviation storeSteps :: "expandApi \<Rightarrow> envHeap \<Rightarrow> envHeap \<Rightarrow> bool" where
  "storeSteps A \<equiv> (varStep A False)\<^sup>*\<^sup>*"

lemma sharedBudget_length: "sharedBudget i h = (h', b) \<Longrightarrow> length (overlays h') = length (overlays h)"
  by (auto simp: sharedBudget_def newBudget_def Let_def split: option.splits)

lemma varStep_length:
  "varStep A en h h' \<Longrightarrow> heapInv A h \<Longrightarrow> \<not> Declared A emptyVar \<Longrightarrow> length (overlays h) \<le> length (overlays h')"
proof (induction rule: varStep.induct)
  case (vsSet i h name vr h' e)
  show ?case
    by (rule Set_cases [OF vsSet(3,4,1,5)])
      (auto simp: rebind_def Let_def sharedBudget_length split: option.splits)
qed (auto simp: newOverlayEnviron_def newOverlay_def release_def setUncapped_def own_def putValue_def dropValue_def
    restoreBinding_def Let_def sharedBudget_length split: option.splits prod.splits)

definition storeOk :: "expandApi \<Rightarrow> 'w shell \<Rightarrow> bool" where
  "storeOk A r \<longleftrightarrow> runnerOk A r \<and> \<not> Declared A emptyVar"

lemma storeSteps_keep:
  assumes "storeSteps A h h'" "heapInv A h" "\<not> Declared A emptyVar"
  shows "heapInv A h' \<and> booksKept h h' \<and> length (overlays h) \<le> length (overlays h')"
  using assms
proof (induction rule: rtranclp_induct)
  case (step h1 h2)
  then show ?case using varStep_keeps [OF step(2)] varStep_length [OF step(2)] booksKept_trans by fastforce
qed simp

section \<open>The relations\<close>

definition noLoops :: "'w shell \<Rightarrow> bool" where
  "noLoops r \<longleftrightarrow> breakEnclosing r \<le> 0 \<and> contnEnclosing r \<le> 0"

definition kept :: "expandApi \<Rightarrow> 'w shell \<Rightarrow> 'w shell \<Rightarrow> bool" where
  "kept A r r' \<longleftrightarrow> writeEnv r' = writeEnv r \<and> inLoop r' = inLoop r \<and> inPipeline r' = inPipeline r \<and>
     inPipelineStage r' = inPipelineStage r \<and> (\<not> inLoop r \<and> noLoops r \<longrightarrow> noLoops r') \<and>
     (storeOk A r \<longrightarrow> storeSteps A (r_heap r) (r_heap r'))"

definition streams :: "'w shell \<Rightarrow> nat \<times> nat \<times> nat" where
  "streams r = (r_stdin r, r_stdout r, r_stderr r)"

definition collKey :: "'w shell \<Rightarrow> (int \<times> bytes list \<times> int) option" where
  "collKey r = map_option (\<lambda>c. (maxFields c, c_fields c, c_bytes c)) (activeFields r)"

definition frame :: "expandApi \<Rightarrow> 'w shell \<Rightarrow> 'w shell \<Rightarrow> bool" where
  "frame A r r' \<longleftrightarrow> kept A r r' \<and> streams r' = streams r \<and> collKey r' = collKey r"

lemma kept_refl [simp]: "kept A r r" and frame_refl [simp]: "frame A r r"
  by (simp_all add: kept_def frame_def)

lemma kept_storeOk: "kept A r s \<Longrightarrow> storeOk A r \<Longrightarrow> storeOk A s"
  using storeSteps_keep [of A "r_heap r" "r_heap s"] by (auto simp: kept_def storeOk_def runnerOk_def)

lemma kept_trans: "kept A r s \<Longrightarrow> kept A s t \<Longrightarrow> kept A r t"
  using kept_storeOk [of A r s] by (auto simp: kept_def intro: rtranclp_trans)

lemma frame_trans: "frame A r s \<Longrightarrow> frame A s t \<Longrightarrow> frame A r t"
  by (auto simp: frame_def intro: kept_trans)

text \<open>What depends on none of the fields that matter.\<close>

definition same :: "'w shell \<Rightarrow> 'w shell \<Rightarrow> bool" where
  "same r r' \<longleftrightarrow> r_heap r' = r_heap r \<and> writeEnv r' = writeEnv r \<and> inLoop r' = inLoop r \<and> inPipeline r' = inPipeline r \<and>
     inPipelineStage r' = inPipelineStage r \<and> breakEnclosing r' = breakEnclosing r \<and> contnEnclosing r' = contnEnclosing r"

lemma same_refl [simp]: "same r r"
  by (simp add: same_def)

lemma kept_same: "same s t \<Longrightarrow> kept A r s \<Longrightarrow> kept A r t"
  by (auto simp: same_def kept_def noLoops_def)

named_theorems frame_simps

lemma errf_fields [frame_simps]:
  "same r (errf m s) = same r s" "streams (errf m s) = streams s" "activeFields (errf m s) = activeFields s"
  by (simp_all add: errf_def same_def streams_def)

lemma Out_fields [frame_simps]:
  "same r (Out m s) = same r s" "streams (Out m s) = streams s" "activeFields (Out m s) = activeFields s"
  by (simp_all add: Out_def same_def streams_def)

lemma setExit_fields [frame_simps]:
  "same r (setExit e s) = same r s" "streams (setExit e s) = streams s" "activeFields (setExit e s) = activeFields s"
  by (simp_all add: setExit_def same_def streams_def)

lemma setCode_fields [frame_simps]:
  "same r (setCode c s) = same r s" "streams (setCode c s) = streams s" "activeFields (setCode c s) = activeFields s"
  by (simp_all add: setCode_def same_def streams_def)

lemma fatalExitWith_fields [frame_simps]:
  "same r (fatalExitWith e s) = same r s" "streams (fatalExitWith e s) = streams s"
  "activeFields (fatalExitWith e s) = activeFields s"
  by (simp_all add: fatalExitWith_def same_def streams_def)

lemma internalErrorf_fields [frame_simps]:
  "same r (internalErrorf m s) = same r s" "streams (internalErrorf m s) = streams s"
  "activeFields (internalErrorf m s) = activeFields s"
  by (simp_all add: internalErrorf_def same_def streams_def)

lemma update_fields [frame_simps]:
  "same r (s\<lparr>world := w\<rparr>) = same r s" "same r (s\<lparr>r_exit := e\<rparr>) = same r s" "same r (s\<lparr>lastExit := e\<rparr>) = same r s"
  "same r (s\<lparr>lastExpandExit := e\<rparr>) = same r s" "same r (s\<lparr>activeFields := c\<rparr>) = same r s"
  "same r (s\<lparr>expansionByteCount := n\<rparr>) = same r s" "same r (s\<lparr>totalCount := k\<rparr>) = same r s"
  "same r (s\<lparr>dispatchedCount := k\<rparr>) = same r s" "same r (s\<lparr>unallowedCount := k\<rparr>) = same r s"
  "same r (s\<lparr>unknownCount := k\<rparr>) = same r s" "same r (s\<lparr>r_stdin := k\<rparr>) = same r s"
  "same r (s\<lparr>r_stdout := k\<rparr>) = same r s" "same r (s\<lparr>r_stderr := k\<rparr>) = same r s"
  by (simp_all add: same_def)

lemma update_streams [frame_simps]:
  "streams (s\<lparr>world := w\<rparr>) = streams s" "streams (s\<lparr>r_exit := e\<rparr>) = streams s" "streams (s\<lparr>lastExit := e\<rparr>) = streams s"
  "streams (s\<lparr>lastExpandExit := e\<rparr>) = streams s" "streams (s\<lparr>activeFields := c\<rparr>) = streams s"
  "streams (s\<lparr>expansionByteCount := n\<rparr>) = streams s" "streams (s\<lparr>totalCount := k\<rparr>) = streams s"
  "streams (s\<lparr>dispatchedCount := k\<rparr>) = streams s" "streams (s\<lparr>unallowedCount := k\<rparr>) = streams s"
  "streams (s\<lparr>unknownCount := k\<rparr>) = streams s"
  by (simp_all add: streams_def)

lemma expandErr_fields [frame_simps]:
  "same r (expandErr e s) = same r s" "streams (expandErr e s) = streams s" "activeFields (expandErr e s) = activeFields s"
  by (simp_all add: expandErr_def Let_def frame_simps split: expErr.split)

lemma onWorld_fields [frame_simps]:
  "same r (onWorld f s) = same r s" "streams (onWorld f s) = streams s" "activeFields (onWorld f s) = activeFields s"
  "same r (closeFd C fd s) = same r s" "streams (closeFd C fd s) = streams s" "activeFields (closeFd C fd s) = activeFields s"
  by (simp_all add: closeFd_def onWorld_def frame_simps)

definition untouched :: "'w shell \<Rightarrow> 'w shell \<Rightarrow> bool" where
  "untouched r r' \<longleftrightarrow> same r r' \<and> streams r' = streams r \<and> activeFields r' = activeFields r"

lemma frame_untouched: "untouched s t \<Longrightarrow> frame A r s \<Longrightarrow> frame A r t"
  by (auto simp: untouched_def frame_def collKey_def intro: kept_same)

lemma stop_untouched: "stop ctx r = (b, r') \<Longrightarrow> untouched r r'"
  by (auto simp: stop_def untouched_def frame_simps split: if_splits option.splits)

lemma charge_untouched: "chargeExpansionBytes n r = (r', e) \<Longrightarrow> untouched r r'"
  by (auto simp: chargeExpansionBytes_def untouched_def frame_simps Let_def split: if_splits option.splits)

lemma lookupVar_untouched: "lookupVar A name r = (r', v) \<Longrightarrow> untouched r r'"
  by (auto simp: lookupVar_def untouched_def frame_simps Let_def split: if_splits)

lemma runner_open_untouched: "runner_open C path flg mode p r = (r', res) \<Longrightarrow> untouched r r'"
  by (auto simp: runner_open_def untouched_def frame_simps Let_def split: prod.splits sum.splits if_splits)

lemma untouched_refl [simp]: "untouched r r"
  by (simp add: untouched_def)

lemma untouched_trans: "untouched r s \<Longrightarrow> untouched s t \<Longrightarrow> untouched r t"
  by (simp add: untouched_def same_def)

lemma untouched_ops [frame_simps]:
  "untouched r (errf m s) = untouched r s" "untouched r (Out m s) = untouched r s"
  "untouched r (setExit e s) = untouched r s" "untouched r (setCode k s) = untouched r s"
  "untouched r (fatalExitWith ge s) = untouched r s" "untouched r (internalErrorf m s) = untouched r s"
  "untouched r (expandErr xe s) = untouched r s" "untouched r (onWorld f s) = untouched r s"
  "untouched r (closeFd C fd s) = untouched r s" "untouched r (s\<lparr>r_exit := e\<rparr>) = untouched r s"
  "untouched r (s\<lparr>world := w\<rparr>) = untouched r s" "untouched r (s\<lparr>lastExit := e\<rparr>) = untouched r s"
  "untouched r (s\<lparr>lastExpandExit := e\<rparr>) = untouched r s" "untouched r (s\<lparr>totalCount := n\<rparr>) = untouched r s"
  "untouched r (s\<lparr>dispatchedCount := n\<rparr>) = untouched r s" "untouched r (s\<lparr>unallowedCount := n\<rparr>) = untouched r s"
  "untouched r (s\<lparr>unknownCount := n\<rparr>) = untouched r s"
  unfolding untouched_def by (simp_all add: frame_simps)

lemma setVar_frame: "frame A r (setVar A name vr r)"
proof -
  obtain h e where s: "Set A (writeEnv r) name vr (r_heap r) = (h, e)" by force
  have v: "storeOk A r \<Longrightarrow> varStep A False (r_heap r) h"
    using varStep.vsSet [OF _ _ s] by (simp add: storeOk_def runnerOk_def)
  have "kept A r (r\<lparr>r_heap := h\<rparr>)"
    using v by (auto simp: kept_def noLoops_def)
  then have f: "frame A r (r\<lparr>r_heap := h\<rparr>)"
    by (simp add: frame_def streams_def collKey_def)
  have "untouched r (setVar A name vr r) \<or> untouched (r\<lparr>r_heap := h\<rparr>) (setVar A name vr r)"
    using s by (simp add: setVar_def Let_def frame_simps split: option.split envError.split)
  then show ?thesis using f frame_untouched frame_refl by blast
qed

section \<open>Expansion\<close>

definition frameRun :: "expandApi \<Rightarrow> 'w runner \<Rightarrow> bool" where
  "frameRun A run \<longleftrightarrow> (\<forall>st r r'. run st r = Some r' \<longrightarrow> frame A r r')"

definition frameCb :: "expandApi \<Rightarrow> 'w substCallback \<Rightarrow> bool" where
  "frameCb A cb \<longleftrightarrow> (\<forall>i sts r r' res. cb i sts r = Some (r', res) \<longrightarrow> frame A r r')"

text \<open>The expander works on the shell through the callback and assignments only.\<close>

definition frameExpander :: "'w expander \<Rightarrow> bool" where
  "frameExpander X \<longleftrightarrow> (\<forall>cb. frameCb (ex_api X) cb \<longrightarrow>
     (\<forall>w r r'. (\<forall>f fs e. f \<in> set (FieldsSeq X cb w) \<longrightarrow> f r = Some (r', fs, e) \<longrightarrow> frame (ex_api X) r r') \<and>
       (\<forall>res. ex_Literal X cb w r = Some (r', res) \<longrightarrow> frame (ex_api X) r r') \<and>
       (\<forall>res. ex_Document X cb w r = Some (r', res) \<longrightarrow> frame (ex_api X) r r')))"

lemma takeFields_untouched: "takeFields X fs c r = (b, c', r') \<Longrightarrow> untouched r r'"
proof (induction fs arbitrary: c r)
  case (Cons f fs)
  obtain st s where s: "stop (ex_ctx X) r = (st, s)" by force
  obtain s' e where ch: "chargeExpansionBytes (int (length f)) s = (s', e)" by force
  have u: "untouched r s" using stop_untouched [OF s] .
  have u': "untouched r s'" using untouched_trans [OF u charge_untouched [OF ch]] .
  consider "st" | "\<not> st" "int (length (c_fields c)) \<ge> maxFields c"
    | "\<not> st" "\<not> int (length (c_fields c)) \<ge> maxFields c" "int (length f) > MaxExpandedBytesPerCommand - c_bytes c"
    | er where "\<not> st" "\<not> int (length (c_fields c)) \<ge> maxFields c" "\<not> int (length f) > MaxExpandedBytesPerCommand - c_bytes c" "e = Some er"
    | "\<not> st" "\<not> int (length (c_fields c)) \<ge> maxFields c" "\<not> int (length f) > MaxExpandedBytesPerCommand - c_bytes c" "e = None"
    by fastforce
  then show ?case
  proof cases
    case 5
    then have "takeFields X fs (c\<lparr>substSources := 0, c_bytes := c_bytes c + int (length f), c_fields := c_fields c @ [f]\<rparr>) s' = (b, c', r')"
      using Cons.prems s ch by (simp add: Let_def)
    then show ?thesis by (rule untouched_trans [OF u' Cons.IH])
  qed (use Cons.prems s ch u u' in \<open>simp_all add: Let_def, auto simp: frame_simps\<close>)
qed simp


text \<open>Expanding may change the active collector, which the caller replaces; the rest is framed.\<close>

definition expanded :: "expandApi \<Rightarrow> 'w shell \<Rightarrow> 'w shell \<Rightarrow> bool" where
  "expanded A r r' \<longleftrightarrow> kept A r r' \<and> streams r' = streams r"

lemma expanded_trans: "expanded A r s \<Longrightarrow> expanded A s t \<Longrightarrow> expanded A r t"
  by (auto simp: expanded_def intro: kept_trans)

lemma frame_expanded: "frame A r s \<Longrightarrow> expanded A r s"
  by (simp add: frame_def expanded_def)

lemma untouched_frame: "untouched r s \<Longrightarrow> frame A r s"
  using frame_untouched frame_refl by blast

lemma untouched_expanded: "untouched r s \<Longrightarrow> expanded A r s"
  by (rule frame_expanded [OF untouched_frame])

lemma active_expanded: "expanded A (r\<lparr>activeFields := c\<rparr>) s \<Longrightarrow> expanded A r s"
  by (auto simp: expanded_def kept_def noLoops_def storeOk_def runnerOk_def streams_def)

lemma runAlternatives_expanded:
  assumes "\<And>f r r' fs e. f \<in> set alts \<Longrightarrow> f r = Some (r', fs, e) \<Longrightarrow> frame A r r'"
    "runAlternatives X alts c r = Some (b, c', r')"
  shows "expanded A r r'"
  using assms
proof (induction alts arbitrary: c r)
  case (Cons f alts)
  obtain s fs fin where f: "f (r\<lparr>activeFields := Some c\<rparr>) = Some (s, fs, fin)"
    using Cons.prems(2) by (auto split: option.splits)
  obtain b1 c1 s1 where t: "takeFields X fs (collectorOf c s) s = (b1, c1, s1)" using prod_cases3 by blast
  have "frame A (r\<lparr>activeFields := Some c\<rparr>) s" using Cons.prems(1) f by (metis list.set_intros(1))
  then have e: "expanded A r s1"
    using expanded_trans [OF active_expanded [OF frame_expanded] untouched_expanded [OF takeFields_untouched [OF t]]] by simp
  show ?case
  proof (cases "b1 \<and> fin = FieldsOk")
    case True
    then have "runAlternatives X alts c1 s1 = Some (b, c', r')" using Cons.prems(2) f t by simp
    then have "expanded A s1 r'" using Cons.IH Cons.prems(1) by (meson list.set_intros(2))
    then show ?thesis by (rule expanded_trans [OF e])
  next
    case False
    then have "untouched s1 r'"
      using Cons.prems(2) f t by (cases b1; cases fin) (auto simp: frame_simps)
    then show ?thesis by (rule expanded_trans [OF e untouched_expanded])
  qed
qed (simp add: expanded_def)

lemma addWord_expanded:
  assumes "frameExpander X" "frameCb (ex_api X) cb" "addWord X cb ifs w c r = Some (b, c', r')"
  shows "expanded (ex_api X) r r'"
proof -
  obtain st s where s: "stop (ex_ctx X) r = (st, s)" by force
  have u: "untouched r s" using stop_untouched [OF s] .
  have fr: "\<And>f r r' fs e. f \<in> set (FieldsSeq X cb w) \<Longrightarrow> f r = Some (r', fs, e) \<Longrightarrow> frame (ex_api X) r r'"
    using assms(1,2) unfolding frameExpander_def by blast
  have "untouched r r' \<or> (\<exists>c. runAlternatives X (FieldsSeq X cb w) c s = Some (b, c', r'))"
    using assms(3) s u by (cases st) (auto simp: addWord_def Let_def frame_simps split: option.splits prod.splits if_splits)
  moreover have "expanded (ex_api X) s r'" if "runAlternatives X (FieldsSeq X cb w) c s = Some (b, c', r')" for c
    by (rule runAlternatives_expanded [OF _ that]) (rule fr)
  ultimately show ?thesis
    using untouched_expanded expanded_trans [OF untouched_expanded [OF u]] by blast
qed

lemma add_frame:
  assumes "frameExpander X" "frameCb (ex_api X) cb" "fieldCollector_add X cb ws c r = Some (b, c', r')"
  shows "frame (ex_api X) r r'"
proof -
  have "expanded (ex_api X) r s" if "addWords X cb ifs ws c r = Some (b, c', s)" for ifs c r s
    using that
  proof (induction ws arbitrary: c r)
    case (Cons w ws)
    then obtain b1 c1 s1 where w: "addWord X cb ifs w c r = Some (b1, c1, s1)" by (auto split: option.splits)
    note e = addWord_expanded [OF assms(1,2) w]
    show ?case
    proof (cases b1)
      case True
      then have "expanded (ex_api X) s1 s" using Cons w by simp
      then show ?thesis by (rule expanded_trans [OF e])
    qed (use Cons.prems w e in simp)
  qed (simp add: expanded_def)
  then show ?thesis
    using assms(3) by (auto simp: fieldCollector_add_def expanded_def frame_def collKey_def kept_def noLoops_def streams_def)
qed

lemma expandFields_frame:
  "frameExpander X \<Longrightarrow> frameCb (ex_api X) cb \<Longrightarrow> expandFields X cb ws r = Some (fs, r') \<Longrightarrow> frame (ex_api X) r r'"
  by (auto simp: expandFields_def dest: add_frame)

lemma literalBounded_frame:
  assumes "frameExpander X" "frameCb (ex_api X) cb" "literalBounded X cb w limit message r = Some (s, r')"
  shows "frame (ex_api X) r r'"
proof -
  have l: "ex_Literal X cb w r = Some (r1, res) \<Longrightarrow> frame (ex_api X) r r1" for r1 res
    using assms(1,2) unfolding frameExpander_def by blast
  consider "untouched r r'" | r1 res where "ex_Literal X cb w r = Some (r1, res)" "untouched r1 r'"
    using assms(3) by (auto simp: literalBounded_def frame_simps dest: charge_untouched
        split: option.splits sum.splits if_splits prod.splits)
  then show ?thesis using l frame_untouched untouched_frame by cases blast+
qed

lemma document_frame:
  assumes "frameExpander X" "frameCb (ex_api X) cb" "document X cb w r = Some (r', res)"
  shows "frame (ex_api X) r r'"
proof -
  have l: "ex_Document X cb w r = Some (r1, res) \<Longrightarrow> frame (ex_api X) r r1" for r1 res
    using assms(1,2) unfolding frameExpander_def by blast
  then show ?thesis
    using assms(3) by (auto simp: document_def split: option.splits sum.splits)
qed


section \<open>Redirections\<close>

text \<open>Redirections move the streams; the statement puts them back.\<close>

definition moved :: "expandApi \<Rightarrow> 'w shell \<Rightarrow> 'w shell \<Rightarrow> bool" where
  "moved A r r' \<longleftrightarrow> kept A r r' \<and> collKey r' = collKey r"

lemma moved_trans: "moved A r s \<Longrightarrow> moved A s t \<Longrightarrow> moved A r t"
  by (auto simp: moved_def intro: kept_trans)

lemma frame_moved: "frame A r s \<Longrightarrow> moved A r s"
  by (simp add: frame_def moved_def)

lemma untouched_moved: "untouched r s \<Longrightarrow> moved A r s"
  by (rule frame_moved [OF untouched_frame])

lemma moved_refl [simp]: "moved A r r"
  by (simp add: moved_def)

definition rewired :: "'w shell \<Rightarrow> 'w shell \<Rightarrow> bool" where
  "rewired r r' \<longleftrightarrow> same r r' \<and> activeFields r' = activeFields r"

lemma rewired_trans: "rewired r s \<Longrightarrow> rewired s t \<Longrightarrow> rewired r t"
  by (simp add: rewired_def same_def)

lemma untouched_rewired: "untouched r s \<Longrightarrow> rewired r s"
  by (simp add: untouched_def rewired_def)

lemma rewired_moved: "rewired r s \<Longrightarrow> moved A r s"
  by (auto simp: rewired_def moved_def collKey_def intro: kept_same [of r s])

lemma rewired_streams [simp]:
  "rewired r (r\<lparr>r_stdin := i\<rparr>)" "rewired r (r\<lparr>r_stdout := i\<rparr>)" "rewired r (r\<lparr>r_stderr := i\<rparr>)"
  "rewired r (r\<lparr>r_stdout := i, r_stderr := j\<rparr>)"
  by (simp_all add: rewired_def frame_simps)

lemma hdocExpand_frame:
  "frameExpander (expr C) \<Longrightarrow> frameCb (ex_api (expr C)) cb \<Longrightarrow> hdocExpand C cb q w r = Some (r', res) \<Longrightarrow>
     frame (ex_api (expr C)) r r'"
  by (auto simp: hdocExpand_def dest: document_frame split: if_splits)

lemma flushLines_frame:
  assumes "frameExpander (expr C)" "frameCb (ex_api (expr C)) cb"
  shows "flushLines C cb q ls buf r = Some (r', res) \<Longrightarrow> frame (ex_api (expr C)) r r'"
proof (induction ls arbitrary: buf r)
  case (Cons l ls)
  then obtain s e where h: "hdocExpand C cb q l r = Some (s, e)" by (auto split: option.splits)
  note f = hdocExpand_frame [OF assms h]
  have "r' = s \<or> (\<exists>buf'. flushLines C cb q ls buf' s = Some (r', res))"
    using Cons.prems h by (auto simp: Let_def split: sum.splits if_splits)
  then show ?case using f Cons.IH frame_trans by blast
qed simp

lemma hdocContent_frame:
  assumes "frameExpander (expr C)" "frameCb (ex_api (expr C)) cb" "hdocContent C cb rd body r = Some (r', res)"
  shows "frame (ex_api (expr C)) r r'"
proof -
  have "r' = r \<or> (\<exists>q e. hdocExpand C cb q body r = Some (r', e)) \<or> (\<exists>q ls. flushLines C cb q ls [] r = Some (r', res))"
    using assms(3) by (auto simp: hdocContent_def split: if_splits option.splits sum.splits)
  then show ?thesis using hdocExpand_frame [OF assms(1,2)] flushLines_frame [OF assms(1,2)] by auto
qed

lemma hdocReader_frame:
  assumes "frameExpander (expr C)" "frameCb (ex_api (expr C)) cb" "hdocReader C cb rd body r = Some (r', res)"
  shows "frame (ex_api (expr C)) r r'"
proof -
  obtain w pp where sp: "sysPipe C (world r) = (w, pp)" by force
  have u: "untouched r (r\<lparr>world := w\<rparr>)" by (simp add: frame_simps)
  consider "untouched r r'" | s e where "hdocContent C cb rd body (r\<lparr>world := w\<rparr>) = Some (s, e)" "untouched s r'"
    using assms(3) sp by (auto simp: hdocReader_def Let_def frame_simps dest: charge_untouched
        split: sum.splits prod.splits option.splits)
  then show ?thesis
  proof cases
    case 2
    then show ?thesis
      using frame_untouched [OF 2(2)] frame_trans [OF untouched_frame [OF u]] hdocContent_frame [OF assms(1,2) 2(1)] by blast
  qed (rule untouched_frame)
qed

lemma redirectWord_frame:
  assumes "frameExpander (expr C)" "frameCb (ex_api (expr C)) cb" "redirectWord C cb w r = Some (r', res)"
  shows "frame (ex_api (expr C)) r r'"
proof -
  obtain b c s where a: "fieldCollector_add (expr C) cb [w] (newFieldCollector MaxExpandedArgumentsPerCommand) r = Some (b, c, s)"
    using assms(3) by (auto simp: redirectWord_def split: option.splits)
  have "untouched s r'" using assms(3) a
    by (auto simp: redirectWord_def frame_simps split: bool.splits list.splits)
  then show ?thesis using frame_untouched add_frame [OF assms(1,2) a] by blast
qed

lemma redirByOp_rewired:
  assumes "\<And>f s. rewired s (put f s)" "redirByOp C op arg put r = (r', res)"
  shows "rewired r r'"
proof -
  have t: "rewired r r1" if "openWriteTarget C app a pt r = (r1, x)" "\<And>f s. rewired s (pt f s)" for app a pt r1 x
  proof -
    obtain s b where rj: "rejectNonRegularRedirectTarget C a r = (s, b)" by force
    have "untouched r s" using rj
      by (auto simp: rejectNonRegularRedirectTarget_def frame_simps split: option.splits sum.splits if_splits)
    moreover obtain s' o' where op: "runner_open C a (writeRedirectFlags app) redirectFilePerm True s = (s', o')" by force
    ultimately have "rewired r s" "rewired r s'"
      using runner_open_untouched [OF op] by (auto intro: rewired_trans untouched_rewired)
    then show ?thesis using that rj op
      by (auto simp: openWriteTarget_def split: bool.splits sum.splits intro: rewired_trans [of r s'])
  qed
  have u: "rewired r r" "rewired r (errf m r)" for m by (simp_all add: rewired_def frame_simps)
  have o: "runner_open C arg O_RDONLY 0 True r = (s, x) \<Longrightarrow> rewired r s \<and> rewired r (s\<lparr>r_stdin := f\<rparr>)" for s x f
    by (auto simp: rewired_def untouched_def frame_simps dest!: runner_open_untouched)
  show ?thesis
    using assms t u o
    by (auto simp: redirByOp_def refuseRedirect_def openWriteRedirect_def openWriteAllRedirect_def
        split: if_splits prod.splits sum.splits)
qed


lemma redir_moved:
  assumes "frameExpander (expr C)" "frameCb (ex_api (expr C)) cb" "redir C cb rd r = Some (r', res)"
  shows "moved (ex_api (expr C)) r r'"
proof (cases "r_Hdoc rd")
  case (Some body)
  then obtain s x where h: "hdocReader C cb rd body r = Some (s, x)" using assms(3) by (auto simp: redir_def split: option.splits)
  then have "rewired s r'" using assms(3) Some by (auto simp: redir_def rewired_def frame_simps split: option.splits)
  then show ?thesis
    using moved_trans [OF frame_moved [OF hdocReader_frame [OF assms(1,2) h]] rewired_moved] by blast
next
  case None
  show ?thesis
  proof (cases "r_Op rd = HdocOp \<or> r_Op rd = DashHdoc")
    case True
    then have "rewired r r'" using assms(3) None
      by (auto simp: redir_def rewired_def frame_simps onWorld_def split: prod.splits sum.splits)
    then show ?thesis by (rule rewired_moved)
  next
    case False
    then obtain s x where w: "redirectWord C cb (case r_Word rd of None \<Rightarrow> [] | Some w \<Rightarrow> w) r = Some (s, x)"
      using assms(3) None by (auto simp: redir_def split: option.splits)
    have "untouched s r' \<or> (\<exists>arg put. (\<forall>f s. rewired s (put f s)) \<and> redirByOp C (r_Op rd) arg put s = (r', res))"
      using assms(3) None False w
      by (auto simp: redir_def frame_simps refuseRedirect_def split: option.splits if_splits) (metis rewired_streams(2,3))+
    then have "moved (ex_api (expr C)) s r'" using redirByOp_rewired rewired_moved untouched_moved by metis
    then show ?thesis using moved_trans [OF frame_moved [OF redirectWord_frame [OF assms(1,2) w]]] by blast
  qed
qed

lemma applyRedirects_moved:
  assumes "frameExpander (expr C)" "frameCb (ex_api (expr C)) cb"
  shows "applyRedirects C cb rds cls r = Some (r', cls') \<Longrightarrow> moved (ex_api (expr C)) r r'"
proof (induction rds arbitrary: cls r)
  case (Cons rd rds)
  then obtain s x where d: "redir C cb rd r = Some (s, x)" by (auto split: option.splits)
  note m = redir_moved [OF assms d]
  have "untouched s r' \<or> (\<exists>cls. applyRedirects C cb rds cls s = Some (r', cls'))"
    using Cons.prems d by (auto simp: frame_simps split: sum.splits)
  then show ?case using moved_trans [OF m] untouched_moved Cons.IH by blast
qed simp

section \<open>Subshells\<close>

lemma subshell_parent:
  assumes "subshell C bg r = (r1, r2)"
  shows "frame (ex_api (expr C)) r r1" and "storeOk (ex_api (expr C)) r \<Longrightarrow> storeOk (ex_api (expr C)) r2"
    and "r_heap r2 = r_heap r1" and "storeOk (ex_api (expr C)) r \<Longrightarrow> writeEnv r2 = length (overlays (r_heap r))"
    and "noLoops r2" "\<not> inLoop r2" "inPipeline r2 = inPipeline r" "inPipelineStage r2 = inPipelineStage r"
proof -
  let ?A = "ex_api (expr C)"
  obtain h i where n: "newOverlayEnviron ?A (Overlay (writeEnv r)) bg (r_heap r) = (h, i)" by force
  have r: "r1 = r\<lparr>r_heap := h\<rparr>" "r_heap r2 = h" "writeEnv r2 = i"
    and o: "noLoops r2" "\<not> inLoop r2" "inPipeline r2 = inPipeline r" "inPipelineStage r2 = inPipelineStage r"
    using assms n by (auto simp: subshell_def Let_def noLoops_def)
  have v: "varStep ?A False (r_heap r) h" if "storeOk ?A r"
    using that varStep.vsNew [OF _ n] by (simp add: storeOk_def runnerOk_def)
  have i: "i = length (overlays (r_heap r)) \<and> heapInv ?A h" if "storeOk ?A r"
    using that newOverlayEnviron_keeps [OF _ _ n] by (simp add: storeOk_def runnerOk_def)
  have l: "length (overlays h) > length (overlays (r_heap r))"
    using n by (auto simp: newOverlayEnviron_def newOverlay_def Let_def sharedBudget_length split: prod.splits)
  show "frame ?A r r1" using v by (auto simp: r frame_def kept_def noLoops_def streams_def collKey_def)
  show "storeOk ?A r \<Longrightarrow> storeOk ?A r2" using i l by (auto simp: storeOk_def runnerOk_def r)
  show "r_heap r2 = r_heap r1" "storeOk ?A r \<Longrightarrow> writeEnv r2 = length (overlays (r_heap r))"
    using i by (simp_all add: r)
  show "noLoops r2" "\<not> inLoop r2" "inPipeline r2 = inPipeline r" "inPipelineStage r2 = inPipelineStage r" by (rule o)+
qed

text \<open>A subshell \<open>s\<close> that ran to \<open>t\<close> and released its storage: its parent shares the store.\<close>

lemma subshell_shared:
  assumes "subshell C bg r = (r1, r2)" "r_heap s = r_heap r2" "writeEnv s = writeEnv r2" "kept (ex_api (expr C)) s t"
  shows "frame (ex_api (expr C)) r (shareFrom (releaseVarStorage t) r1)"
proof -
  let ?A = "ex_api (expr C)"
  have "storeSteps ?A (r_heap r1) (release (writeEnv t) (r_heap t))" if "storeOk ?A r"
  proof -
    have o: "storeOk ?A s" using subshell_parent(2) [OF assms(1) that] assms(2,3) by (simp add: storeOk_def runnerOk_def)
    then have "storeOk ?A t" using kept_storeOk [OF assms(4)] by simp
    then have "varStep ?A False (r_heap t) (release (writeEnv t) (r_heap t))"
      by (intro varStep.vsRelease) (simp add: storeOk_def runnerOk_def)
    moreover have "storeSteps ?A (r_heap s) (r_heap t)" using assms(4) o by (simp add: kept_def)
    ultimately show ?thesis using subshell_parent(3) [OF assms(1)] assms(2) by simp
  qed
  then show ?thesis using subshell_parent(1) [OF assms(1)]
    by (auto simp: frame_def kept_def shareFrom_def releaseVarStorage_def noLoops_def streams_def collKey_def
        intro: rtranclp_trans)
qed


section \<open>Assignments\<close>

lemma assignVal_frame:
  "frameExpander (expr C) \<Longrightarrow> frameCb (ex_api (expr C)) cb \<Longrightarrow> assignVal C cb prv as r = Some (vr, r') \<Longrightarrow>
     frame (ex_api (expr C)) r r'"
  by (cases as) (auto simp: assignVal_def assignmentLiteral_def frame_simps split: if_splits option.splits
      dest: literalBounded_frame intro: untouched_frame)

lemma setVarWithIndex_frame: "frame (ex_api (expr C)) r (setVarWithIndex C prv name idx vr r)"
  by (simp add: setVarWithIndex_def Let_def setVar_frame untouched_frame frame_simps)

lemma bareAssigns_frame:
  assumes "frameExpander (expr C)" "frameCb (ex_api (expr C)) cb"
  shows "bareAssigns C cb asgs r = Some r' \<Longrightarrow> frame (ex_api (expr C)) r r'"
proof (induction asgs arbitrary: r)
  case (Cons a asgs)
  obtain nm ap ar ix v where a: "a = Assign nm ap ar ix v" by (cases a)
  obtain s prv where l: "lookupVar (ex_api (expr C)) nm r = (s, prv)" by force
  obtain vr t where as: "assignVal C cb (prv\<lparr>vLocal := False\<rparr>) a s = Some (vr, t)"
    using Cons.prems a l by (auto simp: Let_def split: option.splits)
  have f: "frame (ex_api (expr C)) r t"
    using frame_trans [OF untouched_frame [OF lookupVar_untouched [OF l]] assignVal_frame [OF assms as]] .
  have "r' = t \<or> bareAssigns C cb asgs (setVarWithIndex C (prv\<lparr>vLocal := False\<rparr>) nm ix vr t) = Some r'"
    using Cons.prems a l as by (auto simp: Let_def split: if_splits)
  then show ?case using f Cons.IH frame_trans [OF f frame_trans [OF setVarWithIndex_frame]] by blast
qed simp

lemma inlineValues_frame:
  assumes "frameExpander (expr C)" "frameCb (ex_api (expr C)) cb"
  shows "inlineValues C cb asgs acc r = Some (vs, r') \<Longrightarrow> frame (ex_api (expr C)) r r'"
proof (induction asgs arbitrary: acc r)
  case (Cons a asgs)
  obtain nm ap ar ix v where a: "a = Assign nm ap ar ix v" by (cases a)
  obtain s prv where l: "lookupVar (ex_api (expr C)) nm r = (s, prv)" by force
  obtain vr t where as: "assignVal C cb prv a s = Some (vr, t)"
    using Cons.prems a l by (auto simp: Let_def split: option.splits)
  have f: "frame (ex_api (expr C)) r t"
    using frame_trans [OF untouched_frame [OF lookupVar_untouched [OF l]] assignVal_frame [OF assms as]] .
  have "r' = t \<or> (\<exists>acc. inlineValues C cb asgs acc (setVar (ex_api (expr C)) nm (vr\<lparr>vExported := True\<rparr>) t) = Some (vs, r'))"
    using Cons.prems a l as by (auto simp: Let_def split: if_splits)
  then show ?case using f Cons.IH frame_trans [OF f frame_trans [OF setVar_frame]] by blast
qed simp

lemma inlineAssignments_frame:
  assumes "frameExpander (expr C)" "frameCb (ex_api (expr C)) cb" "inlineAssignments C cb asgs r = Some (vs, r')"
  shows "frame (ex_api (expr C)) r r'"
proof -
  let ?A = "ex_api (expr C)"
  obtain h i where n: "newOverlayEnviron ?A (Overlay (writeEnv r)) False (r_heap r) = (h, i)" by force
  obtain s where v: "inlineValues C cb asgs [] (r\<lparr>r_heap := h, writeEnv := i\<rparr>) = Some (vs, s)"
    and r': "r' = s\<lparr>r_heap := release i (r_heap s), writeEnv := writeEnv r\<rparr>"
    using assms(3) n by (auto simp: inlineAssignments_def Let_def)
  have f: "frame ?A (r\<lparr>r_heap := h, writeEnv := i\<rparr>) s" by (rule inlineValues_frame [OF assms(1,2) v])
  have "subshell C False r = (fst (subshell C False r), snd (subshell C False r))" by simp
  note sb = subshell_parent [OF this]
  have sub: "r_heap (snd (subshell C False r)) = h" "writeEnv (snd (subshell C False r)) = i"
    "r_heap (fst (subshell C False r)) = h"
    using n by (simp_all add: subshell_def Let_def)
  have "storeSteps ?A (r_heap r) (release i (r_heap s))" if "storeOk ?A r"
  proof -
    have o: "storeOk ?A (r\<lparr>r_heap := h, writeEnv := i\<rparr>)" using sb(2) [OF that] sub by (simp add: storeOk_def runnerOk_def)
    have k: "kept ?A (r\<lparr>r_heap := h, writeEnv := i\<rparr>) s" using f by (simp add: frame_def)
    have "storeOk ?A s" "writeEnv s = i" using kept_storeOk [OF k o] k by (simp_all add: kept_def)
    then have "varStep ?A False (r_heap s) (release i (r_heap s))"
      by (intro varStep.vsRelease) (simp add: storeOk_def runnerOk_def)
    moreover have "storeSteps ?A h (r_heap s)" using k o by (simp add: kept_def)
    moreover have "storeSteps ?A (r_heap r) h" using sb(1) that sub by (simp add: frame_def kept_def)
    ultimately show ?thesis by (metis rtranclp.rtrancl_into_rtrancl rtranclp_trans)
  qed
  then show ?thesis using f
    by (auto simp: r' frame_def kept_def noLoops_def streams_def collKey_def)
qed

definition restoresOk :: "expandApi \<Rightarrow> 'w shell \<Rightarrow> restoreVar list \<Rightarrow> bool" where
  "restoresOk A r rs \<longleftrightarrow> (\<forall>(env, snap) \<in> set rs. env = writeEnv r \<and>
     (storeOk A r \<longrightarrow> validBinding A (snap_name snap) (snap_owned snap) (snap_vr snap)))"

lemma installAssignments_frame:
  assumes "installAssignments C vs seen rs r = (rs', r')" "frame (ex_api (expr C)) r0 r" "restoresOk (ex_api (expr C)) r0 rs"
  shows "frame (ex_api (expr C)) r0 r' \<and> restoresOk (ex_api (expr C)) r0 rs'"
  using assms
proof (induction vs arbitrary: seen rs r)
  case (Cons v vs)
  let ?A = "ex_api (expr C)"
  obtain nm vr where v: "v = (nm, vr)" by (cases v)
  have f: "frame ?A r0 (setVar ?A nm vr r)" using frame_trans [OF Cons.prems(2) setVar_frame] .
  have w: "writeEnv r = writeEnv r0" using Cons.prems(2) by (simp add: frame_def kept_def)
  have "validBinding ?A (snap_name sn) (snap_owned sn) (snap_vr sn)"
    if "storeOk ?A r0" "sn = snapshotBinding (writeEnv r) nm (r_heap r)" for sn
    using kept_storeOk [of ?A r0 r] Cons.prems(2) that validBinding_snapshot [OF _ _ that(2)]
    by (simp add: frame_def storeOk_def runnerOk_def)
  then have rs: "restoresOk ?A r0 (if nm \<in> set seen then rs
      else rs @ [(writeEnv r, snapshotBinding (writeEnv r) nm (r_heap r))])"
    using Cons.prems(3) w by (auto simp: restoresOk_def)
  show ?case
    by (rule Cons.IH [OF _ f rs]) (use Cons.prems(1) v in \<open>simp add: Let_def\<close>)
qed simp

lemma restoreVars_moved:
  assumes "moved A r0 r" "restoresOk A r0 rs"
  shows "moved A r0 (restoreVars name rs r)"
proof -
  define isCd where "isCd \<longleftrightarrow> name = ''cd'' \<and> ok (r_exit r)"
  have "moved A r0 (foldl (\<lambda>r (env, snap). if isCd \<and> snap_name snap \<in> {''PWD'', ''OLDPWD''} then r
      else r\<lparr>r_heap := restoreBinding env snap (r_heap r)\<rparr>) r rs)"
    if "moved A r0 r" "restoresOk A r0 rs" for r rs
    using that
  proof (induction rs arbitrary: r)
    case (Cons p rs)
    obtain env snap where p: "p = (env, snap)" by (cases p)
    have e: "env = writeEnv r0" and vb: "storeOk A r0 \<longrightarrow> validBinding A (snap_name snap) (snap_owned snap) (snap_vr snap)"
      using Cons.prems(2) p by (auto simp: restoresOk_def)
    have "varStep A False (r_heap r) (restoreBinding env snap (r_heap r))" if "storeOk A r0"
      using that vb e kept_storeOk [of A r0 r] Cons.prems(1)
      by (intro varStep.vsRestore) (auto simp: moved_def storeOk_def runnerOk_def kept_def)
    then have "moved A r0 (r\<lparr>r_heap := restoreBinding env snap (r_heap r)\<rparr>)"
      using Cons.prems(1) by (auto simp: moved_def kept_def noLoops_def collKey_def intro: rtranclp.rtrancl_into_rtrancl)
    then show ?case using Cons p by (auto simp: restoresOk_def)
  qed simp
  then show ?thesis using assms by (simp add: restoreVars_def isCd_def Let_def)
qed


section \<open>Dispatch\<close>

text \<open>The contract of the builtins: they work on the shell through what the call context offers, so
  they leave the frame alone if the commands they run do, and only ask to leave loops from inside
  one.  The elevation callback runs the command and hands back its result.\<close>

definition frameHandler :: "expandApi \<Rightarrow> 'w handler \<Rightarrow> bool" where
  "frameHandler A fn \<longleftrightarrow> (\<forall>cc args r r' res.
     (\<forall>d m as si s s' x. cc_RunCommand cc d m as si s = Some (s', x) \<longrightarrow> frame A s s') \<longrightarrow>
     fn cc args r = Some (r', res) \<longrightarrow> frame A r r' \<and> (\<not> cc_InLoop cc \<longrightarrow> BreakN res \<le> 0 \<and> ContinueN res \<le> 0))"

definition frameHandlers :: "('w, 'c) config_scheme \<Rightarrow> bool" where
  "frameHandlers C \<longleftrightarrow> (\<forall>name fn. Lookup C name = Some fn \<longrightarrow> frameHandler (ex_api (expr C)) fn) \<and>
     (\<forall>el name f r r' res e. elevate C = Some el \<longrightarrow>
        (\<forall>s s' x. f s = Some (s', x) \<longrightarrow> frame (ex_api (expr C)) s s') \<longrightarrow> el name f r = Some (r', res, e) \<longrightarrow>
        frame (ex_api (expr C)) r r' \<and> (e = None \<longrightarrow> (\<exists>s s'. f s = Some (s', res))))"

lemma handler_frame:
  assumes "frameHandlers C" "Lookup C name = Some fn" "fn cc args r = Some (r', res)"
    "\<And>d m as si s s' x. cc_RunCommand cc d m as si s = Some (s', x) \<Longrightarrow> frame (ex_api (expr C)) s s'"
  shows "frame (ex_api (expr C)) r r'" "\<not> cc_InLoop cc \<Longrightarrow> BreakN res \<le> 0 \<and> ContinueN res \<le> 0"
  using assms unfolding frameHandlers_def frameHandler_def by blast+

lemma runCmd_frame:
  assumes "frameHandlers C"
  shows "runCmdWithStdin C n el inh dir name args si r = Some (r', x) \<Longrightarrow> frame (ex_api (expr C)) r r'"
proof (induction n arbitrary: inh dir name args si r r' x)
  case (Suc n)
  consider "untouched r r'"
    | fn cc res where "Lookup C name = Some fn" "cc_RunCommand cc = runCmdWithStdin C n el (case si of None \<Rightarrow> inh | Some f \<Rightarrow> Some f)"
        "fn cc args r = Some (r', res)"
    using Suc.prems by (auto simp: Let_def frame_simps split: if_splits option.splits) force+
  then show ?case
  proof cases
    case 2
    then show ?thesis using handler_frame(1) [OF assms 2(1,3)] Suc.IH by simp
  qed (rule untouched_frame)
qed simp

lemma applyResult_frame:
  assumes "frame A r s" "\<not> inLoop r \<Longrightarrow> BreakN res \<le> 0 \<and> ContinueN res \<le> 0"
  shows "frame A r (applyResult C res s)"
proof -
  have "frame A r (s\<lparr>r_exit := (r_exit s)\<lparr>code := Code res, exiting := Exiting res\<rparr>,
      breakEnclosing := BreakN res, contnEnclosing := ContinueN res\<rparr>)"
    using assms by (auto simp: frame_def kept_def noLoops_def streams_def collKey_def)
  then show ?thesis
    by (auto simp: applyResult_def Let_def frame_simps split: option.split intro: frame_untouched [rotated])
qed

lemma dispatch_frame:
  assumes "frameHandlers C" "Lookup C name' = Some fn" "dispatch C n el name fn args r = Some r'"
  shows "frame (ex_api (expr C)) r r'"
proof -
  let ?A = "ex_api (expr C)"
  define r1 where "r1 = r\<lparr>dispatchedCount := dispatchedCount r + 1\<rparr>"
  have u: "frame ?A r r1" by (simp add: r1_def untouched_frame frame_simps)
  have l: "inLoop r1 = inLoop r" by (simp add: r1_def)
  let ?body = "fn (callContext C n el r1) (tl args)"
  have b: "frame ?A s s' \<and> (\<not> inLoop r \<longrightarrow> BreakN res \<le> 0 \<and> ContinueN res \<le> 0)" if "?body s = Some (s', res)" for s s' res
    using handler_frame [OF assms(1,2) that] runCmd_frame [OF assms(1)] l by (auto simp: callContext_def)
  show ?thesis
  proof (cases "if el then elevate C else None")
    case None
    then obtain s res where s: "?body r1 = Some (s, res)" "r' = applyResult C res s"
      using assms(3) by (auto simp: dispatch_def Let_def r1_def)
    then show ?thesis using b [OF s(1)] applyResult_frame frame_trans [OF u] by blast
  next
    case (Some elf)
    then obtain s res e where s: "elf name ?body r1 = Some (s, res, e)"
      using assms(3) by (auto simp: dispatch_def Let_def r1_def split: option.splits)
    have "elevate C = Some elf" using Some by (simp split: if_splits)
    then have f: "frame ?A r1 s \<and> (e = None \<longrightarrow> (\<exists>t t'. ?body t = Some (t', res)))"
      using assms(1) s b unfolding frameHandlers_def by blast
    show ?thesis
    proof (cases e)
      case None
      then have "r' = applyResult C res s" using assms(3) Some s by (simp add: dispatch_def Let_def r1_def)
      then show ?thesis using None f b applyResult_frame frame_trans [OF u] by blast
    next
      case (Some er)
      then have "untouched s r'" using assms(3) \<open>(if el then elevate C else None) = Some elf\<close> s
        by (auto simp: dispatch_def Let_def r1_def frame_simps)
      then show ?thesis using f frame_trans [OF u] frame_untouched by blast
    qed
  qed
qed

lemma gates_untouched: "gates C el name r = Inl r' \<Longrightarrow> untouched r r'"
  by (auto simp: gates_def Let_def frame_simps split: if_splits option.splits)

lemma gates_known: "gates C el name r = Inr (Some fn) \<Longrightarrow> Lookup C name = Some fn"
  by (auto simp: gates_def Let_def split: if_splits option.splits)

lemma exec_untouched: "untouched r (exec C args r)"
  by (auto simp: exec_def noExecHandler_def Let_def frame_simps split: list.split)

text \<open>A call that was refused changes nothing; one that was not runs \<open>setup\<close> once.\<close>

lemma call_cases:
  assumes "frameHandlers C" "call C n args setup r = Some (x, r')"
  obtains (refused) "x = None" "untouched r r'"
  | (ran) r1 y p s where "untouched r r1" "setup r1 = Some (y, p, s)" "x = Some y" "frame (ex_api (expr C)) s r'"
proof -
  define el where "el \<longleftrightarrow> args \<noteq> [] \<and> hd args = ''sudo''"
  define name where "name = hd (if el then tl args else args)"
  obtain b s0 where st: "stop (ex_ctx (expr C)) (r\<lparr>totalCount := totalCount r + 1\<rparr>) = (b, s0)" by force
  define r1 where "r1 = s0\<lparr>unallowedCount := unallowedCount s0 + (if cmdAllowed C name then 0 else 1),
    unknownCount := unknownCount s0 + (if Lookup C name = None then 1 else 0)\<rparr>"
  have "untouched (r\<lparr>totalCount := totalCount r + 1\<rparr>) s0" using stop_untouched [OF st] .
  then have u0: "untouched r s0" by (rule untouched_trans [rotated]) (simp add: frame_simps)
  then have u1: "untouched r r1" by (simp add: r1_def frame_simps)
  note defs = call_def Let_def el_def [symmetric] name_def [symmetric] st prod.case
  show thesis
  proof (cases "el \<and> length args < 2 \<or> b")
    case True
    then show ?thesis using assms(2) u0 refused unfolding defs
      by (cases "el \<and> length args < 2"; cases b) (auto simp: frame_simps)
  next
    case False
    then have nb: "b = False" "(el \<and> length args < 2) = False" by auto
    then have c: "(case gates C el name r1 of Inl r \<Rightarrow> Some (None, r)
        | Inr known \<Rightarrow> (case setup r1 of None \<Rightarrow> None | Some (x, None, r) \<Rightarrow> Some (Some x, r)
          | Some (x, Some prepared, r) \<Rightarrow> (case known of
              Some fn \<Rightarrow> map_option (Pair (Some x)) (dispatch C n el name fn (if el then tl prepared else prepared) r)
            | None \<Rightarrow> Some (Some x, exec C (if el then tl prepared else prepared) r)))) = Some (x, r')"
      using assms(2) unfolding defs r1_def [symmetric] by (simp only: if_False bool.case)
    show ?thesis
    proof (cases "gates C el name r1")
      case (Inl s)
      then show ?thesis using c refused untouched_trans [OF u1 gates_untouched [OF Inl]] by simp
    next
      case (Inr known)
      then obtain y p s where s: "setup r1 = Some (y, p, s)" using c by (auto split: option.splits)
      have "x = Some y \<and> frame (ex_api (expr C)) s r'"
        using c Inr s gates_known [of C el name r1] dispatch_frame [OF assms(1), of name] exec_untouched [of s C]
        by (auto split: option.splits intro: untouched_frame)
      then show ?thesis using ran [OF u1 s] by simp
    qed
  qed
qed


section \<open>Simple commands\<close>

lemma callSetup_moved:
  assumes "frameExpander (expr C)" "frameCb (ex_api (expr C)) cb"
    "callSetup C cb asgs ws redirs c cls r = Some ((rs, cls'), p, r')"
  shows "moved (ex_api (expr C)) r r' \<and> restoresOk (ex_api (expr C)) r rs"
proof -
  let ?A = "ex_api (expr C)"
  obtain b c1 r1 where a: "fieldCollector_add (expr C) cb ws c r = Some (b, c1, r1)"
    using assms(3) by (auto simp: callSetup_def split: option.splits)
  note f1 = add_frame [OF assms(1,2) a]
  have e: "restoresOk ?A s []" for s by (simp add: restoresOk_def)
  show ?thesis
  proof (cases b)
    case False
    then show ?thesis using assms(3) a f1 e by (auto simp: callSetup_def intro: frame_moved)
  next
    case True
    then obtain vs r2 where i: "inlineAssignments C cb asgs r1 = Some (vs, r2)"
      using assms(3) a by (auto simp: callSetup_def split: option.splits)
    have f2: "frame ?A r r2" using frame_trans [OF f1 inlineAssignments_frame [OF assms(1,2) i]] .
    show ?thesis
    proof (cases "ok (r_exit r2)")
      case False
      then show ?thesis using assms(3) a i True f2 e by (auto simp: callSetup_def intro: frame_moved)
    next
      case okr: True
      then obtain r3 cls3 where d: "applyRedirects C cb redirs cls r2 = Some (r3, cls3)"
        using assms(3) a i True by (auto simp: callSetup_def split: option.splits)
      have m3: "moved ?A r r3" using moved_trans [OF frame_moved [OF f2] applyRedirects_moved [OF assms(1,2) d]] .
      show ?thesis
      proof (cases "ok (r_exit r3)")
        case False
        then show ?thesis using assms(3) a i d True okr m3 e by (auto simp: callSetup_def)
      next
        case True
        obtain rs4 r4 where n: "installAssignments C vs [] [] r3 = (rs4, r4)" by force
        have r: "rs = rs4" "r' = r4" using assms(3) a i d n True okr \<open>b\<close> by (auto simp: callSetup_def)
        have f4: "frame ?A r3 r4 \<and> restoresOk ?A r3 rs4" by (rule installAssignments_frame [OF n frame_refl e])
        have "restoresOk ?A r rs4"
          using f4 kept_storeOk [of ?A r r3] m3 by (auto simp: restoresOk_def moved_def kept_def)
        then show ?thesis using r f4 moved_trans [OF m3 frame_moved] by blast
      qed
    qed
  qed
qed

lemma leadWords_frame:
  assumes "frameExpander X" "frameCb (ex_api X) cb"
  shows "leadWords X cb p ws c r = Some (ws', c', r') \<Longrightarrow> frame (ex_api X) r r'"
proof (induction ws arbitrary: c r)
  case (Cons w ws)
  show ?case
  proof (cases "p (c_fields c)")
    case True
    then obtain b c1 r1 where a: "fieldCollector_add X cb [w] c r = Some (b, c1, r1)" "leadWords X cb p ws c1 r1 = Some (ws', c', r')"
      using Cons.prems by (auto split: option.splits)
    then show ?thesis using frame_trans [OF add_frame [OF assms a(1)]] Cons.IH by blast
  qed (use Cons.prems in simp)
qed simp

lemma bareCommand_moved:
  assumes "frameExpander (expr C)" "frameCb (ex_api (expr C)) cb" "bareCommand C cb asgs redirs cls r = Some (r', cls')"
  shows "moved (ex_api (expr C)) r r'"
proof -
  obtain r1 cls1 where d: "applyRedirects C cb redirs cls r = Some (r1, cls1)"
    using assms(3) by (auto simp: bareCommand_def split: option.splits)
  have "\<exists>r2. (r2 = r1 \<or> bareAssigns C cb asgs r1 = Some r2) \<and> untouched r2 r'"
    using assms(3) d by (auto simp: bareCommand_def frame_simps split: option.splits if_splits)
  then show ?thesis
    using moved_trans [OF applyRedirects_moved [OF assms(1,2) d]] untouched_moved
      moved_trans [OF frame_moved [OF bareAssigns_frame [OF assms(1,2)]] untouched_moved] by metis
qed

lemma prefix_untouched: "setCommandPrefixFields k c r = (b, c', r') \<Longrightarrow> untouched r r'"
  by (auto simp: setCommandPrefixFields_def Let_def frame_simps split: if_splits)

lemma callExpr_moved:
  assumes "frameExpander (expr C)" "frameHandlers C" "frameCb (ex_api (expr C)) cb"
    "callExpr C n cb asgs args redirs cls r = Some (r', cls')"
  shows "moved (ex_api (expr C)) r r'"
proof -
  let ?A = "ex_api (expr C)"
  define r0 where "r0 = r\<lparr>lastExpandExit := zeroExit\<rparr>"
  have u0: "frame ?A r r0" by (simp add: r0_def untouched_frame frame_simps)
  obtain ws1 c1 r1 where l1: "leadWords (expr C) cb (\<lambda>fs. fs = []) args (newFieldCollector (MaxExpandedArgumentsPerCommand + 2)) r0 = Some (ws1, c1, r1)"
    using assms(4) by (auto simp: callExpr_def Let_def r0_def split: option.splits)
  obtain ws2 c2 r2 where l2: "leadWords (expr C) cb (\<lambda>fs. fs = [''sudo'']) ws1 c1 r1 = Some (ws2, c2, r2)"
    using assms(4) l1 by (auto simp: callExpr_def Let_def r0_def split: option.splits)
  have f2: "frame ?A r r2"
    using frame_trans [OF frame_trans [OF u0 leadWords_frame [OF assms(1,3) l1]] leadWords_frame [OF assms(1,3) l2]] .
  note defs = callExpr_def Let_def r0_def [symmetric] l1 l2 option.case prod.case
  consider "untouched r2 r'" | "bareCommand C cb asgs redirs cls r2 = Some (r', cls')"
    | cmdName others c3 r3 x s where "untouched r2 r3"
        "call C n (cmdName # others) (callSetup C cb asgs ws2 redirs c3 cls) r3 = Some (x, s)"
        "r' = (case x of None \<Rightarrow> s | Some (rs, _) \<Rightarrow> restoreVars cmdName rs s)"
    using assms(4) unfolding defs
    by (auto split: if_splits list.splits prod.splits bool.splits option.splits dest!: prefix_untouched)
  then have "moved ?A r2 r'"
  proof cases
    case 1 then show ?thesis by (rule untouched_moved)
  next
    case 2 then show ?thesis by (rule bareCommand_moved [OF assms(1,3)])
  next
    case (3 cmdName others c3 r3 x s)
    from assms(2) 3(2) show ?thesis
    proof (cases rule: call_cases)
      case refused
      then show ?thesis using 3(1,3) untouched_trans untouched_moved by fastforce
    next
      case (ran r4 y p s1)
      obtain rs cls1 where y: "y = (rs, cls1)" by force
      have m: "moved ?A r4 s1 \<and> restoresOk ?A r4 rs" using callSetup_moved [OF assms(1,3)] ran(2) y by simp
      have "moved ?A r4 s" using moved_trans [OF conjunct1 [OF m] frame_moved [OF ran(4)]] .
      then have "moved ?A r4 (restoreVars cmdName rs s)" using restoreVars_moved m by blast
      then show ?thesis
        using 3(3) ran(3) y moved_trans [OF untouched_moved [OF untouched_trans [OF 3(1) ran(1)]]] by simp
    qed
  qed
  then show ?thesis by (rule moved_trans [OF frame_moved [OF f2]])
qed


end
