(* ===== verification/Shell_Invariant.thy ===== *)
theory Shell_Invariant
  imports Shell_Frame
begin

text \<open>
  The frame holds for statement lists, loops, substitutions, pipelines and statements, so for whole
  scripts.
\<close>

section \<open>Statement lists and loops\<close>

lemma frameRunD: "frameRun A run \<Longrightarrow> run st r = Some r' \<Longrightarrow> frame A r r'"
  by (simp add: frameRun_def)

lemma stmts_frame: "frameRun A run \<Longrightarrow> stmts run sts r = Some r' \<Longrightarrow> frame A r r'"
proof (induction sts arbitrary: r)
  case (Cons st sts)
  then obtain s where s: "run st r = Some s" "r' = s \<or> stmts run sts s = Some r'"
    by (auto split: option.splits if_splits)
  then show ?case using frameRunD [OF Cons.prems(1)] frame_trans Cons.IH [OF Cons.prems(1)] by metis
qed simp

text \<open>Inside a loop the counts of pending breaks are free.\<close>

definition looped :: "expandApi \<Rightarrow> 'w shell \<Rightarrow> 'w shell \<Rightarrow> bool" where
  "looped A r r' \<longleftrightarrow> frame A (r\<lparr>inLoop := True\<rparr>) (r'\<lparr>inLoop := True\<rparr>)"

lemma looped_trans: "looped A r s \<Longrightarrow> looped A s t \<Longrightarrow> looped A r t"
  unfolding looped_def by (rule frame_trans)

lemma frame_looped: "frame A r s \<Longrightarrow> looped A r s"
  by (auto simp: looped_def frame_def kept_def noLoops_def streams_def collKey_def storeOk_def runnerOk_def)

lemma looped_counts [simp]:
  "looped A r (s\<lparr>breakEnclosing := i\<rparr>) = looped A r s" "looped A r (s\<lparr>contnEnclosing := i\<rparr>) = looped A r s"
  "looped A r (s\<lparr>inLoop := b\<rparr>) = looped A r s" "looped A (r\<lparr>inLoop := b\<rparr>) s = looped A r s"
  "looped A (r\<lparr>contnEnclosing := i\<rparr>) s = looped A r s"
  by (auto simp: looped_def frame_def kept_def noLoops_def streams_def collKey_def storeOk_def runnerOk_def)

lemma looped_refl [simp]: "looped A r r"
  by (simp add: looped_def)

lemma looped_frame: "looped A r s \<Longrightarrow> inLoop s = inLoop r \<Longrightarrow> (\<not> inLoop r \<Longrightarrow> noLoops r \<Longrightarrow> noLoops s) \<Longrightarrow> frame A r s"
  by (auto simp: looped_def frame_def kept_def noLoops_def streams_def collKey_def storeOk_def runnerOk_def)

lemma looped_untouched: "untouched s t \<Longrightarrow> looped A r s \<Longrightarrow> looped A r t"
  using looped_trans frame_looped untouched_frame by blast

lemma loopStmtsBroken_looped:
  assumes "frameRun A run" "loopStmtsBroken run sts r = Some (b, r')"
  shows "looped A r r' \<and> inLoop r' = inLoop r"
proof -
  have "looped A r s" if "loopBody run sts r = Some (b, s)" for r s
    using that
  proof (induction sts arbitrary: r)
    case (Cons st sts)
    then obtain t where t: "run st r = Some t" "s = t\<lparr>contnEnclosing := contnEnclosing t - 1\<rparr> \<or>
        s = t\<lparr>breakEnclosing := breakEnclosing t - 1\<rparr> \<or> loopBody run sts t = Some (b, s)"
      by (auto simp: Let_def split: option.splits if_splits)
    then show ?case using looped_trans [OF frame_looped [OF frameRunD [OF assms(1) t(1)]]] Cons.IH by auto
  qed simp
  from this [of "r\<lparr>inLoop := True\<rparr>"] show ?thesis using assms(2) by (auto simp: loopStmtsBroken_def)
qed

lemma execIfChain_frame:
  "execIfChain run ic r = Some r' \<Longrightarrow> frameRun A run \<Longrightarrow> frame A r r'"
proof (induction run ic r arbitrary: r' rule: execIfChain.induct)
  case (1 run hasThen cond thn els r)
  show ?case
  proof (cases "hasThen")
    case True
    then obtain s where s: "stmts run cond r = Some s" using "1.prems"(1) by (auto split: option.splits)
    note f = stmts_frame [OF "1.prems"(2) s]
    consider "r' = s" | "stmts run thn s = Some r'" | "untouched s r'"
      | ic where "\<not> interrupted s" "\<not> ok (r_exit s)" "els = Some ic" "execIfChain run ic (setExit zeroExit s) = Some r'"
      using "1.prems"(1) True s by (auto simp: frame_simps split: if_splits option.splits)
    then show ?thesis
    proof cases
      case 4
      then have "frame A (setExit zeroExit s) r'" using "1.IH" True s "1.prems"(2) by auto
      moreover have "frame A r (setExit zeroExit s)" using f by (rule frame_untouched [rotated]) (simp add: frame_simps)
      ultimately show ?thesis using frame_trans by blast
    qed (use f stmts_frame [OF "1.prems"(2)] frame_trans frame_untouched in blast)+
  qed (use "1.prems" stmts_frame in auto)
qed

lemma clampLoops_frame:
  "looped A r s \<Longrightarrow> inLoop s = inLoop r \<Longrightarrow> frame A r (clampLoops (inLoop r) s)"
  by (rule looped_frame) (auto simp: clampLoops_def noLoops_def)

lemma forIterations_looped:
  assumes "frameRun (ex_api (expr C)) run"
  shows "forIterations C run name body items r = Some r' \<Longrightarrow> looped (ex_api (expr C)) r r' \<and> inLoop r' = inLoop r"
proof (induction items arbitrary: r)
  case (Cons i items)
  show ?case
  proof (cases "ex_ctx (expr C) (world r)")
    case None
    let ?s = "setVarString (ex_api (expr C)) name i r"
    obtain b t where t: "loopStmtsBroken run body ?s = Some (b, t)"
      using Cons.prems None by (auto split: option.splits)
    have v: "frame (ex_api (expr C)) r ?s" by (simp add: setVarString_def setVar_frame)
    then have l: "looped (ex_api (expr C)) r t \<and> inLoop t = inLoop r"
      using loopStmtsBroken_looped [OF assms t] looped_trans [OF frame_looped [OF v]] by (auto simp: frame_def kept_def)
    have "r' = t \<or> forIterations C run name body items t = Some r' \<or>
        forIterations C run name body items (t\<lparr>contnEnclosing := 0\<rparr>) = Some r'"
      using Cons.prems None t by (auto split: if_splits)
    moreover have "looped (ex_api (expr C)) r s \<and> inLoop s = inLoop r" if "looped (ex_api (expr C)) t s" "inLoop s = inLoop t" for s
      using looped_trans [OF conjunct1 [OF l] that(1)] that(2) l by simp
    moreover have "looped (ex_api (expr C)) t s" if "looped (ex_api (expr C)) (t\<lparr>contnEnclosing := 0\<rparr>) s" for s
      using that by simp
    ultimately show ?thesis using l Cons.IH [of t] Cons.IH [of "t\<lparr>contnEnclosing := 0\<rparr>"] by auto
  next
    case (Some e)
    then have "untouched r r'" using Cons.prems by (auto simp: frame_simps)
    then show ?thesis using frame_looped untouched_frame by (fastforce simp: untouched_def same_def)
  qed
qed simp


lemma execFor_frame:
  assumes "frameExpander (expr C)" "frameCb (ex_api (expr C)) cb" "frameRun (ex_api (expr C)) run"
    "execFor C run cb name tok ws body r = Some r'"
  shows "frame (ex_api (expr C)) r r'"
proof -
  let ?A = "ex_api (expr C)"
  obtain items s where e: "(if tok then expandFields (expr C) cb ws r else Some (Params r, r)) = Some (items, s)"
    using assms(4) by (auto simp: execFor_def split: option.splits)
  then have f: "frame ?A r s" using expandFields_frame [OF assms(1,2)] by (auto split: if_splits)
  obtain t where t: "forIterations C run name body items s = Some t" "r' = clampLoops (inLoop t) t"
    using assms(4) e by (auto simp: execFor_def)
  have "frame ?A s r'"
    using forIterations_looped [OF assms(3) t(1)] clampLoops_frame [of ?A s t] t(2) by simp
  then show ?thesis by (rule frame_trans [OF f])
qed

lemma whileIterations_looped:
  assumes "frameRun (ex_api (expr C)) run" "looped (ex_api (expr C)) r0 r"
  shows "opost (\<lambda>(r', _, _). looped (ex_api (expr C)) r0 r') (whileIterations C run k un cond body old lst r)"
  using assms(2)
proof (induction k arbitrary: lst r)
  case (Suc k)
  let ?A = "ex_api (expr C)"
  have c: "looped ?A r0 s" if "stmts run cond r = Some s" for s
    using looped_trans [OF Suc.prems frame_looped [OF stmts_frame [OF assms(1) that]]] .
  have b: "looped ?A r0 t" if "stmts run cond r = Some s" "loopStmtsBroken run body (setExit zeroExit s) = Some (br, t)" for s br t
  proof -
    have "untouched s (setExit zeroExit s)" by (simp add: frame_simps)
    then show ?thesis using loopStmtsBroken_looped [OF assms(1) that(2)] looped_trans [OF looped_untouched [OF _ c [OF that(1)]]] by blast
  qed
  have e: "looped ?A r0 (fatalExitWith e r)" for e
    using Suc.prems by (rule looped_untouched [rotated]) (simp add: frame_simps)
  show ?case
    unfolding whileIterations.simps Let_def by (intro opost_intros Suc.IH) (auto simp: e dest: c b)
qed simp

lemma execWhile_frame:
  assumes "frameRun (ex_api (expr C)) run" "execWhileClause C run k un cond body r = Some r'"
  shows "frame (ex_api (expr C)) r r'"
proof -
  let ?A = "ex_api (expr C)"
  obtain s lst cb where s: "whileIterations C run k un cond body (inLoop r) None (r\<lparr>inLoop := True\<rparr>) = Some (s, lst, cb)"
    using assms(2) by (auto simp: execWhileClause_def split: option.splits)
  have "opost (\<lambda>(r', _, _). looped ?A r r') (whileIterations C run k un cond body (inLoop r) None (r\<lparr>inLoop := True\<rparr>))"
    by (rule whileIterations_looped [OF assms(1)]) simp
  then have l: "looped ?A r s" using s by (simp add: opost_def)
  have "\<exists>t. untouched (clampLoops (inLoop r) s) t \<and> r' = t\<lparr>inLoop := inLoop r\<rparr>"
    using assms(2) s by (auto simp: execWhileClause_def Let_def frame_simps split: option.splits intro!: exI)
  then obtain t where t: "untouched (clampLoops (inLoop r) s) t" "r' = t\<lparr>inLoop := inLoop r\<rparr>" by blast
  have "looped ?A r (clampLoops (inLoop r) s)" using l by (simp add: clampLoops_def)
  then have lt: "looped ?A r r'" using looped_untouched [OF t(1)] t(2) by simp
  have n: "noLoops r'" if "\<not> inLoop r"
    using t that by (auto simp: untouched_def same_def clampLoops_def noLoops_def)
  show ?thesis by (rule looped_frame [OF lt]) (use t(2) in simp, rule n)
qed

section \<open>Command substitution\<close>

lemma charged_frame:
  assumes "chargedOutput C i out r = (r', res)"
  shows "frame A r r'"
proof -
  obtain s e where c: "chargeSplitSubstOutput (expr C) i out r = (s, e)" by force
  then have "frame A r s"
    by (auto simp: chargeSplitSubstOutput_def Let_def frame_def kept_def noLoops_def streams_def collKey_def
        split: option.splits list.splits prod.splits if_splits)
  then show ?thesis using assms c by (auto simp: chargedOutput_def split: option.splits)
qed

lemma substResult_frame:
  assumes "substResult C i out e r = (r', res)"
  shows "frame A r r'"
proof -
  let ?r = "r\<lparr>lastExpandExit := e, lastExit := e\<rparr>"
  have "untouched r ?r" by (simp add: frame_simps)
  moreover have "untouched ?r r' \<or> chargedOutput C i out ?r = (r', res)"
    using assms by (auto simp: substResult_def Let_def frame_simps split: if_splits)
  ultimately show ?thesis using charged_frame frame_trans untouched_frame by blast
qed

lemma substExit_untouched [frame_simps]: "untouched r (substExit c s) = untouched r s"
  by (simp add: substExit_def frame_simps)

lemma catShortcut_frame:
  assumes "catShortcut C i path r = (r', res)"
  shows "frame A r r'"
proof -
  obtain s x where o: "runner_open C path O_RDONLY 0 True r = (s, x)" by force
  have u: "untouched r s" by (rule runner_open_untouched [OF o])
  have "\<exists>t. (untouched s t \<or> (\<exists>s' x out. untouched s s' \<and> chargedOutput C i out s' = (t, x))) \<and> untouched t r'"
  proof (cases x)
    case (Inl e)
    then show ?thesis using assms o by (auto simp: catShortcut_def frame_simps intro!: exI [of _ s])
  next
    case (Inr f)
    obtain w out er where rd: "readUpTo C f maxCmdSubstOutput (world s) = (w, out, er)" by (rule prod_cases3)
    let ?s = "substExit (if er = None then 0 else 1) (s\<lparr>world := w\<rparr>)"
    have s': "untouched s ?s" by (simp add: frame_simps)
    obtain t y where ch: "chargedOutput C i out ?s = (t, y)" by force
    show ?thesis
    proof (cases "(case k_fstat (sandboxKernel C) f (world s) of Inr info \<Rightarrow> fi_type info = DirType | Inl _ \<Rightarrow> False)")
      case True
      then show ?thesis using assms o Inr by (auto simp: catShortcut_def frame_simps intro!: exI [of _ s])
    next
      case False
      show ?thesis
      proof (cases er)
        case None
        have "untouched t r'" using assms o Inr rd False None ch by (simp add: catShortcut_def Let_def frame_simps) (auto simp: frame_simps)
        then show ?thesis using s' ch by blast
      next
        case (Some e)
        then have "untouched ?s r'" using assms o Inr rd False by (simp add: catShortcut_def Let_def) (auto simp: frame_simps)
        then show ?thesis using s' by blast
      qed
    qed
  qed
  then show ?thesis using charged_frame frame_trans [OF untouched_frame [OF u]] frame_trans untouched_frame by metis
qed


lemma cmdSubst_frame:
  assumes "frameExpander (expr C)" "frameRun (ex_api (expr C)) run"
  shows "frameCb (ex_api (expr C)) (cmdSubst C run n)"
proof (induction n)
  case (Suc n)
  let ?A = "ex_api (expr C)"
  have "opost (\<lambda>(r', res). frame ?A r r') (cmdSubst C run (Suc n) i sts r)" for i sts r
  proof (cases sts)
    case (Cons st rest)
    obtain r1 r2 where sb: "subshell C False r = (r1, r2)" by force
    obtain w buf where nb: "newBuffer C (world r2) = (w, buf)" by force
    have run: "frame ?A r (shareFrom (releaseVarStorage t) r1)"
      if "stmts run sts (r2\<lparr>world := w, r_stdout := buf, inLoop := inLoop r1\<rparr>) = Some t" for t
      by (rule subshell_shared [OF sb, of "r2\<lparr>world := w, r_stdout := buf, inLoop := inLoop r1\<rparr>"])
        (use stmts_frame [OF assms(2) that] in \<open>simp_all add: frame_def\<close>)
    have gen: "opost (\<lambda>(r', res). frame ?A r r') (case stmts run sts (r2\<lparr>world := w, r_stdout := buf, inLoop := inLoop r1\<rparr>) of
        None \<Rightarrow> None | Some t \<Rightarrow> Some (substResult C i (captured maxCmdSubstOutput (writesTo buf (r_written (releaseVarStorage t))))
          ((r_exit (releaseVarStorage t))\<lparr>exiting := False\<rparr>) (shareFrom (releaseVarStorage t) r1)))"
      by (intro opost_intros) (auto dest!: run intro: frame_trans substResult_frame)
    have rw: "frame ?A r s" if "redirectWord C (cmdSubst C run n) wd r = Some (s, x)" for wd s x
      using redirectWord_frame [OF assms(1) Suc.IH that] .
    have cat: "opost (\<lambda>(r', res). frame ?A r r') (case redirectWord C (cmdSubst C run n) wd r of
        None \<Rightarrow> None | Some (r, None) \<Rightarrow> Some (substExit 1 r, Inr []) | Some (r, Some path) \<Rightarrow> Some (catShortcut C i path r))" for wd
      by (intro opost_intros)
        (auto dest!: rw intro: frame_trans catShortcut_frame frame_untouched [rotated] simp: frame_simps)
    show ?thesis
      unfolding Cons cmdSubst.simps list.case Let_def sb nb prod.case
      by (intro opost_intros gen [unfolded Cons] cat) (simp_all add: untouched_frame frame_simps)
  qed simp
  then show ?case by (auto simp: frameCb_def opost_def)
qed (simp add: frameCb_def)

section \<open>Commands and statements\<close>

lemma addCounts_untouched [frame_simps]: "untouched r (addCounts q s) = untouched r s"
  by (simp add: addCounts_def frame_simps)

lemma execSubshell_frame:
  assumes "frameRun (ex_api (expr C)) run" "execSubshell C run sts r = Some r'"
  shows "frame (ex_api (expr C)) r r'"
proof -
  obtain r1 r2 where sb: "subshell C False r = (r1, r2)" by force
  obtain t where t: "stmts run sts (r2\<lparr>inPipeline := False\<rparr>) = Some t"
    "untouched (shareFrom (releaseVarStorage t) r1) r'"
    using assms(2) sb by (auto simp: execSubshell_def Let_def frame_simps split: option.splits)
  have "frame (ex_api (expr C)) r (shareFrom (releaseVarStorage t) r1)"
    by (rule subshell_shared [OF sb, of "r2\<lparr>inPipeline := False\<rparr>"])
      (use stmts_frame [OF assms(1) t(1)] in \<open>simp_all add: frame_def\<close>)
  then show ?thesis by (rule frame_untouched [OF t(2)])
qed

lemma stage_steps:
  assumes "frameRun A run" "run st s = Some t" "storeOk A s"
  shows "storeSteps A (r_heap s) (release (writeEnv t) (r_heap t)) \<and> heapInv A (release (writeEnv t) (r_heap t)) \<and>
    length (overlays (r_heap s)) \<le> length (overlays (release (writeEnv t) (r_heap t)))"
proof -
  have k: "kept A s t" using frameRunD [OF assms(1,2)] by (simp add: frame_def)
  have t: "storeOk A t" by (rule kept_storeOk [OF k assms(3)])
  have "varStep A False (r_heap t) (release (writeEnv t) (r_heap t))"
    using t by (intro varStep.vsRelease) (simp add: storeOk_def runnerOk_def)
  then have st: "storeSteps A (r_heap s) (release (writeEnv t) (r_heap t))"
    using k assms(3) by (auto simp: kept_def intro: rtranclp.rtrancl_into_rtrancl)
  then show ?thesis using storeSteps_keep [OF st] assms(3) by (simp add: storeOk_def runnerOk_def)
qed

text \<open>The two sides of a pipeline are subshells of the same shell.\<close>

lemma execPipe_frame:
  assumes "frameRun (ex_api (expr C)) run" "execPipe C run x y r = Some r'"
  shows "frame (ex_api (expr C)) r r'"
proof -
  let ?A = "ex_api (expr C)"
  obtain w pp where sp: "sysPipe C (world r) = (w, pp)" by force
  let ?r = "r\<lparr>world := w\<rparr>"
  have u: "frame ?A r ?r" by (simp add: untouched_frame frame_simps)
  show ?thesis
  proof (cases pp)
    case (Inl e)
    then have "untouched ?r r'" using assms(2) sp by (auto simp: execPipe_def frame_simps)
    then show ?thesis using frame_untouched u by blast
  next
    case (Inr p)
    obtain pr pw where p: "p = (pr, pw)" by force
    obtain r1 l1 where s1: "subshell C True ?r = (r1, l1)" by force
    obtain r2 q1 where s2: "subshell C True r1 = (r2, q1)" by force
    let ?l = "pipeStage r2 x (l1\<lparr>r_heap := r_heap r2, r_stdout := pw\<rparr>)"
    let ?q = "pipeStage r2 y (q1\<lparr>r_stdin := pr\<rparr>)"
    obtain l2 where l: "run x ?l = Some l2"
      using assms(2) sp Inr p s1 s2 by (auto simp: execPipe_def Let_def split: option.splits)
    let ?l3 = "closeFd C pw (releaseVarStorage l2)"
    obtain q2 where q: "run y (shareFrom ?l3 ?q) = Some q2"
      and r': "untouched (shareFrom (releaseVarStorage q2) r2) r'"
      using assms(2) sp Inr p s1 s2 l by (auto simp: execPipe_def Let_def frame_simps split: option.splits)
    have f2: "frame ?A r r2"
      using frame_trans [OF frame_trans [OF u subshell_parent(1) [OF s1]] subshell_parent(1) [OF s2]] .
    have "storeSteps ?A (r_heap r2) (release (writeEnv q2) (r_heap q2))" if ok: "storeOk ?A r"
    proof -
      have o0: "storeOk ?A ?r" using ok by (simp add: storeOk_def runnerOk_def)
      have o1: "storeOk ?A r1" using kept_storeOk o0 subshell_parent(1) [OF s1] by (auto simp: frame_def)
      have o2: "storeOk ?A r2" using kept_storeOk o1 subshell_parent(1) [OF s2] by (auto simp: frame_def)
      have le: "length (overlays (r_heap r1)) \<le> length (overlays (r_heap r2))"
        using subshell_parent(1) [OF s2] o1 storeSteps_keep by (fastforce simp: frame_def kept_def storeOk_def runnerOk_def)
      have "storeOk ?A l1" by (rule subshell_parent(2) [OF s1 o0])
      then have ol: "storeOk ?A ?l"
        using o2 le subshell_parent(3) [OF s1] by (simp add: storeOk_def runnerOk_def pipeStage_def)
      from stage_steps [OF assms(1) l ol]
      have sl: "storeSteps ?A (r_heap r2) (r_heap ?l3)" "heapInv ?A (r_heap ?l3)"
        "length (overlays (r_heap r2)) \<le> length (overlays (r_heap ?l3))"
        by (simp_all add: pipeStage_def closeFd_def onWorld_def releaseVarStorage_def)
      have "storeOk ?A q1" by (rule subshell_parent(2) [OF s2 o1])
      then have oq: "storeOk ?A (shareFrom ?l3 ?q)"
        using sl(2,3) subshell_parent(3) [OF s2] by (simp add: storeOk_def runnerOk_def pipeStage_def shareFrom_def)
      from stage_steps [OF assms(1) q oq] have "storeSteps ?A (r_heap ?l3) (release (writeEnv q2) (r_heap q2))"
        by (simp add: shareFrom_def)
      then show ?thesis using sl(1) by simp
    qed
    then have "frame ?A r (shareFrom (releaseVarStorage q2) r2)"
      using f2 by (auto simp: frame_def kept_def shareFrom_def releaseVarStorage_def noLoops_def streams_def collKey_def
          intro: rtranclp_trans)
    then show ?thesis by (rule frame_untouched [OF r'])
  qed
qed


lemma cmd_frame:
  assumes "frameExpander (expr C)" "frameHandlers C" "frameCb (ex_api (expr C)) cb" "frameRun (ex_api (expr C)) run"
    "cmd C run n cb cm r = Some r'"
  shows "moved (ex_api (expr C)) r r'"
proof -
  let ?A = "ex_api (expr C)"
  obtain b s where s: "stop (ex_ctx (expr C)) r = (b, s)" by force
  have u: "frame ?A r s" by (rule untouched_frame [OF stop_untouched [OF s]])
  have "moved ?A s r'"
  proof (cases b)
    case True
    then show ?thesis using assms(5) s by (simp add: cmd_def)
  next
    case False
    note run = frameRunD [OF assms(4)]
    have bin: "frame ?A s r'" if bm: "cm = BinaryCmd op x y" for op x y
    proof -
      have e: "(if op = AndStmt \<or> op = OrStmt
          then (case run x s of None \<Rightarrow> None
                | Some r \<Rightarrow> if interrupted r then Some r else if ok (r_exit r) = (op = AndStmt) then run y r else Some r)
          else if op = Pipe then execPipe C run x y s else Some s) = Some r'"
        using assms(5) s False bm by (simp add: cmd_def)
      show ?thesis
      proof (cases "op = AndStmt \<or> op = OrStmt")
        case True
        then obtain t where t: "run x s = Some t" using e by (auto split: option.splits)
        then have "r' = t \<or> run y t = Some r'" using e True by (auto split: if_splits)
        then show ?thesis using run [OF t] frame_trans [OF run [OF t] run] by blast
      next
        case no: False
        show ?thesis
        proof (cases "op = Pipe")
          case True
          then have "execPipe C run x y s = Some r'" using e by simp
          then show ?thesis by (rule execPipe_frame [OF assms(4)])
        qed (use e no in simp)
      qed
    qed
    show ?thesis
    proof (cases cm)
      case (CallExpr asgs args)
      then obtain cls where "callExpr C n cb asgs args [] [] s = Some (r', cls)" using assms(5) s False by (auto simp: cmd_def)
      then show ?thesis by (rule callExpr_moved [OF assms(1-3)])
    next
      case (BinaryCmd op x y)
      then show ?thesis using bin frame_moved by blast
    next
      case (ForClause sel loop body)
      then have "untouched s r' \<or> (\<exists>name tok ws. execFor C run cb name tok ws body s = Some r')"
        using assms(5) s False by (auto simp: cmd_def frame_simps split: option.splits)
      then show ?thesis using frame_moved [OF execFor_frame [OF assms(1,3,4)]] untouched_moved by blast
    next
      case (Subshell sts)
      then have "execSubshell C run sts s = Some r'" using assms(5) s False by (simp add: cmd_def)
      then show ?thesis by (rule frame_moved [OF execSubshell_frame [OF assms(4)]])
    next
      case (Block sts)
      then have "stmts run sts s = Some r'" using assms(5) s False by (simp add: cmd_def)
      then show ?thesis by (rule frame_moved [OF stmts_frame [OF assms(4)]])
    next
      case (IfClause ic)
      then have "execIfChain run ic s = Some r'" using assms(5) s False by (simp add: cmd_def)
      then show ?thesis by (rule frame_moved [OF execIfChain_frame [OF _ assms(4)]])
    next
      case (WhileClause un cond body)
      then have "execWhileClause C run n un cond body s = Some r'" using assms(5) s False by (simp add: cmd_def)
      then show ?thesis by (rule frame_moved [OF execWhile_frame [OF assms(4)]])
    next
      case (OtherCommand oc)
      then have "untouched s r'" using assms(5) s False by (auto simp: cmd_def frame_simps)
      then show ?thesis by (rule untouched_moved)
    qed
  qed
  then show ?thesis by (rule moved_trans [OF frame_moved [OF u]])
qed

lemma closers_untouched: "untouched r (foldr (closeFd C) cls r)"
  by (induction cls) (simp_all add: frame_simps)

lemma not_call: "(\<And>a b. c \<noteq> CallExpr a b) \<Longrightarrow> (case c of CallExpr a b \<Rightarrow> f a b | _ \<Rightarrow> y) = y"
  by (cases c) auto

lemma body_moved:
  assumes "frameExpander (expr C)" "frameHandlers C" "frameCb (ex_api (expr C)) cb" "frameRun (ex_api (expr C)) run"
  shows "opost (\<lambda>(s, _). moved (ex_api (expr C)) r s)
    (case cm of Some (CallExpr asgs args) \<Rightarrow> callExpr C n cb asgs args rds [] r
      | _ \<Rightarrow> (case applyRedirects C cb rds [] r of None \<Rightarrow> None
        | Some (r, cls) \<Rightarrow> (case (ok (r_exit r), cm) of (True, Some c) \<Rightarrow> map_option (\<lambda>r. (r, cls)) (cmd C run n cb c r)
             | _ \<Rightarrow> Some (r, cls))))"
proof -
  let ?A = "ex_api (expr C)"
  have a: "moved ?A r t" if "applyRedirects C cb rds [] r = Some (t, cls)" for t cls
    by (rule applyRedirects_moved [OF assms(1,3) that])
  have k: "opost (\<lambda>(s, _). moved ?A r s) (map_option (\<lambda>r. (r, cls)) (cmd C run n cb c t))" if "moved ?A r t" for t cls c
    by (rule opost_map) (auto simp: opost_def intro: moved_trans [OF that cmd_frame [OF assms]])
  have other: "opost (\<lambda>(s, _). moved ?A r s) (case applyRedirects C cb rds [] r of None \<Rightarrow> None
        | Some (r, cls) \<Rightarrow> (case (ok (r_exit r), cm') of (True, Some c) \<Rightarrow> map_option (\<lambda>r. (r, cls)) (cmd C run n cb c r)
             | _ \<Rightarrow> Some (r, cls)))" for cm'
  proof (cases "applyRedirects C cb rds [] r")
    case (Some p)
    obtain t cls where p: "p = (t, cls)" by force
    note m = a [OF Some [unfolded p]]
    show ?thesis unfolding Some p option.case prod.case
      by (cases "ok (r_exit t)"; cases cm') (simp_all only: bool.case option.case k [OF m] opost_Some prod.case m)
  qed simp
  show ?thesis
  proof (cases cm)
    case None
    show ?thesis unfolding None option.case by (rule other [of None, unfolded option.case])
  next
    case (Some c)
    show ?thesis
    proof (cases "\<exists>asgs args. c = CallExpr asgs args")
      case True
      then obtain asgs args where c: "c = CallExpr asgs args" by blast
      show ?thesis unfolding Some c option.case command.case opost_def
        by (auto dest: callExpr_moved [OF assms(1-3)])
    next
      case False
      show ?thesis unfolding Some option.case
        by (subst not_call) (use False in blast, rule other [of "Some c", unfolded option.case])
    qed
  qed
qed

lemma stmtSync_frame:
  assumes "frameExpander (expr C)" "frameHandlers C" "frameCb (ex_api (expr C)) cb" "frameRun (ex_api (expr C)) run"
    "stmtSync C run n cb st r = Some r'"
  shows "frame (ex_api (expr C)) r r'"
proof (cases st)
  case (Stmt cm neg bg cp ds rds)
  let ?A = "ex_api (expr C)"
  define e where "e = (case cm of Some (CallExpr asgs args) \<Rightarrow> callExpr C n cb asgs args rds [] r
      | _ \<Rightarrow> (case applyRedirects C cb rds [] r of None \<Rightarrow> None
        | Some (r, cls) \<Rightarrow> (case (ok (r_exit r), cm) of (True, Some c) \<Rightarrow> map_option (\<lambda>r. (r, cls)) (cmd C run n cb c r)
             | _ \<Rightarrow> Some (r, cls))))"
  have x: "(case e of None \<Rightarrow> None
      | Some (r', closers) \<Rightarrow>
          Some (foldr (closeFd C) closers
            ((if neg \<and> \<not> exiting (r_exit r') then setExit (oneIf (ok (r_exit r')) zeroExit) r' else r')
               \<lparr>r_stdin := r_stdin r, r_stdout := r_stdout r, r_stderr := r_stderr r\<rparr>))) = Some r'"
    using assms(5) unfolding stmtSync_def Stmt stmt.case Let_def e_def .
  then obtain s cls where s: "e = Some (s, cls)" by (auto split: option.splits)
  have m: "moved ?A r s" using body_moved [OF assms(1-4), where r = r and cm = cm and n = n and rds = rds] s unfolding e_def [symmetric] by (simp add: opost_def)
  define t where "t = (if neg \<and> \<not> exiting (r_exit s) then setExit (oneIf (ok (r_exit s)) zeroExit) s else s)"
  have "untouched s t" by (simp add: t_def frame_simps)
  then have mt: "moved ?A r t" by (rule moved_trans [OF m untouched_moved])
  have r': "r' = foldr (closeFd C) cls (t\<lparr>r_stdin := r_stdin r, r_stdout := r_stdout r, r_stderr := r_stderr r\<rparr>)"
    using x unfolding s option.case prod.case t_def [symmetric] by simp
  have "frame ?A r (t\<lparr>r_stdin := r_stdin r, r_stdout := r_stdout r, r_stderr := r_stderr r\<rparr>)"
    using mt by (auto simp: moved_def frame_def kept_def noLoops_def streams_def collKey_def)
  then show ?thesis unfolding r' by (rule frame_untouched [OF closers_untouched])
qed

lemma runStmt_frame:
  assumes "frameExpander (expr C)" "frameHandlers C"
  shows "frameRun (ex_api (expr C)) (runStmt C n)"
proof (induction n)
  case (Suc n)
  let ?A = "ex_api (expr C)"
  have "frame ?A r r'" if "runStmt C (Suc n) st r = Some r'" for st r r'
  proof -
    obtain b s where s: "stop (ex_ctx (expr C)) r = (b, s)" by force
    have u: "frame ?A r s" by (rule untouched_frame [OF stop_untouched [OF s]])
    have "r' = s \<or> (\<exists>t. stmtSync C (runStmt C n) n (cmdSubst C (runStmt C n) n) st (setExit zeroExit s) = Some t \<and> untouched t r')"
      using that s by (cases b) (auto simp: stmtWith_def frame_simps)
    moreover have "frame ?A r (setExit zeroExit s)" using u by (rule frame_untouched [rotated]) (simp add: frame_simps)
    ultimately show ?thesis
      using u frame_untouched frame_trans [OF _ stmtSync_frame [OF assms cmdSubst_frame [OF assms(1) Suc.IH] Suc.IH]] by blast
  qed
  then show ?case by (simp add: frameRun_def del: runStmt.simps)
qed (simp add: frameRun_def)

end
