(* ===== verification/Shell_Readonly.thy ===== *)
theory Shell_Readonly
  imports Shell_Exec Option_Calculus
begin

text \<open>
  Read-only mode: whatever a script does, it leaves the files alone.  \<open>F\<close> is what is observed of the
  operating system; pipes, closing and reading descriptors do not change it, and builtins without
  leave to write and the expander are to keep it.  What remains is the interpreter's own doing:
  redirections, substitutions that read a file, subshells and pipelines.
\<close>

section \<open>What does not touch the world\<close>

named_theorems world_simps

lemma world_ops [world_simps]:
  "world (errf m r) = world r" "world (Out m r) = world r" "world (setExit e r) = world r" "world (setCode c r) = world r"
  "world (fatalExitWith ge r) = world r" "world (internalErrorf m r) = world r" "world (releaseVarStorage r) = world r"
  "world (clampLoops b r) = world r" "world (substExit c r) = world r" "world (addCounts r2 r) = world r"
  "world (shareFrom r2 r) = world r2" "world (pipeStage q st r) = world r"
  by (simp_all add: errf_def Out_def setExit_def setCode_def fatalExitWith_def internalErrorf_def releaseVarStorage_def
      clampLoops_def substExit_def addCounts_def shareFrom_def pipeStage_def)

lemma world_expandErr [world_simps]: "world (expandErr e (r :: 'w shell)) = world r"
  by (simp add: expandErr_def Let_def world_simps split: expErr.split)

lemma world_setVar [world_simps]:
  "world (setVar A name vr (r :: 'w shell)) = world r" "world (setVarString A name v (r :: 'w shell)) = world r"
  by (simp_all add: setVarString_def setVar_def Let_def world_simps split: prod.split option.split envError.split)

lemma world_setVarWithIndex [world_simps]: "world (setVarWithIndex C prv name ix vr r) = world r"
  by (simp add: setVarWithIndex_def Let_def world_simps)

lemma world_installAssignments [world_simps]: "world (snd (installAssignments C vs seen rs r)) = world r"
  by (induction C vs seen rs r rule: installAssignments.induct) (simp_all add: Let_def world_simps)

lemma world_restoreVars [world_simps]: "world (restoreVars name rs r) = world r"
proof -
  have "world (foldl (\<lambda>r (env, snap). if P snap then r else r\<lparr>r_heap := restoreBinding env snap (r_heap r)\<rparr>) r rs) =
      world r" for P by (induction rs arbitrary: r) (simp_all split: prod.split)
  then show ?thesis by (simp add: restoreVars_def Let_def)
qed

lemma stop_world: "stop ctx r = (b, r') \<Longrightarrow> world r' = world r"
  by (auto simp: stop_def world_simps split: if_splits option.splits)

lemma charge_world: "chargeExpansionBytes n r = (r', e) \<Longrightarrow> world r' = world r"
  by (auto simp: chargeExpansionBytes_def Let_def split: if_splits option.splits)

lemma lookupVar_world: "lookupVar A name (r :: 'w shell) = (r', v) \<Longrightarrow> world r' = world r"
  by (auto simp: lookupVar_def Let_def world_simps split: if_splits)

lemma takeFields_world: "takeFields X fs c r = (b, c', r') \<Longrightarrow> world r' = world r"
proof (induction fs arbitrary: c r)
  case (Cons f fs)
  then show ?case
    by (auto simp: Let_def world_simps split: prod.splits bool.splits if_splits option.splits dest!: stop_world charge_world)
qed simp

lemma chargeSplit_world: "chargeSplitSubstOutput X i out r = (r', e) \<Longrightarrow> world r' = world r"
  by (auto simp: chargeSplitSubstOutput_def Let_def split: option.splits list.splits prod.splits if_splits)

lemma subshell_world: "subshell C b r = (r', r2) \<Longrightarrow> world r' = world r \<and> world r2 = world r"
  by (auto simp: subshell_def Let_def split: prod.splits)

lemmas world_dest = stop_world charge_world lookupVar_world takeFields_world chargeSplit_world subshell_world

section \<open>The contracts\<close>

definition calmRun :: "('w \<Rightarrow> 'f) \<Rightarrow> 'w runner \<Rightarrow> bool" where
  "calmRun F run \<longleftrightarrow> (\<forall>st r r'. run st r = Some r' \<longrightarrow> F (world r') = F (world r))"

definition calmCb :: "('w \<Rightarrow> 'f) \<Rightarrow> 'w substCallback \<Rightarrow> bool" where
  "calmCb F cb \<longleftrightarrow> (\<forall>i sts r r' res. cb i sts r = Some (r', res) \<longrightarrow> F (world r') = F (world r))"

definition calmAlt :: "('w \<Rightarrow> 'f) \<Rightarrow> ('w shell \<Rightarrow> ('w shell \<times> 'x) option) \<Rightarrow> bool" where
  "calmAlt F f \<longleftrightarrow> (\<forall>r r' x. f r = Some (r', x) \<longrightarrow> F (world r') = F (world r))"

definition calmExpander :: "('w \<Rightarrow> 'f) \<Rightarrow> 'w expander \<Rightarrow> bool" where
  "calmExpander F X \<longleftrightarrow> (\<forall>cb. calmCb F cb \<longrightarrow>
     (\<forall>w r r'. (\<forall>f fs e. f \<in> set (FieldsSeq X cb w) \<longrightarrow> f r = Some (r', fs, e) \<longrightarrow> F (world r') = F (world r)) \<and>
       (\<forall>res. ex_Literal X cb w r = Some (r', res) \<longrightarrow> F (world r') = F (world r)) \<and>
       (\<forall>res. ex_Document X cb w r = Some (r', res) \<longrightarrow> F (world r') = F (world r))))"

definition calmHandler :: "('w \<Rightarrow> 'f) \<Rightarrow> 'w handler \<Rightarrow> bool" where
  "calmHandler F fn \<longleftrightarrow> (\<forall>cc args r r' res. \<not> cc_canWrite cc \<longrightarrow>
     (\<forall>d m as si s s' x. cc_RunCommand cc d m as si s = Some (s', x) \<longrightarrow> F (world s') = F (world s)) \<longrightarrow>
     fn cc args r = Some (r', res) \<longrightarrow> F (world r') = F (world r))"

definition calmConfig :: "('w \<Rightarrow> 'f) \<Rightarrow> ('w, 'c) config_scheme \<Rightarrow> bool" where
  "calmConfig F C \<longleftrightarrow> calmExpander F (expr C) \<and> (\<forall>name fn. Lookup C name = Some fn \<longrightarrow> calmHandler F fn) \<and>
     (\<forall>el name f. elevate C = Some el \<longrightarrow> calmAlt F f \<longrightarrow> calmAlt F (el name f)) \<and>
     (\<forall>fd w. F (fst (k_close (sandboxKernel C) fd w)) = F w) \<and> (\<forall>w. F (fst (sysPipe C w)) = F w) \<and>
     (\<forall>fd s w. F (sysFeed C fd s w) = F w) \<and> (\<forall>w. F (fst (newBuffer C w)) = F w) \<and>
     (\<forall>fd n w. F (fst (readUpTo C fd n w)) = F w)"

lemma calm_os:
  assumes "calmConfig F C"
  shows "F (world (closeFd C fd r)) = F (world r)" "sysPipe C w = (w', x) \<Longrightarrow> F w' = F w"
    "F (world (onWorld (sysFeed C pw s) r)) = F (world r)" "newBuffer C w = (w', b) \<Longrightarrow> F w' = F w"
    "readUpTo C f n w = (w', y) \<Longrightarrow> F w' = F w"
  using assms by (auto simp: calmConfig_def closeFd_def onWorld_def dest: spec [where P = "\<lambda>w. F (fst (sysPipe C w)) = F w", of w]
      spec [where P = "\<lambda>w. F (fst (newBuffer C w)) = F w", of w]) (metis fst_conv)+

section \<open>Expansion\<close>

lemma open_rdonly: "fst (Sandbox_Open K s path cwd O_RDONLY perm w) = w"
  by (auto simp: Sandbox_Open_def O_RDONLY_def Let_def split: option.split prod.split sum.split)

lemma runner_open_rdonly: "runner_open C path O_RDONLY mode p r = (r', res) \<Longrightarrow> world r' = world r"
  using open_rdonly [of "sandboxKernel C" "sandbox C" path "r_Dir r" mode "world r"]
  by (auto simp: runner_open_def world_simps Let_def split: prod.splits sum.splits if_splits)

lemma runAlternatives_calm:
  assumes "\<forall>f\<in>set alts. calmAlt F f" "runAlternatives X alts c r = Some (b, c', r')"
  shows "F (world r') = F (world r)"
  using assms
proof (induction alts arbitrary: c r)
  case (Cons f alts)
  obtain s fs fin where f: "f (r\<lparr>activeFields := Some c\<rparr>) = Some (s, fs, fin)" using Cons.prems(2) by (auto split: option.splits)
  obtain k c1 t where t: "takeFields X fs (collectorOf c s) s = (k, c1, t)" by (cases "takeFields X fs (collectorOf c s) s") auto
  have "calmAlt F f" using Cons.prems(1) by simp
  then have "F (world s) = F (world r)" using f unfolding calmAlt_def by fastforce
  then have st: "F (world t) = F (world r)" using takeFields_world [OF t] by simp
  consider "r' = t" | e where "r' = expandErr e t" | "runAlternatives X alts c1 t = Some (b, c', r')"
    using Cons.prems(2) f t by (cases k; cases fin) auto
  then show ?case
  proof cases
    case 3
    have "F (world r') = F (world t)" by (rule Cons.IH [OF _ 3]) (use Cons.prems(1) in auto)
    then show ?thesis using st by simp
  qed (use st in \<open>simp_all add: world_simps\<close>)
qed simp

lemma add_calm:
  assumes "calmExpander F X" "calmCb F cb" "fieldCollector_add X cb ws c r = Some (b, c', r')"
  shows "F (world r') = F (world r)"
proof -
  have f: "\<forall>f\<in>set (FieldsSeq X cb w). calmAlt F f" for w
    using assms(1,2) unfolding calmExpander_def calmAlt_def by fastforce
  have w: "F (world r') = F (world r)" if h: "addWord X cb ifs w c r = Some (b, c', r')" for ifs w c r b c' r'
  proof -
    obtain k s where s: "stop (ex_ctx X) r = (k, s)" by force
    have sw: "world s = world r" by (rule stop_world [OF s])
    consider "r' = s" | e where "r' = expandErr e s" | c2 where "runAlternatives X (FieldsSeq X cb w) c2 s = Some (b, c', r')"
      using h s unfolding addWord_def by (cases k) (auto simp: Let_def split: option.splits prod.splits if_splits)
    then show ?thesis
    proof cases
      case 3
      show ?thesis using runAlternatives_calm [OF f 3] sw by simp
    qed (simp_all add: sw world_simps)
  qed
  have "F (world r') = F (world r)" if "addWords X cb ifs ws c r = Some (b, c', r')" for ifs c r b c' r'
    using that
  proof (induction ws arbitrary: c r)
    case (Cons v vs)
    obtain k c1 s where s: "addWord X cb ifs v c r = Some (k, c1, s)" using Cons.prems by (auto split: option.splits)
    then show ?case using w [OF s] Cons by (cases k) auto
  qed simp
  then show ?thesis using assms(3) by (auto simp: fieldCollector_add_def)
qed

lemma literal_calm:
  assumes "calmExpander F X" "calmCb F cb" "literalBounded X cb w l m r = Some (s, r')"
  shows "F (world r') = F (world r)"
proof -
  have "F (world t) = F (world r)" if "ex_Literal X cb w r = Some (t, x)" for t x
    using assms(1,2) that unfolding calmExpander_def by blast
  then show ?thesis using assms(3)
    by (auto simp: literalBounded_def world_simps split: option.splits prod.splits sum.splits if_splits dest!: charge_world)
qed

lemma document_calm:
  assumes "calmExpander F X" "calmCb F cb" "document X cb w r = Some (r', s)"
  shows "F (world r') = F (world r)"
proof -
  have "F (world t) = F (world r)" if "ex_Document X cb w r = Some (t, x)" for t x
    using assms(1,2) that unfolding calmExpander_def by blast
  then show ?thesis using assms(3) by (auto simp: document_def split: option.splits sum.splits)
qed

section \<open>Redirections\<close>

lemma hdocReader_calm:
  assumes C: "calmConfig F C" and cb: "calmCb F cb" and h: "hdocReader C cb rd body r = Some (r', x)"
  shows "F (world r') = F (world r)"
proof -
  have X: "calmExpander F (expr C)" using C by (simp add: calmConfig_def)
  have e: "F (world r') = F (world r)" if "hdocExpand C cb q w r = Some (r', y)" for q w r r' y
    using that document_calm [OF X cb] by (auto simp: hdocExpand_def split: if_splits)
  have f: "F (world r') = F (world r)" if "flushLines C cb q ls buf r = Some (r', y)" for q ls buf r r' y
    using that
  proof (induction ls arbitrary: buf r)
    case (Cons l ls)
    then show ?case by (auto simp: Let_def split: option.splits sum.splits if_splits dest!: e)
  qed simp
  have c: "F (world r') = F (world r)" if "hdocContent C cb rd body r = Some (r', y)" for r r' y
    using that by (auto simp: hdocContent_def split: if_splits option.splits sum.splits dest!: e f)
  show ?thesis
  proof (cases "sysPipe C (world r)")
    case (Pair w p)
    show ?thesis
    proof (cases p)
      case (Inr q)
      obtain pr pw where q: "q = (pr, pw)" by force
      have w: "F w = F (world r)" by (rule calm_os(2) [OF C Pair])
      from h obtain s y where s: "hdocContent C cb rd body (r\<lparr>world := w\<rparr>) = Some (s, y)"
        unfolding hdocReader_def Pair Inr q by (auto simp: Let_def split: option.splits)
      have sw: "F (world s) = F (world r)" using c [OF s] w by simp
      show ?thesis
      proof (cases y)
        case (Inl e)
        then show ?thesis using h s sw unfolding hdocReader_def Pair Inr q
          by (auto simp: Let_def world_simps calm_os [OF C])
      next
        case (Inr doc)
        obtain t ce where t: "chargeExpansionBytes (int (length doc)) s = (t, ce)" by force
        then have "F (world t) = F (world r)" using charge_world [OF t] sw by simp
        then show ?thesis using h s t Inr unfolding hdocReader_def Pair \<open>p = Inr q\<close> q
          by (cases ce) (auto simp: Let_def world_simps calm_os [OF C])
      qed
    qed (use h calm_os(2) [OF C Pair] in \<open>auto simp: hdocReader_def Pair\<close>)
  qed
qed

lemma redirectWord_calm:
  assumes "calmConfig F C" "calmCb F cb" "redirectWord C cb w r = Some (r', x)"
  shows "F (world r') = F (world r)"
  using assms add_calm [of F "expr C" cb] unfolding redirectWord_def calmConfig_def
  by (auto simp: world_simps split: option.splits bool.splits list.splits)

text \<open>In read-only mode no redirection opens a file for writing.\<close>

lemma redirByOp_calm:
  assumes "\<not> remediationMode C" "redirByOp C op arg put r = (r', x)" "\<And>f s. world (put f s) = world s"
  shows "world r' = world r"
  using assms
  by (auto simp: redirByOp_def refuseRedirect_def world_simps split: if_splits prod.splits sum.splits
      dest!: runner_open_rdonly)

lemma redir_calm:
  assumes C: "calmConfig F C" and m: "\<not> remediationMode C" and cb: "calmCb F cb" and h: "redir C cb rd r = Some (r', x)"
  shows "F (world r') = F (world r)"
proof (cases "r_Hdoc rd")
  case (Some body)
  then show ?thesis using h hdocReader_calm [OF C cb] by (auto simp: redir_def split: option.splits)
next
  case None
  show ?thesis
  proof (cases "r_Op rd = HdocOp \<or> r_Op rd = DashHdoc")
    case True
    then show ?thesis using h None calm_os(2) [OF C, of "world r"]
      by (auto simp: redir_def calm_os(3) [OF C] split: prod.splits sum.splits)
  next
    case False
    obtain s y where s: "redirectWord C cb (case r_Word rd of None \<Rightarrow> [] | Some w \<Rightarrow> w) r = Some (s, y)"
      using h None False by (auto simp: redir_def split: option.splits)
    have sw: "F (world s) = F (world r)" by (rule redirectWord_calm [OF C cb s])
    have "world r' = world s"
      using h None False s
      by (auto simp: redir_def refuseRedirect_def world_simps split: option.splits if_splits
          dest!: redirByOp_calm [OF m])
    then show ?thesis using sw by simp
  qed
qed

lemma applyRedirects_calm:
  assumes C: "calmConfig F C" and m: "\<not> remediationMode C" and cb: "calmCb F cb"
  shows "applyRedirects C cb rds cls r = Some (r', x) \<Longrightarrow> F (world r') = F (world r)"
proof (induction rds arbitrary: cls r)
  case (Cons rd rds)
  obtain s y where s: "redir C cb rd r = Some (s, y)" using Cons.prems by (auto split: option.splits)
  have "F (world s) = F (world r)" by (rule redir_calm [OF C m cb s])
  then show ?case using Cons s by (cases y) (auto simp: world_simps)
qed simp

section \<open>Simple commands\<close>

lemma assignVal_calm:
  assumes "calmConfig F C" "calmCb F cb" "assignVal C cb prv a r = Some (v, r')"
  shows "F (world r') = F (world r)"
  using assms literal_calm [of F "expr C" cb]
  by (cases a) (auto simp: assignVal_def assignmentLiteral_def calmConfig_def world_simps split: if_splits option.splits)

lemma bareAssigns_calm:
  assumes C: "calmConfig F C" and cb: "calmCb F cb"
  shows "bareAssigns C cb asgs r = Some r' \<Longrightarrow> F (world r') = F (world r)"
proof (induction asgs arbitrary: r)
  case (Cons a asgs)
  obtain nm ap ar ix v where a: "a = Assign nm ap ar ix v" by (cases a)
  obtain q prv where l: "lookupVar (ex_api (expr C)) nm r = (q, prv)" by force
  from Cons.prems obtain vr s where s: "assignVal C cb (prv\<lparr>vLocal := False\<rparr>) (Assign nm ap ar ix v) q = Some (vr, s)"
    unfolding a bareAssigns.simps l by (auto simp: Let_def split: option.splits)
  have "F (world s) = F (world r)" using assignVal_calm [OF C cb s] lookupVar_world [OF l] by simp
  then show ?case using Cons.prems s Cons.IH unfolding a bareAssigns.simps l
    by (auto simp: Let_def world_simps split: if_splits dest!: Cons.IH)
qed simp

lemma inlineValues_calm:
  assumes C: "calmConfig F C" and cb: "calmCb F cb"
  shows "inlineValues C cb asgs acc r = Some (vs, r') \<Longrightarrow> F (world r') = F (world r)"
proof (induction asgs arbitrary: acc r)
  case (Cons a asgs)
  obtain nm ap ar ix v where a: "a = Assign nm ap ar ix v" by (cases a)
  obtain q prv where l: "lookupVar (ex_api (expr C)) nm r = (q, prv)" by force
  from Cons.prems obtain vr s where s: "assignVal C cb prv (Assign nm ap ar ix v) q = Some (vr, s)"
    unfolding a inlineValues.simps l by (auto simp: Let_def split: option.splits)
  have "F (world s) = F (world r)" using assignVal_calm [OF C cb s] lookupVar_world [OF l] by simp
  then show ?case using Cons.prems s unfolding a inlineValues.simps l
    by (auto simp: Let_def world_simps split: if_splits dest!: Cons.IH)
qed simp

lemma callSetup_calm:
  assumes C: "calmConfig F C" and m: "\<not> remediationMode C" and cb: "calmCb F cb"
    and h: "callSetup C cb asgs ws rds c cls r = Some (x, y, r')"
  shows "F (world r') = F (world r)"
proof -
  have X: "calmExpander F (expr C)" using C by (simp add: calmConfig_def)
  obtain k c1 s where s: "fieldCollector_add (expr C) cb ws c r = Some (k, c1, s)"
    using h unfolding callSetup_def by (auto split: option.splits)
  have sw: "F (world s) = F (world r)" by (rule add_calm [OF X cb s])
  show ?thesis
  proof (cases k)
    case True
    obtain vs t where t: "inlineAssignments C cb asgs s = Some (vs, t)"
      using h s True unfolding callSetup_def by (auto split: option.splits)
    have "F (world t) = F (world s)"
      using t inlineValues_calm [OF C cb] by (fastforce simp: inlineAssignments_def Let_def split: prod.splits)
    with sw have tw: "F (world t) = F (world r)" by simp
    show ?thesis
    proof (cases "ok (r_exit t)")
      case ok: True
      obtain u cls' where u: "applyRedirects C cb rds cls t = Some (u, cls')"
        using h s True t ok unfolding callSetup_def by (auto split: option.splits)
      have "F (world u) = F (world r)" using applyRedirects_calm [OF C m cb u] tw by simp
      then show ?thesis
        using h s True t ok u world_installAssignments [of C vs "[]" "[]" u] unfolding callSetup_def
        by (auto simp: Let_def split: if_splits prod.splits)
    qed (use h s True t tw in \<open>auto simp: callSetup_def\<close>)
  qed (use h s sw in \<open>auto simp: callSetup_def\<close>)
qed

lemma handler_calm:
  assumes C: "calmConfig F C" and k: "Lookup C name = Some fn" and cc: "\<not> cc_canWrite cc" and h: "fn cc args r = Some (r', res)"
    and ch: "\<And>d m as si s s' x. cc_RunCommand cc d m as si s = Some (s', x) \<Longrightarrow> F (world s') = F (world s)"
  shows "F (world r') = F (world r)"
proof -
  have "calmHandler F fn" using C k unfolding calmConfig_def by blast
  then show ?thesis using cc ch h unfolding calmHandler_def by blast
qed

lemma runCmd_calm:
  assumes C: "calmConfig F C" and m: "\<not> remediationMode C"
  shows "runCmdWithStdin C n el inh dir name args si r = Some (r', x) \<Longrightarrow> F (world r') = F (world r)"
proof (induction n arbitrary: inh dir name args si r r' x)
  case (Suc n)
  show ?case
  proof (cases "cmdAllowed C name \<and> Lookup C name \<noteq> None \<and> \<not> (el \<and> name \<notin> set (elevatableCommands C)) \<and> remediationOnlyRefusal C name = None")
    case True
    then obtain fn where fn: "Lookup C name = Some fn" by blast
    define si' where "si' = (case si of None \<Rightarrow> inh | Some f \<Rightarrow> Some f)"
    define cc where "cc = \<lparr>cc_InLoop = False, cc_LastExitCode = 0, cc_Dir = dir,
        cc_Stdin = (case si' of None \<Rightarrow> r_stdin r | Some f \<Rightarrow> f),
        cc_topLevel = False, cc_canWrite = (remediationMode C \<and> sandbox C \<noteq> None),
        cc_RemediationMode = remediationMode C, cc_CommandAllowed = cmdAllowed C,
        cc_RunCommand = runCmdWithStdin C n el si'\<rparr>"
    have "map_option (\<lambda>(r, res). (r, Code res, None)) (fn cc args r) = Some (r', x)"
      using True fn Suc.prems unfolding runCmdWithStdin.simps Let_def si'_def [symmetric] cc_def [symmetric] by auto
    then obtain res where h: "fn cc args r = Some (r', res)" by auto
    have cw: "\<not> cc_canWrite cc" by (simp add: cc_def m)
    show ?thesis
      by (rule handler_calm [OF C fn cw h]) (use Suc.IH in \<open>auto simp: cc_def\<close>)
  next
    case False
    then show ?thesis using Suc.prems by (auto simp: Let_def world_simps split: option.splits if_splits)
  qed
qed simp

lemma dispatch_calm:
  assumes C: "calmConfig F C" and m: "\<not> remediationMode C" and k: "Lookup C name' = Some fn"
    and h: "dispatch C n el name fn args r = Some r'"
  shows "F (world r') = F (world r)"
proof -
  let ?r = "r\<lparr>dispatchedCount := dispatchedCount r + 1\<rparr>"
  have ar: "world (applyResult C res s) = world s" for res s
    by (simp add: applyResult_def Let_def world_simps split: option.split)
  have b: "F (world s') = F (world s)" if "fn (callContext C n el q) as s = Some (s', res)" for q as s s' res
    by (rule handler_calm [OF C k _ that]) (auto simp: callContext_def m dest: runCmd_calm [OF C m])
  show ?thesis
  proof (cases "if el then elevate C else None")
    case None
    then obtain s res where "fn (callContext C n el ?r) (tl args) ?r = Some (s, res)" "r' = applyResult C res s"
      using h unfolding dispatch_def Let_def by auto
    then show ?thesis using b ar by fastforce
  next
    case (Some f)
    then obtain s res e where s: "f name (fn (callContext C n el ?r) (tl args)) ?r = Some (s, res, e)"
      and r': "world r' = world s"
      using h unfolding dispatch_def Let_def by (auto simp: ar world_simps split: option.splits)
    have "elevate C = Some f" using Some by (simp split: if_splits)
    moreover have "calmAlt F (fn (callContext C n el ?r) (tl args))" using b unfolding calmAlt_def by blast
    ultimately have "calmAlt F (f name (fn (callContext C n el ?r) (tl args)))" using C unfolding calmConfig_def by simp
    then have "F (world s) = F (world ?r)" using s unfolding calmAlt_def by blast
    then show ?thesis using r' by simp
  qed
qed

lemma gates_calm: "gates C el name r = Inl r' \<Longrightarrow> world r' = world r"
  by (auto simp: gates_def Let_def world_simps split: if_splits option.splits)

lemma gates_lookup: "gates C el name r = Inr (Some fn) \<Longrightarrow> Lookup C name = Some fn"
  by (auto simp: gates_def Let_def split: if_splits option.splits)

lemma exec_calm: "world (exec C args r) = world r"
  by (simp add: exec_def noExecHandler_def Let_def world_simps split: list.split)

lemma call_calm:
  assumes C: "calmConfig F C" and m: "\<not> remediationMode C"
    and su: "\<And>r x y r'. setup r = Some (x, y, r') \<Longrightarrow> F (world r') = F (world r)"
    and h: "call C n args setup r = Some (x, r')"
  shows "F (world r') = F (world r)"
proof -
  define el where "el = (args \<noteq> [] \<and> hd args = ''sudo'')"
  define name where "name = hd (if el then tl args else args)"
  obtain b s where s: "stop (ex_ctx (expr C)) (r\<lparr>totalCount := totalCount r + 1\<rparr>) = (b, s)" by force
  define t where "t = s\<lparr>unallowedCount := unallowedCount s + (if cmdAllowed C name then 0 else 1),
                       unknownCount := unknownCount s + (if Lookup C name = None then 1 else 0)\<rparr>"
  have sw: "world s = world r" "world t = world r" using stop_world [OF s] by (simp_all add: t_def)
  show ?thesis
  proof (cases "el \<and> length args < 2 \<or> b")
    case True
    then show ?thesis using h s sw unfolding call_def Let_def el_def [symmetric]
      by (auto simp: world_simps split: if_splits)
  next
    case False
    then have h': "(case gates C el name t of Inl r \<Rightarrow> Some (None, r)
        | Inr known \<Rightarrow> (case setup t of None \<Rightarrow> None | Some (x, None, r) \<Rightarrow> Some (Some x, r)
            | Some (x, Some prepared, r) \<Rightarrow>
                (case known of Some fn \<Rightarrow> map_option (Pair (Some x)) (dispatch C n el name fn (if el then tl prepared else prepared) r)
                   | None \<Rightarrow> Some (Some x, exec C (if el then tl prepared else prepared) r)))) = Some (x, r')"
      using h s unfolding call_def Let_def el_def [symmetric] name_def [symmetric] t_def by (simp split: if_splits)
    show ?thesis
    proof (cases "gates C el name t")
      case (Inl q)
      then show ?thesis using h' gates_calm [OF Inl] sw by simp
    next
      case (Inr known)
      obtain y p u where u: "setup t = Some (y, p, u)" using h' Inr by (auto split: option.splits)
      have uw: "F (world u) = F (world r)" using su [OF u] sw by simp
      show ?thesis
      proof (cases p)
        case None
        then show ?thesis using h' Inr u uw by simp
      next
        case (Some prep)
        show ?thesis
        proof (cases known)
          case None
          then show ?thesis using h' Inr u Some uw by (auto simp: exec_calm)
        next
          case fn: (Some fn)
          obtain v where "dispatch C n el name fn (if el then tl prep else prep) u = Some v" "r' = v"
            using h' Inr u Some fn by auto
          then show ?thesis using dispatch_calm [OF C m gates_lookup [OF Inr [unfolded fn]]] uw by fastforce
        qed
      qed
    qed
  qed
qed

lemma leadWords_calm:
  assumes "calmExpander F X" "calmCb F cb"
  shows "leadWords X cb p ws c r = Some (ws', c', r') \<Longrightarrow> F (world r') = F (world r)"
proof (induction ws arbitrary: c r)
  case (Cons w ws)
  then show ?case by (auto split: if_splits option.splits dest!: add_calm [OF assms])
qed simp

lemma callExpr_calm:
  assumes C: "calmConfig F C" and m: "\<not> remediationMode C" and cb: "calmCb F cb"
    and h: "callExpr C n cb asgs args rds cls r = Some (r', cls')"
  shows "F (world r') = F (world r)"
proof -
  have X: "calmExpander F (expr C)" using C by (simp add: calmConfig_def)
  have bare: "F (world t) = F (world s)" if "bareCommand C cb asgs rds cls s = Some (t, k)" for s t k
    using that
    by (auto simp: bareCommand_def world_simps split: option.splits if_splits
        dest!: applyRedirects_calm [OF C m cb] bareAssigns_calm [OF C cb])
  obtain ws1 c1 r1 where 1: "leadWords (expr C) cb (\<lambda>fs. fs = []) args
      (newFieldCollector (MaxExpandedArgumentsPerCommand + 2)) (r\<lparr>lastExpandExit := zeroExit\<rparr>) = Some (ws1, c1, r1)"
    using h unfolding callExpr_def Let_def by (auto split: option.splits)
  obtain ws2 c2 r2 where 2: "leadWords (expr C) cb (\<lambda>fs. fs = [''sudo'']) ws1 c1 r1 = Some (ws2, c2, r2)"
    using h 1 unfolding callExpr_def Let_def by (auto split: option.splits)
  have w: "F (world r2) = F (world r)" using leadWords_calm [OF X cb 1] leadWords_calm [OF X cb 2] by simp
  have pre: "world s = world q" if "setCommandPrefixFields k c q = (b, c', s)" for k c q b c' s
    using that by (auto simp: setCommandPrefixFields_def Let_def world_simps split: if_splits)
  have hh: "(if \<not> ok (r_exit r2) then Some (r2, cls)
      else case c_fields c2 of [] \<Rightarrow> bareCommand C cb asgs rds cls r2
        | cmdName # others \<Rightarrow>
           (case setCommandPrefixFields (if cmdName = ''sudo'' \<and> others \<noteq> [] then 2 else 1) c2 r2 of
              (False, c, r) \<Rightarrow> Some (r, cls)
            | (True, c, r) \<Rightarrow>
                map_option (\<lambda>(x, r). (case x of None \<Rightarrow> (r, cls) | Some (restores, closers) \<Rightarrow> (restoreVars cmdName restores r, closers)))
                  (call C n (cmdName # others) (callSetup C cb asgs ws2 rds c cls) r))) = Some (r', cls')"
    using h unfolding callExpr_def Let_def 1 2 option.case prod.case .
  show ?thesis
  proof (cases "c_fields c2")
    case Nil
    then show ?thesis using hh bare w by (auto split: if_splits)
  next
    case (Cons cmdName others)
    obtain b c3 r3 where 3: "setCommandPrefixFields (if cmdName = ''sudo'' \<and> others \<noteq> [] then 2 else 1) c2 r2 = (b, c3, r3)"
      by (cases "setCommandPrefixFields (if cmdName = ''sudo'' \<and> others \<noteq> [] then 2 else 1) c2 r2") auto
    have w3: "F (world r3) = F (world r)" using pre [OF 3] w by simp
    show ?thesis
    proof (cases "ok (r_exit r2) \<and> b")
      case True
      then obtain x s where s: "call C n (cmdName # others) (callSetup C cb asgs ws2 rds c3 cls) r3 = Some (x, s)"
        "world r' = world s"
        using hh Cons 3 by (auto simp: world_simps split: option.splits)
      then show ?thesis using call_calm [OF C m callSetup_calm [OF C m cb] s(1)] w3 by simp
    next
      case False
      then show ?thesis using hh Cons 3 w w3 by (auto split: if_splits)
    qed
  qed
qed

section \<open>Statement lists and commands\<close>

lemma calmRunD: "calmRun F run \<Longrightarrow> run st r = Some r' \<Longrightarrow> F (world r') = F (world r)"
  by (simp add: calmRun_def)

lemma stmts_calm: "calmRun F run \<Longrightarrow> stmts run sts r = Some r' \<Longrightarrow> F (world r') = F (world r)"
proof (induction sts arbitrary: r)
  case (Cons st sts)
  then show ?case by (auto split: option.splits if_splits dest!: calmRunD)
qed simp

lemma loopStmts_calm:
  assumes "calmRun F run" "loopStmtsBroken run sts r = Some (b, r')"
  shows "F (world r') = F (world r)"
proof -
  have "loopBody run sts r = Some (b, r') \<Longrightarrow> F (world r') = F (world r)" for r b r'
  proof (induction sts arbitrary: r)
    case (Cons st sts)
    then show ?case by (auto simp: Let_def split: option.splits if_splits dest!: calmRunD [OF assms(1)])
  qed simp
  then show ?thesis using assms(2) by (fastforce simp: loopStmtsBroken_def)
qed

lemma execIfChain_calm: "calmRun F run \<Longrightarrow> execIfChain run ic r = Some r' \<Longrightarrow> F (world r') = F (world r)"
proof (induction run ic r rule: execIfChain.induct)
  case (1 run hasThen cond thn els r)
  show ?case
  proof (cases hasThen)
    case True
    then obtain s where s: "stmts run cond r = Some s" using 1(3) by (auto split: option.splits)
    have sw: "F (world s) = F (world r)" by (rule stmts_calm [OF 1(2) s])
    have h: "(if interrupted s then Some s else if ok (r_exit s) then stmts run thn s
        else case els of None \<Rightarrow> Some (setExit zeroExit s) | Some ic \<Rightarrow> execIfChain run ic (setExit zeroExit s)) = Some r'"
      using 1(3) True s by simp
    show ?thesis
    proof (cases "interrupted s \<or> ok (r_exit s)")
      case True
      then show ?thesis using h stmts_calm [OF 1(2)] sw by (auto split: if_splits)
    next
      case False
      then show ?thesis
      proof (cases els)
        case (Some ic)
        then have e: "execIfChain run ic (setExit zeroExit s) = Some r'" using h False by simp
        show ?thesis using 1(1) [OF _ s _ _ Some 1(2) e] True False sw by (simp add: world_simps)
      qed (use h False sw in \<open>auto simp: world_simps\<close>)
    qed
  qed (use 1(3) stmts_calm [OF 1(2)] in simp)
qed

lemma forIterations_calm:
  assumes "calmRun F run"
  shows "forIterations C run name body items r = Some r' \<Longrightarrow> F (world r') = F (world r)"
proof (induction items arbitrary: r)
  case (Cons i items)
  show ?case
  proof (cases "ex_ctx (expr C) (world r)")
    case None
    obtain b s where s: "loopStmtsBroken run body (setVarString (ex_api (expr C)) name i r) = Some (b, s)"
      using Cons.prems None by (auto split: option.splits)
    have "F (world s) = F (world r)" using loopStmts_calm [OF assms s] by (simp add: world_simps)
    then show ?thesis using Cons None s by (auto split: if_splits dest!: Cons.IH)
  qed (use Cons.prems in \<open>auto simp: world_simps\<close>)
qed simp

lemma whileIterations_calm:
  assumes R: "calmRun F run"
  shows "whileIterations C run k un cond body old lst r = Some (r', x) \<Longrightarrow> F (world r') = F (world r)"
proof (induction k arbitrary: lst r un old)
  case (Suc k)
  show ?case
  proof (cases "ex_ctx (expr C) (world r)")
    case None
    obtain s where s: "stmts run cond r = Some s" using Suc.prems None by (auto split: option.splits)
    have sw: "F (world s) = F (world r)" by (rule stmts_calm [OF R s])
    show ?thesis
    proof (cases "\<exists>b t. loopStmtsBroken run body (setExit zeroExit s) = Some (b, t)")
      case True
      then obtain b t where t: "loopStmtsBroken run body (setExit zeroExit s) = Some (b, t)" by blast
      have tw: "F (world t) = F (world r)" using loopStmts_calm [OF R t] sw by (simp add: world_simps)
      show ?thesis using Suc.prems None s t sw tw
        by (auto simp: Let_def split: if_splits dest!: Suc.IH)
    next
      case False
      then have n: "loopStmtsBroken run body (setExit zeroExit s) = None" by (cases "loopStmtsBroken run body (setExit zeroExit s)") auto
      show ?thesis using Suc.prems None s n sw by (auto simp: Let_def split: if_splits dest!: Suc.IH)
    qed
  qed (use Suc.prems in \<open>auto simp: world_simps\<close>)
qed simp

lemma chargedOutput_calm: "chargedOutput C i out r = (r', x) \<Longrightarrow> world r' = world r"
  by (auto simp: chargedOutput_def split: prod.splits option.splits dest!: chargeSplit_world)

lemma substResult_calm: "world (fst (substResult C i out e r)) = world r"
proof (cases "fatalExit e \<or> limitExit e")
  case False
  obtain s x where s: "chargedOutput C i out (r\<lparr>lastExpandExit := e, lastExit := e\<rparr>) = (s, x)" by force
  then show ?thesis using False chargedOutput_calm [OF s] by (simp add: substResult_def Let_def)
qed (auto simp: substResult_def Let_def)

lemma catShortcut_calm:
  assumes C: "calmConfig F C" and h: "catShortcut C i path r = (r', x)"
  shows "F (world r') = F (world r)"
proof (cases "runner_open C path O_RDONLY 0 True r")
  case (Pair s y)
  have sw: "world s = world r" by (rule runner_open_rdonly [OF Pair])
  show ?thesis
  proof (cases y)
    case (Inr f)
    obtain w out er where rd: "readUpTo C f maxCmdSubstOutput (world s) = (w, out, er)"
      by (cases "readUpTo C f maxCmdSubstOutput (world s)") auto
    have "F w = F (world r)" using calm_os(5) [OF C rd] sw by simp
    then show ?thesis
      using h sw unfolding catShortcut_def Pair Inr prod.case sum.case rd
      by (auto simp: Let_def calm_os(1) [OF C] world_simps split: if_splits option.splits prod.splits sum.splits dest!: chargedOutput_calm)
  qed (use h sw Pair in \<open>auto simp: catShortcut_def world_simps\<close>)
qed

lemma cmdSubst_calm:
  assumes C: "calmConfig F C" and R: "calmRun F run"
  shows "calmCb F (cmdSubst C run n)"
proof (induction n)
  case (Suc n)
  have "F (world r') = F (world r)" if h: "cmdSubst C run (Suc n) i sts r = Some (r', x)" for i sts r r' x
  proof (cases sts)
    case (Cons st rest)
    show ?thesis
    proof (cases "if rest = [] then catShortcutArg st else None")
      case None
      obtain q r2 where sub: "subshell C False r = (q, r2)" by force
      obtain w buf where b: "newBuffer C (world r2) = (w, buf)" by force
      obtain r3 where r3: "stmts run sts (r2\<lparr>world := w, r_stdout := buf, inLoop := inLoop q\<rparr>) = Some r3"
        using h unfolding cmdSubst.simps Cons list.case None option.case sub prod.case Let_def b
        by (cases "stmts run (st # rest) (r2\<lparr>world := w, r_stdout := buf, inLoop := inLoop q\<rparr>)") auto
      have "F w = F (world r)" using calm_os(4) [OF C b] subshell_world [OF sub] by simp
      then have w3: "F (world r3) = F (world r)" using stmts_calm [OF R r3] by simp
      have "(r', x) = substResult C i (captured maxCmdSubstOutput (writesTo buf (r_written (releaseVarStorage r3))))
          ((r_exit (releaseVarStorage r3))\<lparr>exiting := False\<rparr>) (shareFrom (releaseVarStorage r3) q)"
        using h r3 unfolding cmdSubst.simps Cons list.case None option.case sub prod.case Let_def b by simp
      then have "world r' = world (shareFrom (releaseVarStorage r3) q)" using substResult_calm by (metis fst_conv)
      then show ?thesis using w3 by (simp add: world_simps)
    next
      case (Some v)
      show ?thesis
      proof (cases "cmdAllowed C ''cat''")
        case True
        then obtain q p where q: "redirectWord C (cmdSubst C run n) v r = Some (q, p)"
          using h unfolding cmdSubst.simps Cons list.case Some option.case by (auto split: option.splits)
        have "F (world q) = F (world r)" by (rule redirectWord_calm [OF C Suc.IH q])
        then show ?thesis using h q True catShortcut_calm [OF C]
          unfolding cmdSubst.simps Cons list.case Some option.case by (cases p) (auto simp: world_simps)
      qed (use h in \<open>auto simp: Cons Some world_simps\<close>)
    qed
  qed (use h in auto)
  then show ?case by (simp add: calmCb_def del: cmdSubst.simps)
qed (simp add: calmCb_def)

lemma execSubshell_calm:
  assumes R: "calmRun F run" and h: "execSubshell C run sts r = Some r'"
  shows "F (world r') = F (world r)"
proof -
  obtain q r2 where sub: "subshell C False r = (q, r2)" by force
  obtain r3 where r3: "stmts run sts (r2\<lparr>inPipeline := False\<rparr>) = Some r3" "world r' = world r3"
    using h sub unfolding execSubshell_def Let_def by (auto simp: world_simps split: option.splits)
  then show ?thesis using stmts_calm [OF R r3(1)] subshell_world [OF sub] by simp
qed

lemma execPipe_calm:
  assumes C: "calmConfig F C" and R: "calmRun F run" and h: "execPipe C run x y r = Some r'"
  shows "F (world r') = F (world r)"
proof (cases "sysPipe C (world r)")
  case (Pair w p)
  have w: "F w = F (world r)" by (rule calm_os(2) [OF C Pair])
  show ?thesis
  proof (cases p)
    case (Inr pq)
    obtain pr pw where pq: "pq = (pr, pw)" by force
    obtain q1 rl where s1: "subshell C True (r\<lparr>world := w\<rparr>) = (q1, rl)" by force
    obtain q2 rr where s2: "subshell C True q1 = (q2, rr)" by force
    define l0 where "l0 = pipeStage q2 x (rl\<lparr>r_heap := r_heap q2, r_stdout := pw\<rparr>)"
    have l0: "F (world l0) = F (world r)" using subshell_world [OF s1] w by (simp add: l0_def world_simps)
    obtain l1 where l1: "run x l0 = Some l1"
      using h unfolding execPipe_def Pair Inr pq by (auto simp: Let_def s1 s2 l0_def split: option.splits)
    define l2 where "l2 = closeFd C pw (releaseVarStorage l1)"
    have l2: "F (world l2) = F (world r)" using calmRunD [OF R l1] l0 by (simp add: l2_def calm_os(1) [OF C] world_simps)
    define r0 where "r0 = shareFrom l2 (pipeStage q2 y (rr\<lparr>r_stdin := pr\<rparr>))"
    obtain r1 where r1: "run y r0 = Some r1"
      using h l1 unfolding execPipe_def Pair Inr pq
      by (auto simp: Let_def s1 s2 l0_def l2_def r0_def split: option.splits)
    have r1w: "F (world r1) = F (world r)" using calmRunD [OF R r1] l2 by (simp add: r0_def world_simps)
    have "F (world r') = F (world r1)"
      using h l1 [unfolded l0_def] r1 [unfolded r0_def l2_def] unfolding execPipe_def Pair Inr pq
      by (auto simp: Let_def s1 s2 world_simps calm_os(1) [OF C])
    then show ?thesis using r1w by simp
  qed (use h w Pair in \<open>auto simp: execPipe_def world_simps\<close>)
qed

lemma cmd_calm:
  assumes C: "calmConfig F C" and m: "\<not> remediationMode C" and cb: "calmCb F cb" and R: "calmRun F run"
    and h: "cmd C run n cb c r = Some r'"
  shows "F (world r') = F (world r)"
proof -
  have X: "calmExpander F (expr C)" using C by (simp add: calmConfig_def)
  obtain b s where s: "stop (ex_ctx (expr C)) r = (b, s)" by force
  have sw: "world s = world r" by (rule stop_world [OF s])
  show ?thesis
  proof (cases b)
    case True
    then show ?thesis using h s sw by (simp add: cmd_def)
  next
    case False
    then have bF: "b = False" by simp
    note h' = h [unfolded cmd_def s bF prod.case bool.case]
    have "F (world r') = F (world s)"
    proof (cases c)
      case (CallExpr asgs args)
      then show ?thesis using h' callExpr_calm [OF C m cb] by auto
    next
      case (Subshell sts)
      then show ?thesis using h' execSubshell_calm [OF R] by simp
    next
      case (Block sts)
      then show ?thesis using h' stmts_calm [OF R] by simp
    next
      case (IfClause ic)
      then show ?thesis using h' execIfChain_calm [OF R] by simp
    next
      case (ForClause sel loop body)
      show ?thesis
      proof (cases loop)
        case (Some l)
        obtain name tok items where l: "l = (name, tok, items)" by (cases l)
        have "F (world r') = F (world s)" if "execFor C run cb name tok items body s = Some r'"
          using that add_calm [OF X cb] forIterations_calm [OF R]
          by (fastforce simp: execFor_def expandFields_def world_simps split: if_splits option.splits)
        then show ?thesis using h' ForClause Some l by simp
      qed (use h' ForClause in \<open>auto simp: world_simps\<close>)
    next
      case (WhileClause un cond body)
      then have "execWhileClause C run n un cond body s = Some r'" using h' by simp
      then obtain t lb cbk where t: "whileIterations C run n un cond body (inLoop s) None (s\<lparr>inLoop := True\<rparr>) = Some (t, lb, cbk)"
        and r': "world r' = world t"
        unfolding execWhileClause_def by (auto simp: Let_def world_simps split: option.splits)
      then show ?thesis using whileIterations_calm [OF R t] by simp
    next
      case (BinaryCmd op x y)
      then show ?thesis using h' execPipe_calm [OF C R]
        by (auto split: if_splits option.splits dest!: calmRunD [OF R])
    next
      case (OtherCommand oc)
      then show ?thesis using h' by (auto simp: world_simps)
    qed
    then show ?thesis using sw by simp
  qed
qed

lemma closers_calm: "calmConfig F C \<Longrightarrow> F (world (foldr (closeFd C) cls r)) = F (world r)"
  by (induction cls) (simp_all add: calm_os(1))

lemma stmtSync_calm:
  assumes C: "calmConfig F C" and m: "\<not> remediationMode C" and cb: "calmCb F cb" and R: "calmRun F run"
    and h: "stmtSync C run n cb st r = Some r'"
  shows "F (world r') = F (world r)"
proof (cases st)
  case (Stmt cm neg bg cp ds rds)
  define e where "e = (case cm of Some (CallExpr asgs args) \<Rightarrow> callExpr C n cb asgs args rds [] r
      | _ \<Rightarrow> (case applyRedirects C cb rds [] r of None \<Rightarrow> None
        | Some (r, cls) \<Rightarrow> (case (ok (r_exit r), cm) of (True, Some c) \<Rightarrow> map_option (\<lambda>r. (r, cls)) (cmd C run n cb c r)
             | _ \<Rightarrow> Some (r, cls))))"
  have x: "(case e of None \<Rightarrow> None
      | Some (r', closers) \<Rightarrow>
          Some (foldr (closeFd C) closers
            ((if neg \<and> \<not> exiting (r_exit r') then setExit (oneIf (ok (r_exit r')) zeroExit) r' else r')
               \<lparr>r_stdin := r_stdin r, r_stdout := r_stdout r, r_stderr := r_stderr r\<rparr>))) = Some r'"
    using h unfolding stmtSync_def Stmt stmt.case Let_def e_def .
  then obtain s cls where s: "e = Some (s, cls)" by (auto split: option.splits)
  have other: "F (world s) = F (world r)"
    if "(case applyRedirects C cb rds [] r of None \<Rightarrow> None
        | Some (r, cls) \<Rightarrow> (case (ok (r_exit r), cm) of (True, Some c) \<Rightarrow> map_option (\<lambda>r. (r, cls)) (cmd C run n cb c r)
             | _ \<Rightarrow> Some (r, cls))) = Some (s, cls)"
  proof (cases "applyRedirects C cb rds [] r")
    case (Some a)
    obtain q k where a: "a = (q, k)" by force
    have q: "F (world q) = F (world r)" by (rule applyRedirects_calm [OF C m cb Some [unfolded a]])
    show ?thesis
      using that q unfolding Some a option.case prod.case
      by (cases "ok (r_exit q)"; cases cm) (auto dest!: cmd_calm [OF C m cb R])
  qed (use that in simp)
  have "F (world s) = F (world r)"
  proof (cases "\<exists>asgs args. cm = Some (CallExpr asgs args)")
    case True
    then show ?thesis using s callExpr_calm [OF C m cb] unfolding e_def by auto
  next
    case False
    show ?thesis
    proof (rule other)
      show "(case applyRedirects C cb rds [] r of None \<Rightarrow> None
        | Some (r, cls) \<Rightarrow> (case (ok (r_exit r), cm) of (True, Some c) \<Rightarrow> map_option (\<lambda>r. (r, cls)) (cmd C run n cb c r)
             | _ \<Rightarrow> Some (r, cls))) = Some (s, cls)"
      proof (cases cm)
        case (Some c)
        show ?thesis using s False unfolding e_def Some by (cases c) (simp_all only: option.case command.case, blast)
      qed (use s in \<open>simp add: e_def\<close>)
    qed
  qed
  then show ?thesis using x unfolding s option.case prod.case by (auto simp: closers_calm [OF C] world_simps)
qed

lemma runStmt_calm:
  assumes C: "calmConfig F C" and m: "\<not> remediationMode C"
  shows "calmRun F (runStmt C n)"
proof (induction n)
  case (Suc n)
  have "F (world r') = F (world r)" if h: "runStmt C (Suc n) st r = Some r'" for st r r'
  proof -
    obtain b s where s: "stop (ex_ctx (expr C)) r = (b, s)" by force
    have sw: "world s = world r" by (rule stop_world [OF s])
    show ?thesis
    proof (cases b)
      case True
      then show ?thesis using h s sw by (simp add: stmtWith_def)
    next
      case False
      then obtain t where t: "stmtSync C (runStmt C n) n (cmdSubst C (runStmt C n) n) st (setExit zeroExit s) = Some t"
        "world r' = world t" using h s by (auto simp: stmtWith_def)
      then show ?thesis using stmtSync_calm [OF C m cmdSubst_calm [OF C Suc.IH] Suc.IH t(1)] sw by (simp add: world_simps)
    qed
  qed
  then show ?case by (simp add: calmRun_def del: runStmt.simps)
qed (simp add: calmRun_def)

end
