(* ===== verification/Builtins_Basic.thy ===== *)
theory Builtins_Basic
  imports Shell_Fuel Shell_Invariant Shell_Readonly
begin

text \<open>
  Builtins that need nothing but their arguments: \<^verbatim>\<open>true\<close>, \<^verbatim>\<open>false\<close>, \<^verbatim>\<open>exit\<close>, \<^verbatim>\<open>break\<close>, \<^verbatim>\<open>continue\<close> and
  \<^verbatim>\<open>echo\<close> (\<^verbatim>\<open>builtins/true\<close>, \<open>\<dots>\<close>, \<^verbatim>\<open>builtins/internal/loopctl\<close>, \<^verbatim>\<open>builtins/echo\<close>).  They satisfy the contracts
  the interpreter's theorems ask of a registry.
\<close>

section \<open>Numbers\<close>

text \<open>\<^verbatim>\<open>strconv.Atoi\<close> on a 64-bit platform: an optional sign and decimal digits, in range.\<close>

definition digitVal :: "char \<Rightarrow> nat option" where
  "digitVal c = (if 48 \<le> (of_char c :: nat) \<and> (of_char c :: nat) \<le> 57 then Some (of_char c - 48) else None)"

fun digits :: "nat \<Rightarrow> bytes \<Rightarrow> nat option" where
  "digits acc [] = Some acc"
| "digits acc (c # s) = (case digitVal c of None \<Rightarrow> None | Some d \<Rightarrow> digits (10 * acc + d) s)"

definition Atoi :: "bytes \<Rightarrow> int option" where
  "Atoi s =
     (let neg = (s \<noteq> [] \<and> hd s = CHR ''-'');
          body = (if s \<noteq> [] \<and> (hd s = CHR ''-'' \<or> hd s = CHR ''+'') then tl s else s)
      in if body = [] then None
         else (case digits 0 body of
                 None \<Rightarrow> None
               | Some n \<Rightarrow>
                   (let v = (if neg then - int n else int n)
                    in if - (2 ^ 63) \<le> v \<and> v < 2 ^ 63 then Some v else None)))"

section \<open>Exit status and loop control\<close>

definition true_run :: "'w handler" where
  "true_run cc args r = Some (r, zeroResult)"

definition false_run :: "'w handler" where
  "false_run cc args r = Some (r, zeroResult\<lparr>Code := 1\<rparr>)"

definition exit_helpText :: bytes where
  "exit_helpText = ''exit: exit [n]'' @ [chNL] @ ''    Exit the shell.'' @ [chNL] @ ''    '' @ [chNL] @
     ''    Exits the shell with a status of N.  If N is omitted, the exit status'' @ [chNL] @
     ''    is that of the last command executed.''"

definition exit_run :: "'w handler" where
  "exit_run cc args r =
     (if args \<noteq> [] \<and> hd args = ''--help'' then Some (Out (exit_helpText @ [chNL]) r, zeroResult\<lparr>Code := 2\<rparr>)
      else
        (let args = (if args \<noteq> [] \<and> hd args = ''--'' then tl args else args) in
         case args of
           [] \<Rightarrow> Some (r, zeroResult\<lparr>Code := cc_LastExitCode cc, Exiting := True\<rparr>)
         | [a] \<Rightarrow>
             (case Atoi a of
                None \<Rightarrow> Some (errf (a @ '': numeric argument required'' @ [chNL]) r, zeroResult\<lparr>Code := 2, Exiting := True\<rparr>)
              | Some n \<Rightarrow> Some (r, zeroResult\<lparr>Code := word_of_int n, Exiting := True\<rparr>))
         | _ \<Rightarrow> Some (errf (''too many arguments'' @ [chNL]) r, zeroResult\<lparr>Code := 1, Exiting := True\<rparr>)))"

definition unwindAllLoops :: int where "unwindAllLoops = 2 ^ 30"

definition LoopControl :: "'w CallContext \<Rightarrow> bytes \<Rightarrow> bytes list \<Rightarrow> 'w shell \<Rightarrow> 'w shell \<times> Result" where
  "LoopControl cc name args r =
     (let leave = (\<lambda>n. if name = ''break'' then zeroResult\<lparr>BreakN := n\<rparr> else zeroResult\<lparr>ContinueN := n\<rparr>) in
      if \<not> cc_InLoop cc then (errf (name @ '' is only useful in a loop'' @ [chNL]) r, zeroResult)
      else (case args of
              [] \<Rightarrow> (r, leave 1)
            | [a] \<Rightarrow>
                (case Atoi a of
                   None \<Rightarrow> (errf (name @ '': '' @ a @ '': numeric argument required'' @ [chNL]) r,
                             zeroResult\<lparr>Code := 128, Exiting := True\<rparr>)
                 | Some n \<Rightarrow>
                     if n < 1 then (errf (name @ '': '' @ a @ '': loop count out of range'' @ [chNL]) r,
                                    zeroResult\<lparr>Code := 1, BreakN := unwindAllLoops\<rparr>)
                     else (r, leave n))
            | _ \<Rightarrow> (errf (name @ '': too many arguments'' @ [chNL]) r, zeroResult\<lparr>Code := 1, Exiting := True\<rparr>)))"

definition break_helpText :: bytes where
  "break_helpText = ''break: break [n]'' @ [chNL] @ ''    Exit for, while, or until loops.'' @ [chNL] @ ''    '' @ [chNL] @
     ''    Exit a FOR, WHILE or UNTIL loop.  If N is specified, break N enclosing'' @ [chNL] @ ''    loops.'' @ [chNL] @
     ''    '' @ [chNL] @ ''    Exit Status:'' @ [chNL] @
     ''    The exit status is 0 unless N is not greater than or equal to 1.''"

definition continue_helpText :: bytes where
  "continue_helpText = ''continue: continue [n]'' @ [chNL] @ ''    Resume for, while, or until loops.'' @ [chNL] @
     ''    '' @ [chNL] @ ''    Resumes the next iteration of the enclosing FOR, WHILE or UNTIL loop.'' @ [chNL] @
     ''    If N is specified, resumes the Nth enclosing loop.'' @ [chNL] @ ''    '' @ [chNL] @
     ''    Exit Status:'' @ [chNL] @ ''    The exit status is 0 unless N is not greater than or equal to 1.''"

definition break_run :: "'w handler" where
  "break_run cc args r =
     (if args \<noteq> [] \<and> hd args = ''--help'' then Some (Out (break_helpText @ [chNL]) r, zeroResult\<lparr>Code := 2\<rparr>)
      else Some (LoopControl cc ''break'' args r))"

definition continue_run :: "'w handler" where
  "continue_run cc args r =
     (if args \<noteq> [] \<and> hd args = ''--help'' then Some (Out (continue_helpText @ [chNL]) r, zeroResult\<lparr>Code := 2\<rparr>)
      else Some (LoopControl cc ''continue'' args r))"

section \<open>Echo\<close>

definition isEchoFlag :: "bytes \<Rightarrow> bool" where
  "isEchoFlag arg \<longleftrightarrow>
     \<not> (length arg < 2 \<or> hd arg \<noteq> CHR ''-'') \<and> (\<forall>c \<in> set (tl arg). c \<in> {CHR ''n'', CHR ''e'', CHR ''E''})"

fun parseOctal :: "nat \<Rightarrow> nat \<Rightarrow> bytes \<Rightarrow> nat \<times> nat" where
  "parseOctal val maxDigits [] = (val, 0)"
| "parseOctal val 0 s = (val, 0)"
| "parseOctal val (Suc k) (c # s) =
     (if 48 \<le> (of_char c :: nat) \<and> (of_char c :: nat) \<le> 55
      then (let (v, n) = parseOctal (val * 8 + (of_char c - 48)) k s in (v, Suc n))
      else (val, 0))"

definition hexVal :: "char \<Rightarrow> nat option" where
  "hexVal c =
     (let b = of_char c :: nat in
      if 48 \<le> b \<and> b \<le> 57 then Some (b - 48)
      else if 97 \<le> b \<and> b \<le> 102 then Some (b - 97 + 10)
      else if 65 \<le> b \<and> b \<le> 70 then Some (b - 65 + 10)
      else None)"

fun parseHex :: "nat \<Rightarrow> nat \<Rightarrow> bytes \<Rightarrow> nat \<times> nat" where
  "parseHex val maxDigits [] = (val, 0)"
| "parseHex val 0 s = (val, 0)"
| "parseHex val (Suc k) (c # s) =
     (case hexVal c of
        None \<Rightarrow> (val, 0)
      | Some d \<Rightarrow> (let (v, n) = parseHex (val * 16 + d) k s in (v, Suc n)))"

text \<open>\<^verbatim>\<open>strings.Builder.WriteRune\<close>: the UTF-8 encoding, the replacement character for surrogates.\<close>

definition encodeRune :: "nat \<Rightarrow> bytes" where
  "encodeRune v =
     (if v < 0x80 then [char_of v]
      else if v < 0x800 then [char_of (0xC0 + v div 64), char_of (0x80 + v mod 64)]
      else
        (let v = (if (0xD800 \<le> v \<and> v \<le> 0xDFFF) \<or> v > 0x10FFFF then runeError else v) in
         if v < 0x10000 then [char_of (0xE0 + v div 4096), char_of (0x80 + v div 64 mod 64), char_of (0x80 + v mod 64)]
         else [char_of (0xF0 + v div 262144), char_of (0x80 + v div 4096 mod 64),
               char_of (0x80 + v div 64 mod 64), char_of (0x80 + v mod 64)]))"

definition writeUnicodeCodepoint :: "nat \<Rightarrow> bytes" where
  "writeUnicodeCodepoint val = (if val > 0x10FFFF then [] else encodeRune val)"

text \<open>The single-character escapes; \<open>\\c\<close> and the numeric ones are treated below.\<close>

definition simpleEscape :: "char \<Rightarrow> bytes" where
  "simpleEscape c =
     (if c = chBS then [chBS]
      else if c = CHR ''a'' then [CHR 0x07]
      else if c = CHR ''b'' then [CHR 0x08]
      else if c = CHR ''e'' \<or> c = CHR ''E'' then [CHR 0x1B]
      else if c = CHR ''f'' then [CHR 0x0C]
      else if c = CHR ''n'' then [chNL]
      else if c = CHR ''r'' then [chCR]
      else if c = CHR ''t'' then [chTAB]
      else if c = CHR ''v'' then [CHR 0x0B]
      else [chBS, c])"

definition emit :: "bytes \<Rightarrow> bytes \<times> bool \<Rightarrow> bytes \<times> bool" where
  "emit out res = (out @ fst res, snd res)"

function (sequential) processEscapes :: "bytes \<Rightarrow> bytes \<times> bool" where
  "processEscapes [] = ([], False)"
| "processEscapes [c] = ([c], False)"
| "processEscapes (c # d # s) =
     (if c \<noteq> chBS then emit [c] (processEscapes (d # s))
      else if d = CHR ''c'' then ([], True)
      else if d = CHR ''0'' then
        (let (val, consumed) = parseOctal 0 3 s in emit [char_of val] (processEscapes (drop consumed s)))
      else if d = CHR ''x'' \<or> d = CHR ''u'' \<or> d = CHR ''U'' then
        (let (val, consumed) = parseHex 0 (if d = CHR ''x'' then 2 else if d = CHR ''u'' then 4 else 8) s in
         if consumed = 0 then emit [chBS, d] (processEscapes s)
         else emit (if d = CHR ''x'' then [char_of val] else writeUnicodeCodepoint val) (processEscapes (drop consumed s)))
      else emit (simpleEscape d) (processEscapes s))"
  by pat_completeness auto
termination by (relation "measure length") auto

text \<open>The flags at the front: no newline, escapes, and the arguments after them.\<close>

fun echoFlags :: "bool \<times> bool \<Rightarrow> bytes list \<Rightarrow> bool \<times> bool \<times> bytes list" where
  "echoFlags (noNewline, esc) [] = (noNewline, esc, [])"
| "echoFlags (noNewline, esc) (arg # args) =
     (if \<not> isEchoFlag arg then (noNewline, esc, arg # args)
      else echoFlags
             (foldl (\<lambda>(n, e) ch. if ch = CHR ''n'' then (True, e) else if ch = CHR ''e'' then (n, True)
                                 else if ch = CHR ''E'' then (n, False) else (n, e)) (noNewline, esc) (tl arg))
             args)"

fun echoText :: "bool \<Rightarrow> bool \<Rightarrow> bytes list \<Rightarrow> 'w shell \<Rightarrow> 'w shell \<times> bool" where
  "echoText first esc [] r = (r, False)"
| "echoText first esc (arg # args) r =
     (let r = (if first then r else Out '' '' r) in
      if esc then
        (let (s, halt) = processEscapes arg; r = Out s r in if halt then (r, True) else echoText False esc args r)
      else echoText False esc args (Out arg r))"

definition echo_run :: "'w handler" where
  "echo_run cc args r =
     (let (noNewline, esc, textArgs) = echoFlags (False, False) args;
          (r, halt) = echoText True esc textArgs r
      in Some (if halt \<or> noNewline then r else Out [chNL] r, zeroResult))"


section \<open>The contracts\<close>

lemma Out_untouched: "untouched r (Out m s) = untouched r s"
  by (simp add: frame_simps)

lemma echoText_untouched: "untouched q r \<Longrightarrow> untouched q (fst (echoText first esc args r))"
  by (induction first esc args r rule: echoText.induct) (auto simp: Let_def frame_simps split: prod.split)

lemma echo_untouched: "echo_run cc args r = Some (r', res) \<Longrightarrow> untouched r r' \<and> res = zeroResult"
  using echoText_untouched [of r r] by (auto simp: echo_run_def Let_def frame_simps split: prod.splits if_splits) (metis fst_conv)+

lemma LoopControl_untouched: "untouched r (fst (LoopControl cc name args r))"
  by (auto simp: LoopControl_def Let_def frame_simps split: list.split option.split)

definition basicBuiltins :: "(bytes \<times> 'w handler) list" where
  "basicBuiltins = [(''true'', true_run), (''false'', false_run), (''exit'', exit_run), (''break'', break_run),
     (''continue'', continue_run), (''echo'', echo_run)]"

text \<open>They change the shell's output only, and ask to leave a loop only from inside one.\<close>

lemma basic_frame:
  assumes "(name, fn) \<in> set basicBuiltins"
  shows "frameHandler A fn"
proof -
  have "untouched r r' \<and> (\<not> cc_InLoop cc \<longrightarrow> BreakN res \<le> 0 \<and> ContinueN res \<le> 0)"
    if "fn cc args r = Some (r', res)" for cc args r r' res
  proof -
    have lc: "untouched r (fst (LoopControl cc nm args r)) \<and>
        (\<not> cc_InLoop cc \<longrightarrow> snd (LoopControl cc nm args r) = zeroResult)" for nm
      by (simp add: LoopControl_untouched) (simp add: LoopControl_def Let_def)
    have ex: "fn = exit_run \<Longrightarrow> untouched r r' \<and> BreakN res = 0 \<and> ContinueN res = 0"
      using that by (auto simp: exit_run_def zeroResult_def Let_def frame_simps split: if_splits list.splits option.splits)
    have ec: "fn = echo_run \<Longrightarrow> untouched r r' \<and> res = zeroResult" using that echo_untouched by blast
    have br: "fn = break_run \<or> fn = continue_run \<Longrightarrow> untouched r r' \<and> (\<not> cc_InLoop cc \<longrightarrow> BreakN res = 0 \<and> ContinueN res = 0)"
      using that lc [of "''break''"] lc [of "''continue''"]
      by (auto simp: break_run_def continue_run_def zeroResult_def frame_simps split: if_splits prod.splits)
    have tf: "fn = true_run \<or> fn = false_run \<Longrightarrow> untouched r r' \<and> BreakN res = 0 \<and> ContinueN res = 0"
      using that by (auto simp: true_run_def false_run_def zeroResult_def)
    have "fn = true_run \<or> fn = false_run \<or> fn = exit_run \<or> fn = break_run \<or> fn = continue_run \<or> fn = echo_run"
      using assms by (auto simp: basicBuiltins_def)
    then show ?thesis using ex ec br tf by (fastforce simp: zeroResult_def)
  qed
  then show ?thesis unfolding frameHandler_def using untouched_frame by blast
qed

lemma basic_total: "(name, fn) \<in> set basicBuiltins \<Longrightarrow> fn cc args r \<noteq> None"
  by (auto simp: basicBuiltins_def true_run_def false_run_def exit_run_def break_run_def continue_run_def echo_run_def
      Let_def split: list.split option.split prod.split)

lemma basic_no_child: "(name, fn) \<in> set basicBuiltins \<Longrightarrow> fn (cc\<lparr>cc_RunCommand := rc\<rparr>) args r = fn cc args r"
  by (auto simp: basicBuiltins_def true_run_def false_run_def exit_run_def break_run_def continue_run_def echo_run_def
      LoopControl_def Let_def split: list.split option.split prod.split)

text \<open>They do not act on the operating system.\<close>

lemma echoText_world: "world (fst (echoText first esc args r)) = world r"
  by (induction first esc args r rule: echoText.induct) (auto simp: Let_def world_simps split: prod.split)

lemma basic_world:
  assumes "(name, fn) \<in> set basicBuiltins" "fn cc args r = Some (r', res)"
  shows "world r' = world r"
proof -
  have lc: "world r' = world r" if "LoopControl cc nm args r = (r', res)" for nm
    using that by (auto simp: LoopControl_def Let_def world_simps split: list.splits option.splits if_splits)
  have ec: "world r' = world r" if "fn = echo_run"
  proof -
    obtain nn esc ts where e: "echoFlags (False, False) args = (nn, esc, ts)" by (cases "echoFlags (False, False) args") auto
    obtain s h where s: "echoText True esc ts r = (s, h)" by force
    then have "world s = world r" using echoText_world [of True esc ts r] by simp
    then show ?thesis using assms(2) that e s by (auto simp: echo_run_def world_simps split: if_splits)
  qed
  have ex: "fn = exit_run \<Longrightarrow> world r' = world r"
    using assms(2) by (auto simp: exit_run_def Let_def world_simps split: if_splits list.splits option.splits)
  show ?thesis
    using assms ec ex lc by (auto simp: basicBuiltins_def true_run_def false_run_def break_run_def continue_run_def world_simps split: if_splits)
qed

end
