(* ===== verification/Tilde.thy ===== *)
theory Tilde
  imports Shell_Syntax Nesting_Depth
begin

text \<open>
  The tilde analysis of \<^verbatim>\<open>interp/validate.go\<close>, which keeps an unquoted tilde from reaching the
  start of a field through brace expansion, and its correctness against a reference expansion.
\<close>

datatype vError = VMsg bytes | VContext | VNesting scanError

section \<open>Tilde analysis\<close>

definition maxBraceTildeDepth :: nat where "maxBraceTildeDepth = 64"

definition charSequenceMayYieldTilde :: "syntaxApi \<Rightarrow> syn_word list \<Rightarrow> bool" where
  "charSequenceMayYieldTilde S elems =
     (if length elems < 2 then False
      else
        (let fr = WordLit S (elems ! 0); to = WordLit S (elems ! 1) in
         if fr = [] \<or> to = [] then False
         else
           (let lo = of_char (hd fr) :: nat; hi = of_char (hd to) :: nat;
                lohi = (if lo > hi then (hi, lo) else (lo, hi))
            in fst lohi \<le> of_char (CHR ''~'') \<and> of_char (CHR ''~'') \<le> snd lohi)))"

text \<open>The context is asked at every 1024th step.\<close>

definition ctxPoll :: "(nat \<Rightarrow> bool) \<Rightarrow> nat \<Rightarrow> bool" where
  "ctxPoll ctx steps \<longleftrightarrow> steps mod 1024 = 0 \<and> ctx steps"

text \<open>The walk of the analyzer: the step count after it, whether the context ended it, whether a
  field may start with a tilde, and whether the parts may expand to nothing.\<close>

fun tildeParts :: "syntaxApi \<Rightarrow> (nat \<Rightarrow> bool) \<Rightarrow> syn_word \<Rightarrow> nat \<Rightarrow> nat \<times> bool \<times> bool \<times> bool"
  and tildeElems :: "syntaxApi \<Rightarrow> (nat \<Rightarrow> bool) \<Rightarrow> syn_word list \<Rightarrow> nat \<Rightarrow> bool \<Rightarrow> nat \<times> bool \<times> bool \<times> bool" where
  "tildeParts S ctx [] steps = (steps, False, False, True)"
| "tildeParts S ctx (part # parts) steps =
     (let steps = steps + 1 in
      if ctxPoll ctx steps then (steps, True, False, False)
      else (case part of
              Lit v \<Rightarrow> if v = [] then tildeParts S ctx parts steps
                       else (steps, False, hasPrefix v ''~'', False)
            | BraceExp sequence elems \<Rightarrow>
                if sequence then (steps, False, charSequenceMayYieldTilde S elems, False)
                else (case tildeElems S ctx elems steps False of
                        (steps, er, tilde, elemMayBeEmpty) \<Rightarrow>
                          if tilde \<or> er then (steps, er, tilde, False)
                          else if \<not> elemMayBeEmpty then (steps, False, False, False)
                          else tildeParts S ctx parts steps)
            | _ \<Rightarrow> (steps, False, False, False)))"
| "tildeElems S ctx [] steps elemMayBeEmpty = (steps, False, False, elemMayBeEmpty)"
| "tildeElems S ctx (elem # elems) steps elemMayBeEmpty =
     (case tildeParts S ctx elem steps of
        (steps, er, tilde, mayBeEmpty) \<Rightarrow>
          if tilde \<or> er then (steps, er, tilde, False)
          else tildeElems S ctx elems steps (elemMayBeEmpty \<or> mayBeEmpty))"

text \<open>The scan of the unquoted literals: the escape skips a byte.\<close>

fun scanLit :: "bytes \<Rightarrow> bool \<times> nat \<times> nat \<Rightarrow> bool \<times> nat \<times> nat" where
  "scanLit [] st = st"
| "scanLit (c # cs) (hasTilde, dep, maxDep) =
     (if c = CHR 0x5C then (case cs of [] \<Rightarrow> (hasTilde, dep, maxDep) | _ # cs' \<Rightarrow> scanLit cs' (hasTilde, dep, maxDep))
      else if c = CHR ''~'' then scanLit cs (True, dep, maxDep)
      else if c = CHR ''{'' then scanLit cs (hasTilde, dep + 1, max maxDep (dep + 1))
      else if c = CHR ''}'' then scanLit cs (hasTilde, dep - 1, maxDep)
      else scanLit cs (hasTilde, dep, maxDep))"

definition scanParts :: "syn_word \<Rightarrow> bool \<times> nat \<times> nat" where
  "scanParts w = foldl (\<lambda>st part. case part of Lit v \<Rightarrow> scanLit v st | _ \<Rightarrow> st) (False, 0, 0) w"

definition errTildeNotSupported :: vError where
  "errTildeNotSupported = VMsg ''tilde expansion is not supported''"

definition validateWordTilde :: "syntaxApi \<Rightarrow> (nat \<Rightarrow> bool) \<Rightarrow> syn_word \<Rightarrow> bool \<Rightarrow> vError option" where
  "validateWordTilde S ctx w literal =
     (if w = [] then None
      else if (case hd w of Lit v \<Rightarrow> hasPrefix v ''~'' | _ \<Rightarrow> False) then Some errTildeNotSupported
      else if literal then None
      else
        (let (hasTilde, _, maxDepth) = scanParts w in
         if \<not> hasTilde then None
         else if maxDepth > maxBraceTildeDepth
         then Some (VMsg (''tilde expansion is not supported (brace nesting exceeds '' @ itoa (int maxBraceTildeDepth) @ '')''))
         else
           (let (split, braces) = SplitBraces S w in
            if \<not> braces then None
            else
              (let (_, er, mayStartWithTilde, _) = tildeParts S ctx split 0 in
               if er then Some VContext
               else if mayStartWithTilde then Some errTildeNotSupported
               else None))))"

section \<open>Tildes and braces\<close>

text \<open>The reference: brace expansion replaces each brace by each of its alternatives.  \<open>items\<close> is
  what a sequence brace expands to.\<close>

fun expansions :: "(syn_word list \<Rightarrow> bytes set) \<Rightarrow> syn_word \<Rightarrow> syn_word set"
  and alternatives :: "(syn_word list \<Rightarrow> bytes set) \<Rightarrow> syn_word list \<Rightarrow> syn_word set" where
  "expansions items [] = {[]}"
| "expansions items (BraceExp sequence elems # parts) =
     (if sequence then {Lit v # r | v r. v \<in> items elems \<and> r \<in> expansions items parts}
      else {e @ r | e r. e \<in> alternatives items elems \<and> r \<in> expansions items parts})"
| "expansions items (part # parts) = (#) part ` expansions items parts"
| "alternatives items [] = {}"
| "alternatives items (elem # elems) = expansions items elem \<union> alternatives items elems"

text \<open>A field starts with a tilde when its first part, after empty literals, is a literal that does.\<close>

fun startsTilde :: "syn_word \<Rightarrow> bool" where
  "startsTilde (Lit v # ps) = (if v = [] then startsTilde ps else hasPrefix v ''~'')"
| "startsTilde _ = False"

definition vacuous :: "syn_word \<Rightarrow> bool" where
  "vacuous ps \<longleftrightarrow> (\<forall>p\<in>set ps. p = Lit [])"

lemma startsTilde_append:
  "startsTilde (e @ r) \<longleftrightarrow> startsTilde e \<or> vacuous e \<and> startsTilde r"
  by (induction e rule: startsTilde.induct) (auto simp: vacuous_def)

lemma vacuous_Nil [simp]: "vacuous []"
  by (simp add: vacuous_def)

lemma vacuous_append [simp]: "vacuous (e @ r) \<longleftrightarrow> vacuous e \<and> vacuous r"
  by (auto simp: vacuous_def)

lemma vacuous_Cons [simp]: "vacuous (p # r) \<longleftrightarrow> p = Lit [] \<and> vacuous r"
  by (auto simp: vacuous_def)

definition seqItemsOk :: "syntaxApi \<Rightarrow> (syn_word list \<Rightarrow> bytes set) \<Rightarrow> bool" where
  "seqItemsOk S items \<longleftrightarrow>
     (\<forall>elems. \<forall>v\<in>items elems. v \<noteq> [] \<and> (hasPrefix v ''~'' \<longrightarrow> charSequenceMayYieldTilde S elems))"

lemma tildeParts_brace:
  assumes "tildeParts S ctx (BraceExp False elems # parts) steps = (st', False, ti, mt)"
  obtains s1 ti1 em where "tildeElems S ctx elems (Suc steps) False = (s1, False, ti1, em)"
    "ti1 \<and> ti \<and> \<not> mt \<or> \<not> ti1 \<and> \<not> em \<and> \<not> ti \<and> \<not> mt \<or>
     \<not> ti1 \<and> em \<and> tildeParts S ctx parts s1 = (st', False, ti, mt)"
  using assms by (auto simp: Let_def split: if_splits prod.splits)

lemma tildeElems_cons:
  assumes "tildeElems S ctx (elem # elems) steps em0 = (st', False, ti, mt)"
  obtains s1 ti1 em where "tildeParts S ctx elem steps = (s1, False, ti1, em)"
    "ti1 \<and> ti \<and> \<not> mt \<or> \<not> ti1 \<and> tildeElems S ctx elems s1 (em0 \<or> em) = (st', False, ti, mt)"
  using assms by (auto split: if_splits prod.splits)

lemma tilde_sound:
  "tildeParts S ctx ps steps = (st', False, False, mt) \<Longrightarrow> f \<in> expansions items ps \<Longrightarrow> seqItemsOk S items \<Longrightarrow>
     \<not> startsTilde f \<and> (\<not> mt \<longrightarrow> \<not> vacuous f)"
  "tildeElems S ctx es steps mt0 = (st', False, False, mt') \<Longrightarrow> seqItemsOk S items \<Longrightarrow>
     (f \<in> alternatives items es \<longrightarrow> \<not> startsTilde f \<and> (\<not> mt' \<longrightarrow> \<not> vacuous f)) \<and> (mt0 \<longrightarrow> mt')"
proof (induction items ps and items es arbitrary: steps st' mt f and steps mt0 st' mt' f rule: expansions_alternatives.induct)
  case (2 items sequence elems parts)
  show ?case
  proof (cases sequence)
    case True
    then show ?thesis
      using 2(4-6) unfolding seqItemsOk_def by (auto simp: Let_def split: if_splits)
  next
    case False
    obtain s1 ti1 em where e: "tildeElems S ctx elems (Suc steps) False = (s1, False, ti1, em)"
      "ti1 \<and> False \<and> \<not> mt \<or> \<not> ti1 \<and> \<not> em \<and> \<not> False \<and> \<not> mt \<or>
       \<not> ti1 \<and> em \<and> tildeParts S ctx parts s1 = (st', False, False, mt)"
      by (rule tildeParts_brace [of S ctx elems parts steps st' False mt])
        (use 2(4) False in \<open>simp_all del: tildeParts.simps\<close>)
    obtain a r where f: "f = a @ r" "a \<in> alternatives items elems" "r \<in> expansions items parts"
      using 2(5) False by auto
    show ?thesis
      using 2(2) [OF False _ 2(6), of "Suc steps" False s1 em a] 2(3) [OF False _ f(3) 2(6), of s1 st' mt] e f
      by (auto simp: startsTilde_append)
  qed
next
  case (5 items elem elems)
  obtain s1 em where e: "tildeParts S ctx elem steps = (s1, False, False, em)"
    "tildeElems S ctx elems s1 (mt0 \<or> em) = (st', False, False, mt')"
    using tildeElems_cons [OF 5(3)] by (metis (full_types))
  then show ?case using 5(1) [OF e(1) _ 5(4)] 5(2) [OF e(2) 5(4)] by auto
qed (auto simp: Let_def split: if_splits)

text \<open>Braces of alternatives only, at every depth.\<close>

fun plainBraces :: "syn_word \<Rightarrow> bool"
  and plainElems :: "syn_word list \<Rightarrow> bool" where
  "plainBraces [] = True"
| "plainBraces (BraceExp sequence elems # parts) =
     (\<not> sequence \<and> elems \<noteq> [] \<and> plainElems elems \<and> plainBraces parts)"
| "plainBraces (part # parts) = plainBraces parts"
| "plainElems [] = True"
| "plainElems (elem # elems) = (plainBraces elem \<and> plainElems elems)"

lemma plain_nonempty:
  "plainBraces ps \<Longrightarrow> expansions items ps \<noteq> {}"
  "plainElems es \<Longrightarrow> es \<noteq> [] \<Longrightarrow> alternatives items es \<noteq> {}"
  by (induction ps and es rule: plainBraces_plainElems.induct) auto

lemma tilde_complete:
  "tildeParts S ctx ps steps = (st', False, ti, mt) \<Longrightarrow> plainBraces ps \<Longrightarrow>
     (ti \<longrightarrow> (\<exists>f\<in>expansions items ps. startsTilde f)) \<and>
     (\<not> ti \<and> mt \<longrightarrow> (\<exists>f\<in>expansions items ps. vacuous f))"
  "tildeElems S ctx es steps mt0 = (st', False, ti, mt') \<Longrightarrow> plainElems es \<Longrightarrow>
     (ti \<longrightarrow> (\<exists>f\<in>alternatives items es. startsTilde f)) \<and>
     (\<not> ti \<and> mt' \<longrightarrow> mt0 \<or> (\<exists>f\<in>alternatives items es. vacuous f))"
proof (induction items ps and items es arbitrary: steps st' ti mt and steps mt0 st' ti mt' rule: expansions_alternatives.induct)
  case (2 items sequence elems parts)
  have pl: "\<not> sequence" "plainElems elems" "plainBraces parts" "elems \<noteq> []" using 2(5) by auto
  obtain s1 ti1 em where e: "tildeElems S ctx elems (Suc steps) False = (s1, False, ti1, em)"
    "ti1 \<and> ti \<and> \<not> mt \<or> \<not> ti1 \<and> \<not> em \<and> \<not> ti \<and> \<not> mt \<or>
     \<not> ti1 \<and> em \<and> tildeParts S ctx parts s1 = (st', False, ti, mt)"
    using tildeParts_brace [of S ctx elems parts steps st' ti mt] 2(4) pl(1) by (simp del: tildeParts.simps) blast
  have el: "(ti1 \<longrightarrow> (\<exists>f\<in>alternatives items elems. startsTilde f)) \<and>
      (\<not> ti1 \<and> em \<longrightarrow> (\<exists>f\<in>alternatives items elems. vacuous f))"
    using 2(2) [OF pl(1) e(1) pl(2)] by simp
  obtain r0 where r0: "r0 \<in> expansions items parts" using plain_nonempty(1) [OF pl(3)] by blast
  have join: "a @ r \<in> expansions items (BraceExp sequence elems # parts)"
    if "a \<in> alternatives items elems" "r \<in> expansions items parts" for a r
    using that pl(1) by auto
  from e(2) consider "ti1" "ti" "\<not> mt" | "\<not> ti" "\<not> mt"
    | "\<not> ti1" "em" "tildeParts S ctx parts s1 = (st', False, ti, mt)" by blast
  then show ?case
  proof cases
    case 1
    then obtain a where "a \<in> alternatives items elems" "startsTilde a" using el by blast
    then show ?thesis using 1 join [OF _ r0] by (meson startsTilde_append)
  next
    case 3
    then obtain a where a: "a \<in> alternatives items elems" "vacuous a" using el by blast
    have "(ti \<longrightarrow> (\<exists>f\<in>expansions items parts. startsTilde f)) \<and>
        (\<not> ti \<and> mt \<longrightarrow> (\<exists>f\<in>expansions items parts. vacuous f))"
      using 2(3) [OF pl(1) 3(3) pl(3)] .
    then show ?thesis using join [OF a(1)] a(2) by (meson startsTilde_append vacuous_append)
  qed simp
next
  case (5 items elem elems)
  obtain s1 ti1 em where e: "tildeParts S ctx elem steps = (s1, False, ti1, em)"
    "ti1 \<and> ti \<and> \<not> mt' \<or> \<not> ti1 \<and> tildeElems S ctx elems s1 (mt0 \<or> em) = (st', False, ti, mt')"
    using tildeElems_cons [OF 5(3)] by blast
  then show ?case using 5(1) [OF e(1)] 5(2) [of s1 "mt0 \<or> em" st' ti mt'] 5(4) by auto
next
  case "3_1"
  then show ?case using plain_nonempty(1) by (auto simp: Let_def ex_in_conv split: if_splits)
qed (auto simp: Let_def split: if_splits)


definition demoSyntax :: syntaxApi where
  "demoSyntax = \<lparr>SplitBraces = (\<lambda>w. (w, True)),
     WordLit = (\<lambda>w. concat (map (\<lambda>p. case p of Lit v \<Rightarrow> v | _ \<Rightarrow> []) w))\<rparr>"


end
