(* ===== verification/Validate.thy ===== *)
theory Validate
  imports Tilde Path_Policy
begin

text \<open>
  The validator of \<^verbatim>\<open>interp/validate.go\<close>, which refuses constructs the shell does not support
  before anything runs: the redirection rules and the walk over the tree; the tilde analysis is in
  \<open>Tilde\<close>.
\<close>

definition orElse :: "'a option \<Rightarrow> 'a option \<Rightarrow> 'a option" where
  "orElse a b = (case a of None \<Rightarrow> b | Some x \<Rightarrow> Some x)"

lemma orElse_None [simp]: "orElse a b = None \<longleftrightarrow> a = None \<and> b = None"
  by (simp add: orElse_def split: option.split)

definition reject :: "bool \<Rightarrow> bytes \<Rightarrow> vError option" where
  "reject b msg = (if b then Some (VMsg msg) else None)"

lemma reject_None [simp]: "reject b msg = None \<longleftrightarrow> \<not> b"
  by (simp add: reject_def)

section \<open>Parameters, assignments and redirections\<close>

definition blockedSpecialParams :: "bytes list" where
  "blockedSpecialParams = [''#'', ''!'', ''0'', ''1'', ''2'', ''3'', ''4'', ''5'', ''6'', ''7'', ''8'', ''9'', ''@'', ''*'']"

definition validateParamExp :: "paramFlags \<Rightarrow> bytes option \<Rightarrow> vError option" where
  "validateParamExp pe param =
     orElse (reject (pe_Length pe) ''${#var} is not supported'')
    (orElse (reject (pe_Slice pe) ''${var:offset} is not supported'')
    (orElse (reject (pe_Repl pe) ''${var/pattern/replacement} is not supported'')
    (orElse (reject (pe_Excl pe) ''${!var} is not supported'')
    (orElse (reject (pe_Index pe) ''array indexing is not supported'')
    (orElse (reject (pe_Names pe) ''${!prefix*} is not supported'')
    (orElse (reject (pe_Exp pe) ''${var} operations (defaults, pattern removal, case conversion) are not supported'')
    (case param of
       None \<Rightarrow> None
     | Some name \<Rightarrow> orElse (reject (name \<in> set blockedSpecialParams) (''$'' @ name @ '' is not supported''))
                      (reject (name = ''LINENO'') ''$LINENO is not supported''))))))))"

definition validateAssign :: "assign \<Rightarrow> vError option" where
  "validateAssign as =
     (case as of Assign name app arr idx val \<Rightarrow>
        orElse (reject app ''+= is not supported'')
       (orElse (reject arr ''array assignment is not supported'')
               (reject idx ''array index assignment is not supported'')))"

definition supportedOutFd :: "bytes option \<Rightarrow> bool" where
  "supportedOutFd n \<longleftrightarrow> (case n of None \<Rightarrow> True | Some v \<Rightarrow> v = ''1'' \<or> v = ''2'')"

definition redirectTargetIsDevNull :: "redirect \<Rightarrow> bool" where
  "redirectTargetIsDevNull rd =
     (if \<not> supportedOutFd (r_N rd) then False
      else (case r_Word rd of Some [Lit v] \<Rightarrow> IsDevNull v | _ \<Rightarrow> False))"

definition redirectTargetIsFD :: "redirect \<Rightarrow> bool" where
  "redirectTargetIsFD rd =
     (if \<not> supportedOutFd (r_N rd) then False
      else (case r_Word rd of Some [Lit v] \<Rightarrow> v = ''1'' \<or> v = ''2'' | _ \<Rightarrow> False))"

definition redirectTargetIsStaticLiteral :: "redirect \<Rightarrow> bool" where
  "redirectTargetIsStaticLiteral rd = (case r_Word rd of Some [Lit v] \<Rightarrow> True | _ \<Rightarrow> False)"

text \<open>Whether a part, at any depth, is a command or process substitution.\<close>

fun runsCommands :: "wordPart \<Rightarrow> bool" where
  "runsCommands (DblQuoted ps) = list_ex runsCommands ps"
| "runsCommands (ParamExp fl param ws) = list_ex (list_ex runsCommands) ws"
| "runsCommands (BraceExp sq ws) = list_ex (list_ex runsCommands) ws"
| "runsCommands (ArithmExp ws) = list_ex (list_ex runsCommands) ws"
| "runsCommands (CmdSubst i ss) = True"
| "runsCommands (ProcSubst ss) = True"
| "runsCommands (Lit v) = False"
| "runsCommands (SglQuoted v) = False"
| "runsCommands ExtGlob = False"

definition redirectTargetRunsCommands :: "redirect \<Rightarrow> bool" where
  "redirectTargetRunsCommands rd = (case r_Word rd of None \<Rightarrow> False | Some w \<Rightarrow> list_ex runsCommands w)"

definition redirectAllowed :: "redirect \<Rightarrow> bool \<Rightarrow> bool" where
  "redirectAllowed rd remediationMode =
     (if redirectTargetIsDevNull rd \<or> remediationMode then True
      else \<not> redirectTargetIsStaticLiteral rd \<and> \<not> redirectTargetRunsCommands rd)"

definition validateRedirect :: "redirect \<Rightarrow> bool \<Rightarrow> vError option" where
  "validateRedirect rd remediationMode =
     (let fd = (case r_N rd of None \<Rightarrow> [] | Some v \<Rightarrow> v) in
      case r_Op rd of
        WordHdoc \<Rightarrow> Some (VMsg ''<<< (herestring) is not supported'')
      | RdrIn \<Rightarrow> reject (r_N rd \<noteq> None \<and> r_N rd \<noteq> Some ''0'') (fd @ ''< input fd redirection is not supported'')
      | RdrOut \<Rightarrow> orElse (reject (\<not> supportedOutFd (r_N rd)) (fd @ ''> fd redirection is not supported''))
                    (reject (\<not> redirectAllowed rd remediationMode) ''> file redirection is not supported'')
      | ClbOut \<Rightarrow> orElse (reject (\<not> supportedOutFd (r_N rd)) (fd @ ''> fd redirection is not supported''))
                    (reject (\<not> redirectAllowed rd remediationMode) ''> file redirection is not supported'')
      | AppOut \<Rightarrow> orElse (reject (\<not> supportedOutFd (r_N rd)) (fd @ ''>> fd redirection is not supported''))
                    (reject (\<not> redirectAllowed rd remediationMode) ''>> file redirection is not supported'')
      | RdrAll \<Rightarrow> reject (\<not> redirectAllowed rd remediationMode) ''&> file redirection is not supported''
      | AppAll \<Rightarrow> reject (\<not> redirectAllowed rd remediationMode) ''&>> file redirection is not supported''
      | RdrInOut \<Rightarrow> Some (VMsg ''<> file redirection is not supported'')
      | DplOut \<Rightarrow> reject (\<not> redirectTargetIsFD rd) ''>&N fd duplication is not supported''
      | DplIn \<Rightarrow> Some (VMsg ''<&N fd duplication is not supported'')
      | HdocOp \<Rightarrow> None
      | DashHdoc \<Rightarrow> None)"

section \<open>The walk\<close>

text \<open>The parser package's walk visits a node, then its children in the order of the fields; the
  first error ends it.  \<open>ctx w n\<close> says whether the context has ended when the analysis of \<open>w\<close> asks at
  its \<open>n\<close>-th step.\<close>

record vEnv =
  v_syntax :: syntaxApi
  v_ctx :: "syn_word \<Rightarrow> nat \<Rightarrow> bool"
  v_remediation :: bool

definition vTilde :: "vEnv \<Rightarrow> bool \<Rightarrow> syn_word \<Rightarrow> vError option" where
  "vTilde E literal w = validateWordTilde (v_syntax E) (v_ctx E w) w literal"

definition otherCommandMsg :: "otherCommand \<Rightarrow> bytes" where
  "otherCommandMsg c =
     (case c of
        CaseClause \<Rightarrow> ''case statements are not supported''
      | FuncDecl \<Rightarrow> ''function declarations are not supported''
      | ArithmCmd \<Rightarrow> ''arithmetic commands are not supported''
      | TestClause \<Rightarrow> ''test expressions are not supported''
      | DeclClause kw \<Rightarrow> kw @ '' is not supported''
      | LetClause \<Rightarrow> ''let is not supported''
      | TimeClause \<Rightarrow> ''time is not supported''
      | CoprocClause \<Rightarrow> ''coprocesses are not supported''
      | TestDecl \<Rightarrow> ''test declarations are not supported''
      | UnknownCommand ty \<Rightarrow> ''unsupported command type: '' @ ty)"

fun vPart :: "vEnv \<Rightarrow> wordPart \<Rightarrow> vError option"
  and vParts :: "vEnv \<Rightarrow> syn_word \<Rightarrow> vError option"
  and vWords :: "vEnv \<Rightarrow> syn_word list \<Rightarrow> vError option"
  and vRedirects :: "vEnv \<Rightarrow> redirect list \<Rightarrow> vError option"
  and vAssigns :: "vEnv \<Rightarrow> assign list \<Rightarrow> vError option"
  and vStmt :: "vEnv \<Rightarrow> stmt \<Rightarrow> vError option"
  and vStmts :: "vEnv \<Rightarrow> stmt list \<Rightarrow> vError option"
  and vCommand :: "vEnv \<Rightarrow> command \<Rightarrow> vError option"
  and vIf :: "vEnv \<Rightarrow> ifClause \<Rightarrow> vError option" where
  "vPart E (Lit v) = None"
| "vPart E (SglQuoted v) = None"
| "vPart E (DblQuoted ps) = vParts E ps"
| "vPart E (ParamExp fl param ws) = orElse (validateParamExp fl param) (vWords E ws)"
| "vPart E (CmdSubst i ss) = vStmts E ss"
| "vPart E (BraceExp sq ws) = vWords E ws"
| "vPart E (ArithmExp ws) = Some (VMsg ''arithmetic expansion is not supported'')"
| "vPart E (ProcSubst ss) = Some (VMsg ''process substitution is not supported'')"
| "vPart E ExtGlob = Some (VMsg ''extended globbing is not supported'')"
| "vParts E [] = None"
| "vParts E (p # ps) = orElse (vPart E p) (vParts E ps)"
| "vWords E [] = None"
| "vWords E (w # ws) = orElse (vTilde E False w) (orElse (vParts E w) (vWords E ws))"
| "vRedirects E [] = None"
| "vRedirects E (Redirect op n w h # rds) =
     orElse (validateRedirect (Redirect op n w h) (v_remediation E))
    (orElse (case w of None \<Rightarrow> None
                     | Some ps \<Rightarrow> orElse (vTilde E (op = HdocOp \<or> op = DashHdoc) ps) (vParts E ps))
    (orElse (case h of None \<Rightarrow> None | Some ps \<Rightarrow> vParts E ps) (vRedirects E rds)))"
| "vAssigns E [] = None"
| "vAssigns E (Assign name app arr idx val # asgs) =
     orElse (validateAssign (Assign name app arr idx val))
    (orElse (case val of None \<Rightarrow> None | Some ps \<Rightarrow> orElse (vTilde E True ps) (vParts E ps)) (vAssigns E asgs))"
| "vStmt E (Stmt cmd negated background coprocess disown rds) =
     orElse (reject background ''background execution (&) is not supported'')
    (orElse (case cmd of None \<Rightarrow> None | Some c \<Rightarrow> vCommand E c) (vRedirects E rds))"
| "vStmts E [] = None"
| "vStmts E (st # sts) = orElse (vStmt E st) (vStmts E sts)"
| "vCommand E (CallExpr asgs args) = orElse (vAssigns E asgs) (vWords E args)"
| "vCommand E (Subshell sts) = vStmts E sts"
| "vCommand E (Block sts) = vStmts E sts"
| "vCommand E (IfClause ic) = vIf E ic"
| "vCommand E (ForClause sel loop body) =
     orElse (reject sel ''select statements are not supported'')
    (case loop of
       None \<Rightarrow> Some (VMsg ''c-style for loops are not supported'')
     | Some (name, inPos, items) \<Rightarrow> orElse (vWords E items) (vStmts E body))"
| "vCommand E (WhileClause until cond body) = orElse (vStmts E cond) (vStmts E body)"
| "vCommand E (BinaryCmd op x y) =
     orElse (reject (op = PipeAll) ''|& is not supported'') (orElse (vStmt E x) (vStmt E y))"
| "vCommand E (OtherCommand c) = Some (VMsg (otherCommandMsg c))"
| "vIf E (If hasThen cond thn els) =
     orElse (vStmts E cond) (orElse (vStmts E thn) (case els of None \<Rightarrow> None | Some ic \<Rightarrow> vIf E ic))"

text \<open>The entry point, for the file \<open>root\<close> with the statements \<open>sts\<close>; the parser package's children
  are the parameter of the depth guard.\<close>

definition validateNode :: "('n \<Rightarrow> 'n list) \<Rightarrow> vEnv \<Rightarrow> 'n \<Rightarrow> stmt list \<Rightarrow> vError option option" where
  "validateNode directChildren E root sts =
     map_option (\<lambda>d. case d of Some e \<Rightarrow> Some (VNesting e) | None \<Rightarrow> vStmts E sts)
       (checkNestingDepth directChildren (Some root))"

section \<open>Every node is checked\<close>

datatype node =
    NStmt stmt | NCommand command | NIf ifClause | NWord syn_word | NPart wordPart | NRedirect redirect | NAssign assign

inductive child :: "node \<Rightarrow> node \<Rightarrow> bool" where
  "child (NStmt (Stmt (Some c) ng bg co di rds)) (NCommand c)"
| "rd \<in> set rds \<Longrightarrow> child (NStmt (Stmt c ng bg co di rds)) (NRedirect rd)"
| "a \<in> set asgs \<Longrightarrow> child (NCommand (CallExpr asgs args)) (NAssign a)"
| "w \<in> set args \<Longrightarrow> child (NCommand (CallExpr asgs args)) (NWord w)"
| "st \<in> set sts \<Longrightarrow> child (NCommand (Subshell sts)) (NStmt st)"
| "st \<in> set sts \<Longrightarrow> child (NCommand (Block sts)) (NStmt st)"
| "child (NCommand (IfClause ic)) (NIf ic)"
| "st \<in> set cond \<Longrightarrow> child (NIf (If ht cond thn els)) (NStmt st)"
| "st \<in> set thn \<Longrightarrow> child (NIf (If ht cond thn els)) (NStmt st)"
| "child (NIf (If ht cond thn (Some ic))) (NIf ic)"
| "w \<in> set items \<Longrightarrow> child (NCommand (ForClause sel (Some (name, ip, items)) body)) (NWord w)"
| "st \<in> set body \<Longrightarrow> child (NCommand (ForClause sel loop body)) (NStmt st)"
| "st \<in> set cond \<Longrightarrow> child (NCommand (WhileClause un cond body)) (NStmt st)"
| "st \<in> set body \<Longrightarrow> child (NCommand (WhileClause un cond body)) (NStmt st)"
| "child (NCommand (BinaryCmd op x y)) (NStmt x)"
| "child (NCommand (BinaryCmd op x y)) (NStmt y)"
| "child (NRedirect (Redirect op n (Some w) h)) (NWord w)"
| "child (NRedirect (Redirect op n w (Some h))) (NWord h)"
| "child (NAssign (Assign name ap ar ix (Some w))) (NWord w)"
| "p \<in> set w \<Longrightarrow> child (NWord w) (NPart p)"
| "p \<in> set ps \<Longrightarrow> child (NPart (DblQuoted ps)) (NPart p)"
| "w \<in> set ws \<Longrightarrow> child (NPart (ParamExp fl param ws)) (NWord w)"
| "w \<in> set ws \<Longrightarrow> child (NPart (BraceExp sq ws)) (NWord w)"
| "st \<in> set sts \<Longrightarrow> child (NPart (CmdSubst i sts)) (NStmt st)"

text \<open>What the interpreter can run, node by node.\<close>

definition writesFile :: "redirOp \<Rightarrow> bool" where
  "writesFile op \<longleftrightarrow> op \<in> {RdrOut, ClbOut, AppOut, RdrAll, AppAll}"

fun supported :: "bool \<Rightarrow> node \<Rightarrow> bool" where
  "supported rm (NStmt (Stmt c ng bg co di rds)) = (\<not> bg)"
| "supported rm (NCommand (OtherCommand c)) = False"
| "supported rm (NCommand (ForClause sel loop body)) = (\<not> sel \<and> loop \<noteq> None)"
| "supported rm (NCommand (BinaryCmd op x y)) = (op \<noteq> PipeAll)"
| "supported rm (NCommand c) = True"
| "supported rm (NIf ic) = True"
| "supported rm (NWord w) = True"
| "supported rm (NPart (ArithmExp ws)) = False"
| "supported rm (NPart (ProcSubst ss)) = False"
| "supported rm (NPart ExtGlob) = False"
| "supported rm (NPart (ParamExp fl param ws)) = (\<not> pe_Exp fl \<and> \<not> pe_Index fl \<and> \<not> pe_Slice fl \<and> param \<noteq> Some ''@'')"
| "supported rm (NPart p) = True"
| "supported rm (NAssign (Assign name ap ar ix v)) = (\<not> ap \<and> \<not> ar \<and> \<not> ix)"
| "supported rm (NRedirect (Redirect op n w h)) =
     (op \<notin> {WordHdoc, RdrInOut, DplIn} \<and>
      (writesFile op \<and> \<not> rm \<longrightarrow>
         (\<forall>v. w = Some [Lit v] \<longrightarrow> v = ''/dev/null'') \<and>
         (\<forall>ps. w = Some ps \<longrightarrow> \<not> list_ex runsCommands ps)))"

lemma supported_mono: "supported rm n \<Longrightarrow> supported True n"
  by (induction rm n rule: supported.induct) auto

text \<open>The validator's verdict on a single node and all below it.\<close>

fun vNode :: "vEnv \<Rightarrow> node \<Rightarrow> bool" where
  "vNode E (NStmt st) = (vStmt E st = None)"
| "vNode E (NCommand c) = (vCommand E c = None)"
| "vNode E (NIf ic) = (vIf E ic = None)"
| "vNode E (NWord w) = (vParts E w = None)"
| "vNode E (NPart p) = (vPart E p = None)"
| "vNode E (NRedirect rd) = (vRedirects E [rd] = None)"
| "vNode E (NAssign a) = (vAssigns E [a] = None)"

lemma vParts_iff: "vParts E ps = None \<longleftrightarrow> (\<forall>p\<in>set ps. vPart E p = None)"
  by (induction ps) auto

lemma vWords_iff: "vWords E ws = None \<longleftrightarrow> (\<forall>w\<in>set ws. vTilde E False w = None \<and> vParts E w = None)"
  by (induction ws) auto

lemma vStmts_iff: "vStmts E sts = None \<longleftrightarrow> (\<forall>st\<in>set sts. vStmt E st = None)"
  by (induction sts) auto

lemma vRedirects_iff: "vRedirects E rds = None \<longleftrightarrow> (\<forall>rd\<in>set rds. vRedirects E [rd] = None)"
proof (induction rds)
  case (Cons rd rds)
  then show ?case by (cases rd) auto
qed simp

lemma vAssigns_iff: "vAssigns E asgs = None \<longleftrightarrow> (\<forall>a\<in>set asgs. vAssigns E [a] = None)"
proof (induction asgs)
  case (Cons a asgs)
  then show ?case by (cases a) auto
qed simp

lemmas v_iffs = vParts_iff vWords_iff vStmts_iff

lemma vNode_child: "child n m \<Longrightarrow> vNode E n \<Longrightarrow> vNode E m"
proof (induction rule: child.induct)
  case (2 rd rds c ng bg co di)
  then show ?case using vRedirects_iff [of E rds] by simp
next
  case (3 a asgs args)
  then show ?case using vAssigns_iff [of E asgs] by simp
next
  case (22 w ws fl param)
  then show ?case by (simp add: vWords_iff)
qed (auto simp: v_iffs split: option.splits)

lemma redirectTargetIsDevNull_word: "redirectTargetIsDevNull rd \<Longrightarrow> r_Word rd = Some [Lit ''/dev/null'']"
  by (auto simp: redirectTargetIsDevNull_def IsDevNull_def split: if_splits option.split_asm list.split_asm wordPart.split_asm)
    (metis neq_Nil_conv)+

lemma redirectAllowed_readonly:
  assumes "redirectAllowed rd False" "r_Word rd = Some ps"
  shows "\<not> list_ex runsCommands ps" "ps = [Lit v] \<Longrightarrow> v = ''/dev/null''"
  using assms redirectTargetIsDevNull_word [of rd]
  by (auto simp: redirectAllowed_def redirectTargetIsStaticLiteral_def redirectTargetRunsCommands_def split: if_splits)

lemma vNode_supported: "vNode E n \<Longrightarrow> supported (v_remediation E) n"
proof (cases n)
  case (NRedirect rd)
  obtain op n' w h where rd: "rd = Redirect op n' w h" by (cases rd)
  assume "vNode E n"
  then have "validateRedirect rd (v_remediation E) = None" using NRedirect rd by simp
  then show ?thesis
    unfolding NRedirect rd
    using redirectAllowed_readonly [of rd]
    by (cases op) (auto simp: rd validateRedirect_def writesFile_def Let_def)
next
  case (NStmt st)
  assume "vNode E n"
  then show ?thesis using NStmt by (cases st) simp
next
  case (NCommand c)
  assume "vNode E n"
  then show ?thesis using NCommand by (cases c) (auto split: option.splits)
next
  case (NPart p)
  assume "vNode E n"
  then show ?thesis
    using NPart by (cases p) (auto simp: validateParamExp_def blockedSpecialParams_def split: option.splits)
next
  case (NAssign a)
  assume "vNode E n"
  then show ?thesis using NAssign by (cases a) (simp add: validateAssign_def)
qed auto


text \<open>The script \<^verbatim>\<open>echo $(cat x) > /dev/null\<close>, and the redirection in it.\<close>

definition demoScript :: "stmt list" where
  "demoScript =
     [Stmt (Some (CallExpr [] [[Lit ''echo''],
         [CmdSubst 1 [Stmt (Some (CallExpr [] [[Lit ''cat''], [Lit ''x'']])) False False False False []]]]))
       False False False False [Redirect RdrOut None (Some [Lit ''/dev/null'']) None]]"

definition demoVEnv :: vEnv where
  "demoVEnv = \<lparr>v_syntax = demoSyntax, v_ctx = (\<lambda>_ _. False), v_remediation = False\<rparr>"


end
