(* ===== verification/Shell_Total.thy ===== *)
theory Shell_Total
  imports Shell_Exec Option_Calculus Validate
begin

text \<open>
  Termination: a validated statement without while and until loops ends.  The fuel it takes is its
  size as a syntax tree: each definition of the interpreter returns if what it calls on the parts
  of a node returns, and the parts are smaller.
\<close>

section \<open>Nodes and what is below them\<close>

definition substsReturn :: "'w substCallback \<Rightarrow> node \<Rightarrow> bool" where
  "substsReturn cb n \<longleftrightarrow> (\<forall>i sts r. child\<^sup>*\<^sup>* n (NPart (CmdSubst i sts)) \<longrightarrow> odef (cb i sts r))"

definition bodiesReturn :: "'w runner \<Rightarrow> node \<Rightarrow> bool" where
  "bodiesReturn run n \<longleftrightarrow> (\<forall>st r. child\<^sup>*\<^sup>* n (NStmt st) \<longrightarrow> odef (run st r))"

definition plainNode :: "node \<Rightarrow> bool" where
  "plainNode n \<longleftrightarrow> (\<forall>m. child\<^sup>*\<^sup>* n m \<longrightarrow> supported True m)"

definition loopFree :: "node \<Rightarrow> bool" where
  "loopFree n \<longleftrightarrow> (\<forall>un cond body. \<not> child\<^sup>*\<^sup>* n (NCommand (WhileClause un cond body)))"

definition live :: "'w substCallback \<Rightarrow> node \<Rightarrow> bool" where
  "live cb n \<longleftrightarrow> plainNode n \<and> substsReturn cb n"

lemma below_child:
  assumes "child n m"
  shows "live cb n \<Longrightarrow> live cb m" "bodiesReturn run n \<Longrightarrow> bodiesReturn run m" "plainNode n \<Longrightarrow> plainNode m"
    "loopFree n \<Longrightarrow> loopFree m" "substsReturn cb n \<Longrightarrow> substsReturn cb m"
  using converse_rtranclp_into_rtranclp [of child n m, OF assms]
  unfolding live_def bodiesReturn_def plainNode_def loopFree_def substsReturn_def by blast+

lemma bodiesReturnD: "bodiesReturn run (NStmt st) \<Longrightarrow> odef (run st r)"
  by (simp add: bodiesReturn_def)

text \<open>The contracts: an expander returns when the substitutions of its word return, a builtin and
  the elevation callback return.\<close>

definition totalExpander :: "'w expander \<Rightarrow> bool" where
  "totalExpander X \<longleftrightarrow> (\<forall>cb w. live cb (NWord w) \<longrightarrow>
     (\<forall>r. (\<forall>f\<in>set (FieldsSeq X cb w). odef (f r)) \<and> odef (ex_Literal X cb w r) \<and> odef (ex_Document X cb w r)))"

definition totalHandlers :: "('w, 'c) config_scheme \<Rightarrow> bool" where
  "totalHandlers C \<longleftrightarrow> (\<forall>name fn cc args r. Lookup C name = Some fn \<longrightarrow> odef (fn cc args r)) \<and>
     (\<forall>el name f r. elevate C = Some el \<longrightarrow> (\<forall>s. odef (f s)) \<longrightarrow> odef (el name f r))"

section \<open>Expansion\<close>

lemma runAlternatives_total:
  "\<forall>f\<in>set alts. \<forall>r. odef (f r) \<Longrightarrow> odef (runAlternatives X alts c r)"
proof (induction alts arbitrary: c r)
  case (Cons f alts)
  then have rest: "odef (runAlternatives X alts c r)" and f: "odef (f r)" for c r by simp_all
  have "odef (case fin of FieldsOk \<Rightarrow> runAlternatives X alts c r | FieldsErr e \<Rightarrow> Some (False, c, g e) | FieldsGlobPanic \<Rightarrow> Some (False, c, h))"
    for fin c r g h by (cases fin) (simp_all only: fieldsEnd.case rest odef_simps)
  then show ?case
    unfolding runAlternatives.simps by (intro odef_simps odef_bind odef_prod odef_bool f)
qed simp

lemma add_total:
  assumes X: "totalExpander X"
  shows "\<forall>w\<in>set ws. live cb (NWord w) \<Longrightarrow> odef (fieldCollector_add X cb ws c r)"
proof -
  have w: "odef (addWord X cb ifs w c r)" if "live cb (NWord w)" for ifs w c r
    unfolding addWord_def Let_def
    by (intro odef_simps odef_prod odef_bool odef_option odef_if runAlternatives_total)
      (use X that in \<open>simp add: totalExpander_def\<close>)
  have "\<forall>w\<in>set ws. live cb (NWord w) \<Longrightarrow> odef (addWords X cb ifs ws c r)" for ifs
  proof (induction ws arbitrary: c r)
    case (Cons w ws)
    then have l: "live cb (NWord w)" and rest: "odef (addWords X cb ifs ws c r)" for c r by simp_all
    show ?case unfolding addWords.simps by (intro odef_simps odef_bind odef_prod odef_bool w l rest)
  qed simp
  then show "\<forall>w\<in>set ws. live cb (NWord w) \<Longrightarrow> odef (fieldCollector_add X cb ws c r)"
    unfolding fieldCollector_add_def by simp
qed

lemma literal_total: "totalExpander X \<Longrightarrow> live cb (NWord w) \<Longrightarrow> odef (assignmentLiteral X cb name w r)"
  unfolding assignmentLiteral_def literalBounded_def totalExpander_def
  by (intro odef_simps odef_bind odef_option odef_prod odef_sum odef_if) simp_all

lemma document_total: "totalExpander X \<Longrightarrow> live cb (NWord w) \<Longrightarrow> odef (document X cb w r)"
  unfolding document_def totalExpander_def by (intro odef_simps odef_bind odef_option odef_prod odef_sum) simp_all

section \<open>Redirections\<close>

lemma live_word: "(\<And>p. p \<in> set w \<Longrightarrow> live cb (NPart p)) \<Longrightarrow> live cb (NWord w)"
proof -
  assume p: "\<And>p. p \<in> set w \<Longrightarrow> live cb (NPart p)"
  have "m = NWord w \<or> (\<exists>p\<in>set w. child\<^sup>*\<^sup>* (NPart p) m)" if "child\<^sup>*\<^sup>* (NWord w) m" for m
    using that by (cases rule: converse_rtranclpE) (auto elim: child.cases)
  then show ?thesis using p unfolding live_def plainNode_def substsReturn_def by fastforce
qed

lemma live_lit: "live cb (NPart (Lit v))"
proof -
  have "m = NPart (Lit v)" if "child\<^sup>*\<^sup>* (NPart (Lit v)) m" for m
    using that by (cases rule: converse_rtranclpE) (auto elim: child.cases)
  then show ?thesis unfolding live_def plainNode_def substsReturn_def by fastforce
qed

definition fromParts :: "syn_word \<Rightarrow> syn_word \<Rightarrow> bool" where
  "fromParts ps x \<longleftrightarrow> (\<forall>q \<in> set x. q \<in> set ps \<or> (\<exists>v. q = Lit v))"

lemma fromParts_simps [simp]: "fromParts ps []" "fromParts ps (x @ y) \<longleftrightarrow> fromParts ps x \<and> fromParts ps y"
  "fromParts ps [q] \<longleftrightarrow> q \<in> set ps \<or> (\<exists>v. q = Lit v)"
  by (auto simp: fromParts_def)

lemma hdocStep_parts:
  assumes "\<forall>x \<in> set (fst st). fromParts ps x" "fromParts ps (snd st)" "q \<in> set ps"
  shows "(\<forall>x \<in> set (fst (hdocStep st q)). fromParts ps x) \<and> fromParts ps (snd (hdocStep st q))"
proof (cases q)
  case (Lit v)
  define ms where "ms = map (\<lambda>l. Lit (dropWhile (\<lambda>c. c = chTAB) l)) (splitOn chNL v)"
  have ms: "\<exists>v. x = Lit v" if "x \<in> set ms" for x using that by (auto simp: ms_def)
  have s: "hdocStep st q = (case ms of [] \<Rightarrow> st
     | x # xs \<Rightarrow> if xs = [] then (fst st, snd st @ [x]) else (fst st @ [snd st @ [x]] @ map (\<lambda>x. [x]) (butlast xs), [last xs]))"
    by (simp add: hdocStep_def Lit ms_def)
  show ?thesis
  proof (cases ms)
    case (Cons x xs)
    have "\<exists>v. y = Lit v" if "y \<in> set (butlast xs)" for y using ms [of y] that Cons by (simp add: in_set_butlastD)
    moreover have "\<exists>v. last xs = Lit v" if "xs \<noteq> []" using ms [of "last xs"] that Cons by simp
    moreover have "\<exists>v. x = Lit v" using ms Cons by simp
    ultimately show ?thesis unfolding s Cons list.case using assms by (cases "xs = []") (simp_all add: ball_Un)
  qed (simp add: s assms)
qed (use assms in \<open>simp_all add: hdocStep_def\<close>)

definition partsState :: "syn_word \<Rightarrow> syn_word list \<times> syn_word \<Rightarrow> bool" where
  "partsState ps st \<longleftrightarrow> (\<forall>x \<in> set (fst st). fromParts ps x) \<and> fromParts ps (snd st)"

lemma hdocLines_parts:
  assumes "l \<in> set (hdocLines body)"
  shows "fromParts body l"
proof -
  have "set qs \<subseteq> set body \<Longrightarrow> partsState body st \<Longrightarrow> partsState body (foldl hdocStep st qs)" for qs st
  proof (induction qs arbitrary: st)
    case (Cons q qs)
    have "partsState body (hdocStep st q)"
      using hdocStep_parts [of st body q] Cons.prems unfolding partsState_def by simp
    with Cons.prems(1) show ?case using Cons.IH [of "hdocStep st q"] by simp
  qed simp
  from this [of body "([], [])"] have "partsState body (foldl hdocStep ([], []) body)" by (simp add: partsState_def)
  then show ?thesis using assms unfolding partsState_def hdocLines_def Let_def by auto
qed

lemma hdocReader_total:
  assumes "totalExpander (expr C)" and l: "live cb (NWord body)"
  shows "odef (hdocReader C cb rd body r)"
proof -
  have e: "odef (hdocExpand C cb q w r)" if "live cb (NWord w)" for q w r
    unfolding hdocExpand_def by (intro odef_simps odef_if document_total assms that)
  have p: "live cb (NPart p)" if "p \<in> set body" for p by (rule below_child(1) [OF child.intros(20) [OF that] l])
  have w: "live cb (NWord w)" if "w \<in> set (hdocLines body)" for w
    by (rule live_word) (use hdocLines_parts [OF that] p live_lit in \<open>auto simp: fromParts_def\<close>)
  have f: "(\<And>w. w \<in> set ls \<Longrightarrow> live cb (NWord w)) \<Longrightarrow> odef (flushLines C cb q ls buf r)" for q ls buf r
  proof (induction ls arbitrary: buf r)
    case (Cons x ls)
    show ?case unfolding flushLines.simps Let_def
      by (intro odef_simps odef_bind odef_prod odef_sum odef_if e Cons.IH Cons.prems) simp_all
  qed simp
  have "odef (hdocContent C cb rd body r)" for r
    unfolding hdocContent_def by (intro odef_simps odef_bind odef_prod odef_sum odef_if e l f w)
  then show ?thesis unfolding hdocReader_def Let_def by (intro odef_simps odef_bind odef_prod odef_sum odef_option)
qed

lemma redirectWord_total: "totalExpander (expr C) \<Longrightarrow> live cb (NWord w) \<Longrightarrow> odef (redirectWord C cb w r)"
  unfolding redirectWord_def by (intro odef_simps odef_bind odef_prod odef_bool odef_list add_total) simp_all

lemma live_empty: "live cb (NWord [])"
  by (rule live_word) simp

lemma redir_total:
  assumes X: "totalExpander (expr C)" and l: "live cb (NRedirect rd)"
  shows "odef (redir C cb rd r)"
proof (cases rd)
  case (Redirect op n w h)
  have "live cb (NWord (case w of None \<Rightarrow> [] | Some w \<Rightarrow> w))"
  proof (cases w)
    case (Some v)
    then show ?thesis using below_child(1) [OF child.intros(17), of cb op n v h] l Redirect by simp
  qed (simp add: live_empty)
  moreover have "live cb (NWord b)" if "h = Some b" for b
    by (rule below_child(1) [OF child.intros(18) l [unfolded Redirect that]])
  ultimately show ?thesis
    unfolding redir_def Redirect redirect_fields
    by (intro odef_simps odef_bind odef_prod odef_sum odef_option odef_if hdocReader_total redirectWord_total X)
qed

lemma applyRedirects_total:
  assumes X: "totalExpander (expr C)"
  shows "\<forall>rd\<in>set rds. live cb (NRedirect rd) \<Longrightarrow> odef (applyRedirects C cb rds closers r)"
proof (induction rds arbitrary: closers r)
  case (Cons rd rds)
  then show ?case unfolding applyRedirects.simps
    by (intro odef_simps odef_bind odef_prod odef_sum redir_total X) simp_all
qed simp

section \<open>Simple commands\<close>

lemma dispatch_total:
  assumes "totalHandlers C" "Lookup C name' = Some fn"
  shows "odef (dispatch C n el name fn args r)"
proof -
  have fn: "odef (fn cc as s)" for cc as s
    by (rule assms(1) [unfolded totalHandlers_def, THEN conjunct1, rule_format, of name' fn, OF assms(2)])
  show ?thesis
  proof (cases "if el then elevate C else None")
    case None
    show ?thesis unfolding dispatch_def Let_def None option.case by (intro odef_map fn)
  next
    case (Some f)
    have e: "odef (f name (fn cc as) s)" for cc as s
    proof (rule assms(1) [unfolded totalHandlers_def, THEN conjunct2, rule_format, of f])
      show "elevate C = Some f" using Some by (simp split: if_splits)
    qed (rule fn)
    show ?thesis unfolding dispatch_def Let_def Some option.case
      by (rule odef_bind [OF e]) (intro odef_prod odef_option odef_simps)
  qed
qed

lemma call_total:
  assumes m: "totalHandlers C" and s: "\<And>r. odef (setup r)"
  shows "odef (call C n args setup r)"
proof -
  have g: "Lookup C name = Some fn" if "gates C el name r = Inr (Some fn)" for el name r fn
    using that by (auto simp: gates_def Let_def split: if_splits option.splits)
  have c: "odef (case gates C el name r of Inl r \<Rightarrow> Some (None, r)
      | Inr known \<Rightarrow> (case setup r of
            None \<Rightarrow> None
          | Some (x, None, r) \<Rightarrow> Some (Some x, r)
          | Some (x, Some prepared, r) \<Rightarrow>
              (case known of Some fn \<Rightarrow> map_option (Pair (Some x)) (dispatch C n el name fn (as prepared) r)
                 | None \<Rightarrow> Some (Some x, exec C (as prepared) r))))" for el name r as
  proof (cases "gates C el name r")
    case (Inr known)
    have "odef (dispatch C n el name fn args r)" if "known = Some fn" for fn args r
      by (rule dispatch_total [OF m g [OF Inr [unfolded that]]])
    then show ?thesis unfolding Inr sum.case
      by (intro odef_bind [OF s] odef_prod odef_option) (simp_all only: odef_simps)
  qed simp
  show ?thesis
    unfolding call_def Let_def by (rule odef_if, simp, intro odef_prod odef_bool) (simp_all only: odef_simps c)
qed

lemma assignVal_total:
  assumes "totalExpander (expr C)" "live cb (NAssign a)"
  shows "odef (assignVal C cb prv a r)"
proof (cases a)
  case (Assign nm ap ar ix v)
  have "live cb (NWord w)" if "v = Some w" for w
    by (rule below_child(1) [OF child.intros(19) assms(2) [unfolded Assign that]])
  then show ?thesis
    unfolding assignVal_def Assign assign.case by (intro odef_simps odef_if odef_option odef_map literal_total assms(1))
qed

lemma assigns_total:
  assumes X: "totalExpander (expr C)"
  shows "\<forall>a\<in>set asgs. live cb (NAssign a) \<Longrightarrow> odef (bareAssigns C cb asgs r)"
    "\<forall>a\<in>set asgs. live cb (NAssign a) \<Longrightarrow> odef (inlineValues C cb asgs acc r)"
proof (induction asgs arbitrary: acc r)
  case (Cons a asgs)
  obtain nm ap ar ix v where a: "a = Assign nm ap ar ix v" by (cases a)
  {
    case 1
    then have "live cb (NAssign a)" and rest: "odef (bareAssigns C cb asgs r)" for r using Cons.IH(1) by simp_all
    then show ?case unfolding a bareAssigns.simps Let_def
      by (intro odef_simps odef_prod odef_bind odef_if assignVal_total X rest)
  next
    case 2
    then have "live cb (NAssign a)" and rest: "odef (inlineValues C cb asgs acc r)" for acc r using Cons.IH(2) by simp_all
    then show ?case unfolding a inlineValues.simps Let_def
      by (intro odef_simps odef_prod odef_bind odef_if assignVal_total X rest)
  }
qed simp_all

lemma leadWords_total:
  assumes X: "totalExpander X"
  shows "\<forall>w\<in>set ws. live cb (NWord w) \<Longrightarrow> odef (leadWords X cb p ws c r)"
proof (induction ws arbitrary: c r)
  case (Cons w ws)
  then have l: "\<forall>v\<in>set [w]. live cb (NWord v)" and rest: "odef (leadWords X cb p ws c r)" for c r by simp_all
  show ?case unfolding leadWords.simps by (intro odef_simps odef_bind odef_prod odef_if add_total X l rest)
qed simp

lemma leadWords_rest: "leadWords X cb p ws c r = Some (ws', c', r') \<Longrightarrow> set ws' \<subseteq> set ws"
proof (induction ws arbitrary: c r)
  case (Cons w ws)
  show ?case
  proof (cases "p (c_fields c)")
    case True
    then obtain b c1 r1 where "fieldCollector_add X cb [w] c r = Some (b, c1, r1)"
      using Cons.prems by (auto split: option.splits)
    then show ?thesis using Cons True by auto
  qed (use Cons.prems in simp)
qed simp

lemma callExpr_total:
  assumes X: "totalExpander (expr C)" and H: "totalHandlers C"
    and l: "\<forall>a\<in>set asgs. live cb (NAssign a)" "\<forall>w\<in>set args. live cb (NWord w)" "\<forall>rd\<in>set redirs. live cb (NRedirect rd)"
  shows "odef (callExpr C n cb asgs args redirs closers r)"
proof -
  have b: "odef (bareCommand C cb asgs redirs cl r)" for cl r
    unfolding bareCommand_def
    by (intro odef_simps odef_bind odef_prod odef_if applyRedirects_total assigns_total X l)
  have s: "odef (callSetup C cb asgs ws redirs c cl r)" if "\<forall>w\<in>set ws. live cb (NWord w)" for ws c cl r
    unfolding callSetup_def inlineAssignments_def Let_def
    by (intro odef_simps odef_bind odef_prod odef_bool odef_if odef_map add_total applyRedirects_total assigns_total X l that)
  have w: "\<forall>w\<in>set ws'. live cb (NWord w)" if "leadWords (expr C) cb p ws c r = Some (ws', c', r')" "\<forall>w\<in>set ws. live cb (NWord w)"
    for p ws c r ws' c' r' using leadWords_rest [OF that(1)] that(2) by blast
  obtain ws1 c1 r1 where 1: "leadWords (expr C) cb (\<lambda>fs. fs = []) args
      (newFieldCollector (MaxExpandedArgumentsPerCommand + 2)) (r\<lparr>lastExpandExit := zeroExit\<rparr>) = Some (ws1, c1, r1)"
    using leadWords_total [OF X l(2)] unfolding odef_def by fast
  obtain ws2 c2 r2 where 2: "leadWords (expr C) cb (\<lambda>fs. fs = [''sudo'']) ws1 c1 r1 = Some (ws2, c2, r2)"
    using leadWords_total [OF X w [OF 1 l(2)]] unfolding odef_def by fast
  show ?thesis
    unfolding callExpr_def Let_def 1 2 option.case prod.case
    by (intro odef_simps odef_if odef_list b odef_prod odef_bool odef_map call_total H s w [OF 2 w [OF 1 l(2)]])
qed

section \<open>Statement lists and commands\<close>

lemma stmts_total: "\<forall>st\<in>set sts. bodiesReturn run (NStmt st) \<Longrightarrow> odef (stmts run sts r)"
proof (induction sts arbitrary: r)
  case (Cons st sts)
  then have "odef (run st r)" and rest: "odef (stmts run sts r)" for r using bodiesReturnD [of run st] by simp_all
  then show ?case unfolding stmts.simps by (intro odef_simps odef_bind odef_if rest)
qed simp

lemma loopBody_total: "\<forall>st\<in>set sts. bodiesReturn run (NStmt st) \<Longrightarrow> odef (loopBody run sts r)"
proof (induction sts arbitrary: r)
  case (Cons st sts)
  then have "odef (run st r)" and rest: "odef (loopBody run sts r)" for r using bodiesReturnD [of run st] by simp_all
  then show ?case unfolding loopBody.simps Let_def by (intro odef_simps odef_bind odef_if rest)
qed simp

lemma execIfChain_total: "bodiesReturn run (NIf ic) \<Longrightarrow> odef (execIfChain run ic r)"
proof (induction run ic r rule: execIfChain.induct)
  case (1 run hasThen cond thn els r)
  have s: "odef (stmts run cond r)" "odef (stmts run thn r)" for r
    by (intro stmts_total ballI below_child(2) [OF child.intros(8) 1(2)] below_child(2) [OF child.intros(9) 1(2)]; assumption)+
  have "odef (case els of None \<Rightarrow> Some (setExit zeroExit s) | Some ic \<Rightarrow> execIfChain run ic (setExit zeroExit s))"
    if "hasThen" "stmts run cond r = Some s" "\<not> interrupted s" "\<not> ok (r_exit s)" for s
  proof (cases els)
    case (Some ic)
    show ?thesis unfolding Some option.case
      by (rule 1(1) [OF _ that(2-4) Some below_child(2) [OF child.intros(10) 1(2) [unfolded Some]]]) (simp add: that(1))
  qed simp
  then show ?case
    unfolding execIfChain.simps using s by (cases hasThen) (auto simp del: if_split intro!: odef_bind split: if_split)
qed

lemma forIterations_total:
  assumes "\<forall>st\<in>set body. bodiesReturn run (NStmt st)"
  shows "odef (forIterations C run name body items r)"
proof (induction items arbitrary: r)
  case (Cons i items)
  have "odef (loopStmtsBroken run body r)" for r
    using loopBody_total [OF assms] by (simp add: loopStmtsBroken_def)
  then show ?case unfolding forIterations.simps by (intro odef_simps odef_bind odef_option odef_prod odef_if Cons.IH)
qed simp

section \<open>Sizes\<close>

primrec nsize :: "node \<Rightarrow> nat" where
  "nsize (NStmt st) = size st"
| "nsize (NCommand c) = size c"
| "nsize (NIf ic) = size ic"
| "nsize (NWord w) = size_list size w"
| "nsize (NPart p) = size p"
| "nsize (NRedirect rd) = size rd"
| "nsize (NAssign a) = size a"

lemma size_member: "x \<in> set xs \<Longrightarrow> f x < Suc (size_list f xs)"
  by (induction xs) auto

lemma child_nsize: "child n m \<Longrightarrow> nsize m \<le> nsize n"
  by (induction rule: child.induct) (auto dest: size_member [where f = size] size_member [where f = "size_list size"])

lemma child_smaller: "child n m \<Longrightarrow> (case n of NWord w \<Rightarrow> True | _ \<Rightarrow> nsize m < nsize n)"
  by (induction rule: child.induct) (auto dest: size_member [where f = size] size_member [where f = "size_list size"])

lemma below_nsize: "child\<^sup>*\<^sup>* n m \<Longrightarrow> nsize m \<le> nsize n"
  by (induction rule: rtranclp_induct) (auto dest: child_nsize)

lemma below_smaller: "child n k \<Longrightarrow> child\<^sup>*\<^sup>* k m \<Longrightarrow> \<not> (\<exists>w. n = NWord w) \<Longrightarrow> nsize m < nsize n"
  using child_smaller [of n k] below_nsize [of k m] by (cases n) auto

section \<open>Substitutions and statements\<close>

lemma cmdSubst_total:
  assumes X: "totalExpander (expr C)"
  shows "plainNode (NPart (CmdSubst i sts)) \<Longrightarrow> bodiesReturn run (NPart (CmdSubst i sts)) \<Longrightarrow>
     size (CmdSubst i sts) \<le> n \<Longrightarrow> odef (cmdSubst C run n i sts r)"
proof (induction n arbitrary: i sts r)
  case (Suc n)
  have below: "child (NPart (CmdSubst i sts)) (NStmt st)" if "st \<in> set sts" for st by (rule child.intros(24) [OF that])
  have body: "odef (stmts run sts s)" for s
    by (intro stmts_total ballI below_child(2) [OF below Suc.prems(2)])
  have w: "odef (redirectWord C (cmdSubst C run n) w s)" if st: "sts = [st]" "catShortcutArg st = Some w" for st w s
  proof -
    obtain rd where rd: "st = Stmt None False False False False [rd]" "r_Word rd = Some w"
      using st(2) by (cases st) (auto simp: catShortcutArg_def split: if_splits list.splits)
    have c1: "child (NStmt st) (NRedirect rd)" unfolding rd(1) by (rule child.intros(2)) simp
    have c2: "child (NRedirect rd) (NWord w)" using rd(2) by (cases rd) (simp add: child.intros(17))
    have c: "child\<^sup>*\<^sup>* (NStmt st) m" if "child\<^sup>*\<^sup>* (NWord w) m" for m
      using c1 c2 that by (meson converse_rtranclp_into_rtranclp)
    have up: "child\<^sup>*\<^sup>* (NPart (CmdSubst i sts)) m" if "child\<^sup>*\<^sup>* (NWord w) m" for m
      using below [of st] c [OF that] st(1) by (simp add: converse_rtranclp_into_rtranclp)
    have "odef (cmdSubst C run n j ts s)" if "child\<^sup>*\<^sup>* (NWord w) (NPart (CmdSubst j ts))" for j ts s
    proof (rule Suc.IH)
      show "plainNode (NPart (CmdSubst j ts))" "bodiesReturn run (NPart (CmdSubst j ts))"
        using Suc.prems(1,2) rtranclp_trans [OF up [OF that]] unfolding plainNode_def bodiesReturn_def by blast+
      have "nsize (NPart (CmdSubst j ts)) < nsize (NPart (CmdSubst i sts))"
        by (rule below_smaller [OF below c [OF that]]) (simp_all add: st(1))
      then show "size (CmdSubst j ts) \<le> n" using Suc.prems(3) by simp
    qed
    moreover have "plainNode (NWord w)" using Suc.prems(1) up unfolding plainNode_def by blast
    ultimately show ?thesis by (intro redirectWord_total [OF X]) (simp add: live_def substsReturn_def)
  qed
  show ?case
  proof (cases sts)
    case (Cons st rest)
    show ?thesis
    proof (cases "if rest = [] then catShortcutArg st else None")
      case None
      show ?thesis unfolding cmdSubst.simps Cons list.case None option.case Let_def unfolding Cons [symmetric]
        by (intro odef_simps odef_prod odef_bind body)
    next
      case (Some v)
      then have "odef (redirectWord C (cmdSubst C run n) v s)" for s by (intro w) (auto simp: Cons split: if_splits)
      then show ?thesis unfolding cmdSubst.simps Cons list.case Some option.case
        by (intro odef_if odef_bind odef_prod odef_option odef_simps)
    qed
  qed simp
qed simp

lemma cmd_total:
  assumes X: "totalExpander (expr C)" and H: "totalHandlers C"
    and l: "live cb (NCommand c)" and b: "bodiesReturn run (NCommand c)" and f: "loopFree (NCommand c)"
  shows "odef (cmd C run n cb c r)"
proof -
  obtain s st where s: "stop (ex_ctx (expr C)) r = (s, st)" by force
  have sub: "bodiesReturn run (NStmt x)" if "child (NCommand c) (NStmt x)" for x by (rule below_child(2) [OF that b])
  have lw: "live cb (NWord w)" if "child (NCommand c) (NWord w)" for w by (rule below_child(1) [OF that l])
  have "odef (case c of
             Subshell sts \<Rightarrow> execSubshell C run sts r
           | Block sts \<Rightarrow> stmts run sts r
           | CallExpr asgs args \<Rightarrow> map_option fst (callExpr C n cb asgs args [] [] r)
           | BinaryCmd op x y \<Rightarrow>
               (if op = AndStmt \<or> op = OrStmt then
                  (case run x r of
                     None \<Rightarrow> None
                   | Some r \<Rightarrow>
                       if interrupted r then Some r
                       else if ok (r_exit r) = (op = AndStmt) then run y r
                       else Some r)
                else if op = Pipe then execPipe C run x y r
                else Some r)
           | IfClause ic \<Rightarrow> execIfChain run ic r
           | ForClause sel loop body \<Rightarrow>
               (case loop of
                  Some (name, inToken, items) \<Rightarrow> execFor C run cb name inToken items body r
                | None \<Rightarrow> Some (fatalExitWith (OtherErr ''unsupported loop type'') r))
           | WhileClause until cond body \<Rightarrow> execWhileClause C run n until cond body r
           | OtherCommand oc \<Rightarrow> Some (fatalExitWith (OtherErr ''unsupported command node'') r))" for r
  proof (cases c)
    case (CallExpr asgs args)
    have "\<forall>a\<in>set asgs. live cb (NAssign a)" using below_child(1) [OF child.intros(3) l [unfolded CallExpr]] by blast
    moreover have "\<forall>w\<in>set args. live cb (NWord w)" using lw unfolding CallExpr by (auto intro: child.intros(4))
    ultimately show ?thesis unfolding CallExpr command.case by (intro odef_map callExpr_total X H) simp_all
  next
    case (Subshell sts)
    have "odef (stmts run sts s)" for s
      by (rule stmts_total) (use sub Subshell in \<open>auto intro: child.intros(5)\<close>)
    then show ?thesis unfolding Subshell command.case execSubshell_def Let_def by (intro odef_simps odef_prod odef_bind)
  next
    case (Block sts)
    show ?thesis unfolding Block command.case
      by (rule stmts_total) (use sub Block in \<open>auto intro: child.intros(6)\<close>)
  next
    case (IfClause ic)
    show ?thesis unfolding IfClause command.case
      by (rule execIfChain_total [OF below_child(2) [OF child.intros(7) b [unfolded IfClause]]])
  next
    case (ForClause sel loop body)
    have "odef (execFor C run cb name tok items body r)" if loop: "loop = Some (name, tok, items)" for name tok items
    proof -
      have "odef (expandFields (expr C) cb items r)"
        unfolding expandFields_def
        by (intro odef_map add_total X ballI lw) (simp add: ForClause loop child.intros(11))
      moreover have "odef (forIterations C run name body fs s)" for fs s
        by (rule forIterations_total) (use sub ForClause in \<open>auto intro: child.intros(12)\<close>)
      ultimately show ?thesis unfolding execFor_def by (intro odef_simps odef_bind odef_prod odef_if odef_map)
    qed
    then show ?thesis unfolding ForClause command.case by (cases loop) auto
  next
    case (WhileClause un cond body)
    then show ?thesis using f unfolding loopFree_def by blast
  next
    case (BinaryCmd op x y)
    have "odef (run x s)" "odef (run y s)" for s
      using sub [of x] sub [of y] unfolding BinaryCmd by (auto intro!: bodiesReturnD child.intros)
    then show ?thesis unfolding BinaryCmd command.case execPipe_def Let_def
      by (intro odef_simps odef_if odef_bind odef_prod odef_sum)
  qed simp
  then show ?thesis unfolding cmd_def s prod.case by (cases s) simp_all
qed

lemma stmtWith_total:
  assumes X: "totalExpander (expr C)" and H: "totalHandlers C" and l: "live cb (NStmt st)"
    and b: "\<And>c. child (NStmt st) (NCommand c) \<Longrightarrow> bodiesReturn run (NCommand c)" and f: "loopFree (NStmt st)"
  shows "odef (stmtWith C run n cb st r)"
proof -
  have "odef (stmtSync C run n cb st r)" for r
  proof (cases st)
    case (Stmt cm neg bg cp ds rds)
    have rds: "\<forall>rd\<in>set rds. live cb (NRedirect rd)" using below_child(1) [OF child.intros(2) l [unfolded Stmt]] by blast
    have other: "odef (case applyRedirects C cb rds [] r of None \<Rightarrow> None
        | Some (r, cls) \<Rightarrow> (case (ok (r_exit r), cm) of (True, Some c) \<Rightarrow> map_option (\<lambda>r. (r, cls)) (cmd C run n cb c r)
             | _ \<Rightarrow> Some (r, cls)))"
    proof (rule odef_bind [OF applyRedirects_total [OF X rds]])
      fix x assume "applyRedirects C cb rds [] r = Some x"
      have "odef (cmd C run n cb c s)" if "cm = Some c" for c s
      proof -
        have "child (NStmt st) (NCommand c)" unfolding Stmt that by (rule child.intros(1))
        then show ?thesis using below_child(1) [OF _ l] below_child(4) [OF _ f] b by (intro cmd_total X H)
      qed
      then show "odef (case x of (r, cls) \<Rightarrow> (case (ok (r_exit r), cm) of
          (True, Some c) \<Rightarrow> map_option (\<lambda>r. (r, cls)) (cmd C run n cb c r) | _ \<Rightarrow> Some (r, cls)))"
        by (cases x; cases cm) (auto split: bool.split)
    qed
    have e: "odef (case cm of Some (CallExpr asgs args) \<Rightarrow> callExpr C n cb asgs args rds [] r
      | _ \<Rightarrow> (case applyRedirects C cb rds [] r of None \<Rightarrow> None
        | Some (r, cls) \<Rightarrow> (case (ok (r_exit r), cm) of (True, Some c) \<Rightarrow> map_option (\<lambda>r. (r, cls)) (cmd C run n cb c r)
             | _ \<Rightarrow> Some (r, cls))))"
    proof (cases "\<exists>asgs args. cm = Some (CallExpr asgs args)")
      case True
      then obtain asgs args where cm: "cm = Some (CallExpr asgs args)" by blast
      have c: "live cb (NCommand (CallExpr asgs args))" by (rule below_child(1) [OF child.intros(1) l [unfolded Stmt cm]])
      show ?thesis unfolding cm option.case command.case
        using below_child(1) [OF child.intros(3) c] below_child(1) [OF child.intros(4) c] rds
        by (intro callExpr_total X H) blast+
    next
      case False
      show ?thesis
      proof (cases cm)
        case (Some c)
        show ?thesis using other False unfolding Some by (cases c) (simp_all only: option.case command.case, blast)
      qed (use other in simp)
    qed
    show ?thesis unfolding stmtSync_def Stmt stmt.case Let_def by (intro odef_bind [OF e] odef_prod odef_simps)
  qed
  then show ?thesis unfolding stmtWith_def by (intro odef_prod odef_bool odef_map odef_simps)
qed

lemma runStmt_total:
  assumes X: "totalExpander (expr C)" and H: "totalHandlers C"
  shows "plainNode (NStmt st) \<Longrightarrow> loopFree (NStmt st) \<Longrightarrow> size st \<le> n \<Longrightarrow> odef (runStmt C n st r)"
proof (induction n arbitrary: st r)
  case 0
  then show ?case by (cases st) simp
next
  case (Suc n)
  have run: "odef (runStmt C n s r)" if "child (NStmt st) k" "child\<^sup>*\<^sup>* k (NStmt s)" for k s r
  proof (rule Suc.IH)
    have up: "child\<^sup>*\<^sup>* (NStmt st) m" if "child\<^sup>*\<^sup>* (NStmt s) m" for m
      using \<open>child (NStmt st) k\<close> \<open>child\<^sup>*\<^sup>* k (NStmt s)\<close> that by (meson converse_rtranclp_into_rtranclp rtranclp_trans)
    show "plainNode (NStmt s)" "loopFree (NStmt s)"
      using Suc.prems(1,2) up unfolding plainNode_def loopFree_def by blast+
    have "nsize (NStmt s) < nsize (NStmt st)" by (rule below_smaller [OF that]) simp
    then show "size s \<le> n" using Suc.prems(3) by simp
  qed
  have subst: "odef (cmdSubst C (runStmt C n) n i sts s)" if p: "child\<^sup>*\<^sup>* (NStmt st) (NPart (CmdSubst i sts))" for i sts s
  proof -
    obtain k where k: "child (NStmt st) k" "child\<^sup>*\<^sup>* k (NPart (CmdSubst i sts))"
      using p by (cases rule: converse_rtranclpE) auto
    have "nsize (NPart (CmdSubst i sts)) < nsize (NStmt st)" by (rule below_smaller [OF k]) simp
    moreover have "plainNode (NPart (CmdSubst i sts))"
      using Suc.prems(1) rtranclp_trans [OF p] unfolding plainNode_def by blast
    moreover have "bodiesReturn (runStmt C n) (NPart (CmdSubst i sts))"
      using run [OF k(1) rtranclp_trans [OF k(2)]] unfolding bodiesReturn_def by blast
    ultimately show ?thesis using Suc.prems(3) by (intro cmdSubst_total [OF X]) simp_all
  qed
  show ?case unfolding runStmt.simps
  proof (rule stmtWith_total [OF X H _ _ Suc.prems(2)])
    show "live (cmdSubst C (runStmt C n) n) (NStmt st)"
      using Suc.prems(1) subst by (simp add: live_def substsReturn_def)
    show "bodiesReturn (runStmt C n) (NCommand c)" if "child (NStmt st) (NCommand c)" for c
      using run [OF that] by (simp add: bodiesReturn_def)
  qed
qed

end
