(* ===== verification/Shell_Demo.thy ===== *)
theory Shell_Demo
  imports Builtins_Basic Shell_Total
begin

text \<open>
  A concrete configuration, on which the interpreter runs: an expander for words made of literals
  and command substitutions, the builtins of \<open>Builtins_Basic\<close>, and the file system of the sandbox
  examples.  It shows that the contracts asked of an expander and of a registry can hold.
\<close>

fun demoParts :: "'w substCallback \<Rightarrow> syn_word \<Rightarrow> 'w shell \<Rightarrow> ('w shell \<times> (expErr + bytes)) option" where
  "demoParts cb [] r = Some (r, Inr [])"
| "demoParts cb (Lit v # ps) r = map_option (\<lambda>(r, x). (r, map_sum id (append v) x)) (demoParts cb ps r)"
| "demoParts cb (CmdSubst i sts # ps) r =
     (case cb i sts r of
        None \<Rightarrow> None
      | Some (r, Inl e) \<Rightarrow> Some (r, Inl e)
      | Some (r, Inr out) \<Rightarrow> map_option (\<lambda>(r, x). (r, map_sum id (append out) x)) (demoParts cb ps r))"
| "demoParts cb (_ # ps) r = Some (r, Inl (OtherExpErr ''unsupported''))"

definition demoFields :: "'w substCallback \<Rightarrow> syn_word \<Rightarrow> 'w shell \<Rightarrow> ('w shell \<times> bytes list \<times> fieldsEnd) option" where
  "demoFields cb w r =
     map_option (\<lambda>(r, x). case x of Inl e \<Rightarrow> (r, [], FieldsErr e) | Inr s \<Rightarrow> (r, [s], FieldsOk)) (demoParts cb w r)"

definition demoExpander :: "'w expander" where
  "demoExpander = \<lparr>ex_api = stdApi, ex_syntax = demoSyntax, VarString = vStr,
     FieldsSeq = (\<lambda>cb w. [demoFields cb w]), ex_Literal = demoParts, ex_Document = demoParts, ex_ctx = (\<lambda>_. None)\<rparr>"

definition demoConfig :: "demoFs config" where
  "demoConfig = \<lparr>expr = demoExpander, remediationMode = False, sandboxKernel = demoKernel, sandbox = Some demoSandbox,
     devNullInfo = Inl ErrPermission, sysPipe = (\<lambda>w. (w, Inr (100, 101))), sysFeed = (\<lambda>fd s w. w),
     openErrText = (\<lambda>p e. p), allowAllCommands = False, allowedCommands = [''true'', ''exit'', ''break'', ''echo''],
     elevatableCommands = [], elevate = None, Lookup = map_of basicBuiltins, Meta = (\<lambda>_. None), ResolveName = (\<lambda>_ _. []),
     newBuffer = (\<lambda>w. (w, 102)), readUpTo = (\<lambda>fd n w. (w, [], None))\<rparr>"

definition demoShell :: "demoFs shell" where
  "demoShell = Runner.extend demoRunner \<lparr>r_Dir = ''/data'', Params = [], r_stdin = 0, r_stdout = 1, inPipeline = False,
     inPipelineStage = False, inLoop = False, breakEnclosing = 0, contnEnclosing = 0, lastExpandExit = zeroExit,
     totalCount = 0, dispatchedCount = 0, unallowedCount = 0, unknownCount = 0, expansionByteCount = Some 0,
     fileRemovalCount = Some 0, activeFields = None, world = demoFs1\<rparr>"

definition simpleStmt :: "bytes list \<Rightarrow> stmt" where
  "simpleStmt ws = Stmt (Some (CallExpr [] (map (\<lambda>w. [Lit w]) ws))) False False False False []"

section \<open>The contracts hold\<close>

lemma demoParts_mono:
  assumes "cle cb cb'"
  shows "ole (demoParts cb w r) (demoParts cb' w r)"
proof (induction w arbitrary: r)
  case (Cons p w)
  have c: "ole (cb i sts r) (cb' i sts r)" for i sts r using assms by (simp add: cle_def)
  show ?case by (cases p; simp only: demoParts.simps; intro ole_refl ole_map Cons.IH ole_bind ole_prod ole_sum c)
qed simp

text \<open>What the callback keeps, the expansion of a word keeps.\<close>

lemma demoParts_rel:
  assumes refl: "\<And>r. R r r" and trans: "\<And>r s t. R r s \<Longrightarrow> R s t \<Longrightarrow> R r t"
    and cb: "\<And>i sts r r' res. cb i sts r = Some (r', res) \<Longrightarrow> R r r'"
  shows "demoParts cb w r = Some (r', x) \<Longrightarrow> R r r'"
proof (induction w arbitrary: r x)
  case Nil
  then show ?case using refl by simp
next
  case (Cons p w)
  show ?case
  proof (cases p)
    case (Lit v)
    then show ?thesis using Cons by auto
  next
    case (CmdSubst i sts)
    obtain s y where s: "cb i sts r = Some (s, y)" using Cons.prems CmdSubst by (auto split: option.splits)
    have rs: "R r s" by (rule cb [OF s])
    show ?thesis
    proof (cases y)
      case (Inr out)
      then obtain z where "demoParts cb w s = Some (r', z)" using Cons.prems CmdSubst s by auto
      then show ?thesis by (rule trans [OF rs Cons.IH])
    qed (use Cons.prems CmdSubst s rs in auto)
  qed (use Cons.prems refl in auto)
qed

lemma demoFields_parts: "demoFields cb w r = Some (r', fs, e) \<Longrightarrow> \<exists>x. demoParts cb w r = Some (r', x)"
  unfolding demoFields_def by (cases "demoParts cb w r") (auto split: sum.splits)

lemma demoParts_total:
  assumes "live cb (NWord w)"
  shows "odef (demoParts cb w r)"
proof -
  have s: "odef (cb i sts r)" if "CmdSubst i sts \<in> set w" for i sts r
  proof -
    have "child (NWord w) (NPart (CmdSubst i sts))" by (rule child.intros(20) [OF that])
    then show ?thesis using assms unfolding live_def substsReturn_def by (simp add: r_into_rtranclp)
  qed
  have "set v \<subseteq> set w \<Longrightarrow> odef (demoParts cb v r)" for v r
  proof (induction v arbitrary: r)
    case (Cons p v)
    then have rest: "odef (demoParts cb v r)" for r by simp
    show ?case
    proof (cases p)
      case (CmdSubst i sts)
      then have "odef (cb i sts r)" for r using s Cons.prems by simp
      then show ?thesis unfolding CmdSubst demoParts.simps
        by (intro odef_bind odef_prod odef_sum odef_map odef_simps rest)
    qed (use rest in simp_all)
  qed simp
  then show ?thesis by simp
qed

lemma demo_expander:
  "monoExpander (demoExpander :: 'w expander)" "frameExpander (demoExpander :: 'w expander)"
  "totalExpander (demoExpander :: 'w expander)"
proof -
  show "monoExpander (demoExpander :: 'w expander)"
    unfolding monoExpander_def demoExpander_def
    by (simp add: demoParts_mono demoFields_def) (intro allI impI ole_map demoParts_mono)
  have "frame A r r'" if "frameCb A cb" "demoParts cb w r = Some (r', x)" for A cb w and r :: "'w shell" and r' x
    by (rule demoParts_rel [where R = "frame A", OF _ frame_trans _ that(2)]) (use that(1) in \<open>unfold frameCb_def, simp_all, blast\<close>)
  then show "frameExpander (demoExpander :: 'w expander)"
    unfolding frameExpander_def demoExpander_def by (simp, blast dest: demoFields_parts)
  show "totalExpander (demoExpander :: 'w expander)"
    unfolding totalExpander_def demoExpander_def by (simp add: demoParts_total demoFields_def)
qed

lemma demo_lookup: "Lookup demoConfig name = Some fn \<Longrightarrow> (name, fn) \<in> set basicBuiltins"
  by (simp add: demoConfig_def map_of_SomeD)

lemma demo_handlers: "monoHandlers demoConfig" "frameHandlers demoConfig" "totalHandlers demoConfig"
proof -
  have e: "elevate demoConfig = None" by (simp add: demoConfig_def)
  show "monoHandlers demoConfig"
    unfolding monoHandlers_def e using basic_no_child [OF demo_lookup] by (metis ole_refl option.distinct(1))
  show "frameHandlers demoConfig" unfolding frameHandlers_def e using basic_frame [OF demo_lookup] by blast
  show "totalHandlers demoConfig" unfolding totalHandlers_def e odef_def using basic_total [OF demo_lookup] by blast
qed

lemma demo_expr: "expr demoConfig = demoExpander"
  by (simp add: demoConfig_def)

inductive_cases child_stmtE: "child (NStmt st) n"
inductive_cases child_callE: "child (NCommand (CallExpr asgs args)) n"
inductive_cases child_wordE: "child (NWord w) n"
inductive_cases child_litE: "child (NPart (Lit v)) n"

lemma simpleStmt_below:
  assumes "child\<^sup>*\<^sup>* (NStmt (simpleStmt ws)) n"
  shows "n = NStmt (simpleStmt ws) \<or> n = NCommand (CallExpr [] (map (\<lambda>w. [Lit w]) ws)) \<or>
    (\<exists>w. n = NWord [Lit w] \<or> n = NPart (Lit w))"
  using assms
proof (induction rule: rtranclp_induct)
  case (step m n)
  then show ?case by (auto simp: simpleStmt_def elim!: child_stmtE child_callE child_wordE child_litE)
qed simp

lemma simpleStmt_plain: "plainNode (NStmt (simpleStmt ws))" "loopFree (NStmt (simpleStmt ws))"
proof -
  have "supported True (NStmt (simpleStmt ws))" by (simp add: simpleStmt_def)
  then show "plainNode (NStmt (simpleStmt ws))" "loopFree (NStmt (simpleStmt ws))"
    unfolding plainNode_def loopFree_def by (auto dest!: simpleStmt_below)
qed

lemma demo_store: "storeOk stdApi demoShell"
  using roHeap_inv [of stdApi] roHeap_view(1) demo_undeclared
  by (simp add: storeOk_def runnerOk_def demoShell_def demoRunner_def Runner.defs)

text \<open>A command with its output sent to a file.\<close>

definition redirStmt :: "bytes list \<Rightarrow> bytes \<Rightarrow> stmt" where
  "redirStmt ws target =
     Stmt (Some (CallExpr [] (map (\<lambda>w. [Lit w]) ws))) False False False False [Redirect RdrOut None (Some [Lit target]) None]"

inductive_cases child_redirE: "child (NRedirect (Redirect op n w h)) m"

lemma redirStmt_below:
  assumes "child\<^sup>*\<^sup>* (NStmt (redirStmt ws target)) n"
  shows "n = NStmt (redirStmt ws target) \<or> n = NCommand (CallExpr [] (map (\<lambda>w. [Lit w]) ws)) \<or>
    n = NRedirect (Redirect RdrOut None (Some [Lit target]) None) \<or> (\<exists>w. n = NWord [Lit w] \<or> n = NPart (Lit w))"
  using assms
proof (induction rule: rtranclp_induct)
  case (step m n)
  then show ?case
    by (auto simp: redirStmt_def elim!: child_stmtE child_callE child_wordE child_litE child_redirE)
qed simp

lemma redirStmt_plain: "plainNode (NStmt (redirStmt ws target))" "loopFree (NStmt (redirStmt ws target))"
proof -
  have "supported True (NStmt (redirStmt ws target))" by (simp add: redirStmt_def)
  then show "plainNode (NStmt (redirStmt ws target))" "loopFree (NStmt (redirStmt ws target))"
    unfolding plainNode_def loopFree_def by (auto dest!: redirStmt_below)
qed

lemma demo_calm: "calmConfig id demoConfig"
proof -
  have p: "world r' = world r" if "calmCb id cb" "demoParts cb w r = Some (r', x)" for cb w and r :: "demoFs shell" and r' x
    by (rule demoParts_rel [where R = "\<lambda>r r'. world r' = world r", OF _ _ _ that(2)]) (use that(1) in \<open>unfold calmCb_def id_def, simp_all, blast\<close>)
  then have "calmExpander id (demoExpander :: demoFs expander)"
    unfolding calmExpander_def demoExpander_def by (simp, blast dest: demoFields_parts)
  moreover have "calmHandler id fn" if "Lookup demoConfig name = Some fn" for name fn
    using basic_world [OF demo_lookup [OF that]] unfolding calmHandler_def by fastforce
  ultimately show ?thesis
    unfolding calmConfig_def by (auto simp: demo_expr) (auto simp: demoConfig_def demoKernel_def)
qed

end
