(* ===== verification/Shell_Policy.thy ===== *)
theory Shell_Policy
  imports Shell_Exec
begin

text \<open>
  The command policy holds for whole scripts: replacing the handlers of commands that are not
  allowed, or that are for remediation mode only while the shell is read-only, changes nothing of
  any execution, whatever the script, the expander and the other builtins do.
\<close>

definition blocked :: "('w, 'c) config_scheme \<Rightarrow> bytes \<Rightarrow> bool" where
  "blocked C name \<longleftrightarrow> \<not> cmdAllowed C name \<or> remediationOnlyRefusal C name \<noteq> None"

definition sameUnblocked :: "('w, 'c) config_scheme \<Rightarrow> (bytes \<Rightarrow> 'w handler option) \<Rightarrow> bool" where
  "sameUnblocked C L \<longleftrightarrow>
     (\<forall>name. (L name = None) = (Lookup C name = None) \<and> (\<not> blocked C name \<longrightarrow> L name = Lookup C name))"

section \<open>Definitions that do not consult the registry\<close>

named_theorems no_lookup

lemma nl_fields [no_lookup]:
  "expr (C\<lparr>Lookup := L\<rparr>) = expr C" "remediationMode (C\<lparr>Lookup := L\<rparr>) = remediationMode C"
  "sandboxKernel (C\<lparr>Lookup := L\<rparr>) = sandboxKernel C" "sandbox (C\<lparr>Lookup := L\<rparr>) = sandbox C"
  "devNullInfo (C\<lparr>Lookup := L\<rparr>) = devNullInfo C" "sysPipe (C\<lparr>Lookup := L\<rparr>) = sysPipe C"
  "sysFeed (C\<lparr>Lookup := L\<rparr>) = sysFeed C" "openErrText (C\<lparr>Lookup := L\<rparr>) = openErrText C"
  "allowAllCommands (C\<lparr>Lookup := L\<rparr>) = allowAllCommands C" "allowedCommands (C\<lparr>Lookup := L\<rparr>) = allowedCommands C"
  "elevatableCommands (C\<lparr>Lookup := L\<rparr>) = elevatableCommands C" "elevate (C\<lparr>Lookup := L\<rparr>) = elevate C"
  "Meta (C\<lparr>Lookup := L\<rparr>) = Meta C" "ResolveName (C\<lparr>Lookup := L\<rparr>) = ResolveName C"
  "newBuffer (C\<lparr>Lookup := L\<rparr>) = newBuffer C" "readUpTo (C\<lparr>Lookup := L\<rparr>) = readUpTo C"
  by simp_all

lemma nl_closeFd [no_lookup]: "closeFd (C\<lparr>Lookup := L\<rparr>) = closeFd C"
  by (intro ext) (unfold closeFd_def no_lookup, rule refl)

lemma nl_open [no_lookup]: "runner_open (C\<lparr>Lookup := L\<rparr>) = runner_open C"
  by (intro ext) (unfold runner_open_def no_lookup, rule refl)

lemma nl_hdocExpand [no_lookup]: "hdocExpand (C\<lparr>Lookup := L\<rparr>) = hdocExpand C"
  by (intro ext) (unfold hdocExpand_def no_lookup, rule refl)

lemma nl_flushLines [no_lookup]: "flushLines (C\<lparr>Lookup := L\<rparr>) cb q ls = flushLines C cb q ls"
proof (induction ls)
  case (Cons l ls)
  show ?case
    by (intro ext) (unfold flushLines.simps no_lookup Cons.IH, rule refl)
qed (simp add: fun_eq_iff)

lemma nl_hdocContent [no_lookup]: "hdocContent (C\<lparr>Lookup := L\<rparr>) = hdocContent C"
  by (intro ext) (unfold hdocContent_def no_lookup, rule refl)

lemma nl_hdocReader [no_lookup]: "hdocReader (C\<lparr>Lookup := L\<rparr>) = hdocReader C"
  by (intro ext) (unfold hdocReader_def no_lookup, rule refl)

lemma nl_redirectWord [no_lookup]: "redirectWord (C\<lparr>Lookup := L\<rparr>) = redirectWord C"
  by (intro ext) (unfold redirectWord_def no_lookup, rule refl)

lemma nl_reject [no_lookup]: "rejectNonRegularRedirectTarget (C\<lparr>Lookup := L\<rparr>) = rejectNonRegularRedirectTarget C"
  by (intro ext) (unfold rejectNonRegularRedirectTarget_def no_lookup, rule refl)

lemma nl_openWriteTarget [no_lookup]: "openWriteTarget (C\<lparr>Lookup := L\<rparr>) = openWriteTarget C"
  by (intro ext) (unfold openWriteTarget_def no_lookup, rule refl)

lemma nl_redirByOp [no_lookup]: "redirByOp (C\<lparr>Lookup := L\<rparr>) = redirByOp C"
  by (intro ext) (unfold redirByOp_def openWriteRedirect_def openWriteAllRedirect_def no_lookup, rule refl)

lemma nl_redir [no_lookup]: "redir (C\<lparr>Lookup := L\<rparr>) = redir C"
  by (intro ext) (unfold redir_def no_lookup, rule refl)

lemma nl_applyRedirects [no_lookup]: "applyRedirects (C\<lparr>Lookup := L\<rparr>) cb rds = applyRedirects C cb rds"
proof (induction rds)
  case (Cons rd rds)
  show ?case
    by (intro ext) (unfold applyRedirects.simps no_lookup Cons.IH, rule refl)
qed (simp add: fun_eq_iff)

lemma nl_allowed [no_lookup]: "cmdAllowed (C\<lparr>Lookup := L\<rparr>) = cmdAllowed C"
  by (intro ext) (unfold cmdAllowed_def no_lookup, rule refl)

lemma nl_refusal [no_lookup]: "remediationOnlyRefusal (C\<lparr>Lookup := L\<rparr>) = remediationOnlyRefusal C"
  by (intro ext) (unfold remediationOnlyRefusal_def no_lookup, rule refl)

lemma nl_exec [no_lookup]: "exec (C\<lparr>Lookup := L\<rparr>) = exec C"
  by (intro ext) (unfold exec_def no_lookup, rule refl)

lemma nl_applyResult [no_lookup]: "applyResult (C\<lparr>Lookup := L\<rparr>) = applyResult C"
  by (intro ext) (unfold applyResult_def no_lookup, rule refl)

lemma nl_subshell [no_lookup]: "subshell (C\<lparr>Lookup := L\<rparr>) = subshell C"
  by (intro ext) (unfold subshell_def no_lookup, rule refl)

lemma nl_for [no_lookup]: "forIterations (C\<lparr>Lookup := L\<rparr>) run name body items = forIterations C run name body items"
proof (induction items)
  case (Cons i items)
  show ?case
    by (intro ext) (unfold forIterations.simps no_lookup Cons.IH, rule refl)
qed (simp add: fun_eq_iff)

lemma nl_execFor [no_lookup]: "execFor (C\<lparr>Lookup := L\<rparr>) = execFor C"
  by (intro ext) (unfold execFor_def no_lookup, rule refl)

lemma nl_while [no_lookup]: "whileIterations (C\<lparr>Lookup := L\<rparr>) run k un cond body old = whileIterations C run k un cond body old"
proof (induction k)
  case (Suc k)
  show ?case
    by (intro ext) (unfold whileIterations.simps no_lookup Suc.IH, rule refl)
qed (simp add: fun_eq_iff)

lemma nl_execWhile [no_lookup]: "execWhileClause (C\<lparr>Lookup := L\<rparr>) = execWhileClause C"
  by (intro ext) (unfold execWhileClause_def no_lookup, rule refl)

lemma nl_chargedOutput [no_lookup]: "chargedOutput (C\<lparr>Lookup := L\<rparr>) = chargedOutput C"
  by (intro ext) (unfold chargedOutput_def no_lookup, rule refl)

lemma nl_catShortcut [no_lookup]: "catShortcut (C\<lparr>Lookup := L\<rparr>) = catShortcut C"
  by (intro ext) (unfold catShortcut_def no_lookup, rule refl)

lemma nl_substResult [no_lookup]: "substResult (C\<lparr>Lookup := L\<rparr>) = substResult C"
  by (intro ext) (unfold substResult_def no_lookup, rule refl)

lemma nl_cmdSubst [no_lookup]: "cmdSubst (C\<lparr>Lookup := L\<rparr>) run n = cmdSubst C run n"
proof (induction n)
  case (Suc n)
  show ?case
    by (intro ext) (unfold cmdSubst.simps no_lookup Suc.IH, rule refl)
qed (simp add: fun_eq_iff)

lemma nl_assignVal [no_lookup]: "assignVal (C\<lparr>Lookup := L\<rparr>) = assignVal C"
  by (intro ext) (unfold assignVal_def no_lookup, rule refl)

lemma nl_setVarWithIndex [no_lookup]: "setVarWithIndex (C\<lparr>Lookup := L\<rparr>) = setVarWithIndex C"
  by (intro ext) (unfold setVarWithIndex_def no_lookup, rule refl)

lemma nl_bareAssigns [no_lookup]: "bareAssigns (C\<lparr>Lookup := L\<rparr>) cb asgs = bareAssigns C cb asgs"
proof (induction asgs)
  case (Cons a asgs)
  obtain nm ap ar ix v where a: "a = Assign nm ap ar ix v" by (cases a)
  show ?case unfolding a
    by (intro ext) (unfold bareAssigns.simps no_lookup Cons.IH, rule refl)
qed (simp add: fun_eq_iff)

lemma nl_inlineValues [no_lookup]: "inlineValues (C\<lparr>Lookup := L\<rparr>) cb asgs = inlineValues C cb asgs"
proof (induction asgs)
  case (Cons a asgs)
  obtain nm ap ar ix v where a: "a = Assign nm ap ar ix v" by (cases a)
  show ?case unfolding a
    by (intro ext) (unfold inlineValues.simps no_lookup Cons.IH, rule refl)
qed (simp add: fun_eq_iff)

lemma nl_inlineAssignments [no_lookup]: "inlineAssignments (C\<lparr>Lookup := L\<rparr>) = inlineAssignments C"
  by (intro ext) (unfold inlineAssignments_def no_lookup, rule refl)

lemma nl_install [no_lookup]: "installAssignments (C\<lparr>Lookup := L\<rparr>) vs = installAssignments C vs"
proof (induction vs)
  case (Cons v vs)
  obtain nm vr where v: "v = (nm, vr)" by (cases v)
  show ?case unfolding v
    by (intro ext) (unfold installAssignments.simps no_lookup Cons.IH, rule refl)
qed (simp add: fun_eq_iff)

lemma nl_callSetup [no_lookup]: "callSetup (C\<lparr>Lookup := L\<rparr>) = callSetup C"
  by (intro ext) (unfold callSetup_def no_lookup, rule refl)

lemma nl_bareCommand [no_lookup]: "bareCommand (C\<lparr>Lookup := L\<rparr>) = bareCommand C"
  by (intro ext) (unfold bareCommand_def no_lookup, rule refl)

lemma nl_execPipe [no_lookup]: "execPipe (C\<lparr>Lookup := L\<rparr>) = execPipe C"
  by (intro ext) (unfold execPipe_def no_lookup, rule refl)

lemma nl_execSubshell [no_lookup]: "execSubshell (C\<lparr>Lookup := L\<rparr>) = execSubshell C"
  by (intro ext) (unfold execSubshell_def no_lookup, rule refl)

section \<open>Dispatch\<close>

lemma runCmd_same:
  assumes "sameUnblocked C L"
  shows "runCmdWithStdin (C\<lparr>Lookup := L\<rparr>) n el = runCmdWithStdin C n el"
proof (induction n)
  case (Suc n)
  have L: "L name = Lookup C name" if "cmdAllowed C name" "remediationOnlyRefusal C name = None" for name
    using assms that by (simp add: sameUnblocked_def blocked_def)
  have N: "(L name = None) = (Lookup C name = None)" for name
    using assms by (simp add: sameUnblocked_def)
  show ?case
  proof (intro ext)
    fix inh dir name args si r
    show "runCmdWithStdin (C\<lparr>Lookup := L\<rparr>) (Suc n) el inh dir name args si r =
      runCmdWithStdin C (Suc n) el inh dir name args si r"
    proof (cases "cmdAllowed C name \<and> remediationOnlyRefusal C name = None")
      case True
      then have "Lookup (C\<lparr>Lookup := L\<rparr>) name = Lookup C name" using L by simp
      then show ?thesis by (unfold runCmdWithStdin.simps no_lookup Suc.IH) (simp only:)
    next
      case False
      then show ?thesis
        using N [of name] by (cases "Lookup C name"; cases "L name") (auto simp: no_lookup Let_def)
    qed
  qed
qed (simp add: fun_eq_iff)

lemma gates_same:
  assumes "sameUnblocked C L"
  shows "gates (C\<lparr>Lookup := L\<rparr>) el name r = gates C el name r"
proof (cases "blocked C name")
  case True
  then show ?thesis
    using assms by (auto simp: gates_def blocked_def sameUnblocked_def no_lookup Let_def split: option.split)
next
  case False
  then have "Lookup (C\<lparr>Lookup := L\<rparr>) name = Lookup C name" using assms by (simp add: sameUnblocked_def)
  then show ?thesis by (unfold gates_def no_lookup) (simp only:)
qed

lemma call_same:
  assumes "sameUnblocked C L"
  shows "call (C\<lparr>Lookup := L\<rparr>) n args setup r = call C n args setup r"
proof -
  have N: "(Lookup (C\<lparr>Lookup := L\<rparr>) name = None) = (Lookup C name = None)" for name
    using assms by (simp add: sameUnblocked_def)
  have cc: "callContext (C\<lparr>Lookup := L\<rparr>) = callContext C"
    using runCmd_same [OF assms] by (simp add: callContext_def fun_eq_iff no_lookup)
  have d: "dispatch (C\<lparr>Lookup := L\<rparr>) = dispatch C"
    by (intro ext) (unfold dispatch_def cc no_lookup, rule refl)
  show ?thesis by (unfold call_def no_lookup gates_same [OF assms] d N, rule refl)
qed

lemma callExpr_same:
  "sameUnblocked C L \<Longrightarrow> callExpr (C\<lparr>Lookup := L\<rparr>) = callExpr C"
  by (intro ext) (unfold callExpr_def call_same no_lookup, rule refl)

lemma stmtWith_same:
  assumes "sameUnblocked C L"
  shows "stmtWith (C\<lparr>Lookup := L\<rparr>) = stmtWith C"
proof -
  have "cmd (C\<lparr>Lookup := L\<rparr>) = cmd C"
    by (intro ext) (unfold cmd_def callExpr_same [OF assms] no_lookup, rule refl)
  then have "stmtSync (C\<lparr>Lookup := L\<rparr>) = stmtSync C"
    by (intro ext) (unfold stmtSync_def callExpr_same [OF assms] no_lookup, simp only:)
  then show ?thesis by (intro ext) (simp only: stmtWith_def no_lookup)
qed

end
