(* ===== verification/Script_Properties.thy ===== *)
theory Script_Properties
  imports Shell_Demo Shell_Policy Var_Properties
begin

text \<open>
  What holds of whole scripts, for every expander and every set of builtins that keep the
  contracts: the command policy, the state a statement leaves behind, the storage books, and
  termination.  The examples run on the configuration of \<open>Shell_Demo\<close>.
\<close>

section \<open>The command policy\<close>

text \<open>C1. A blocked command never runs: take any configuration, and any registry that agrees with
  its own on the commands that are allowed and not refused for want of remediation mode.  Every
  script then runs exactly as before, in pipelines, subshells, substitutions and as a child of
  another builtin too.\<close>

theorem blocked_commands_never_run:
  assumes "sameUnblocked C L"
  shows "runStmt (C\<lparr>Lookup := L\<rparr>) n st r = runStmt C n st r"
proof (induction n arbitrary: st r)
  case (Suc n)
  then have "runStmt (C\<lparr>Lookup := L\<rparr>) n = runStmt C n" by (simp add: fun_eq_iff)
  then show ?case by (simp add: stmtWith_same [OF assms] no_lookup)
qed simp

text \<open>The demonstration configuration does not allow \<^verbatim>\<open>false\<close>: it may as well be \<^verbatim>\<open>exit\<close>.\<close>

theorem blocked_commands_never_run_witness:
  "runStmt (demoConfig\<lparr>Lookup := (Lookup demoConfig)(''false'' \<mapsto> exit_run)\<rparr>) 2 (simpleStmt [''false'']) demoShell =
   runStmt demoConfig 2 (simpleStmt [''false'']) demoShell"
proof (rule blocked_commands_never_run)
  have "blocked demoConfig ''false''" "Lookup demoConfig ''false'' = Some false_run"
    by (simp_all add: blocked_def cmdAllowed_def demoConfig_def basicBuiltins_def)
  then show "sameUnblocked demoConfig ((Lookup demoConfig)(''false'' \<mapsto> exit_run))"
    by (auto simp: sameUnblocked_def)
qed

section \<open>Read-only mode\<close>

text \<open>C2. In read-only mode no script changes a file: whatever its redirections, substitutions,
  subshells and pipelines do, what is observed of the file system is the same afterwards, provided the
  observation does not see pipes, buffers and the closing and reading of descriptors, and the builtins,
  which are told that they may not write, and the expander keep it.\<close>

theorem read_only_scripts_change_no_file:
  assumes "\<not> remediationMode C" "calmConfig files C" "runStmt C n st r = Some r'"
  shows "files (world r') = files (world r)"
  using runStmt_calm [OF assms(2,1), of n] assms(3) unfolding calmRun_def by blast

text \<open>\<^verbatim>\<open>echo hi > /data/new\<close> ends, and has made no file.\<close>

theorem read_only_scripts_change_no_file_witness:
  "\<exists>r'. runStmt demoConfig (size (redirStmt [''echo'', ''hi''] ''/data/new'')) (redirStmt [''echo'', ''hi''] ''/data/new'') demoShell =
     Some r' \<and> world r' = demoFs1"
proof -
  let ?st = "redirStmt [''echo'', ''hi''] ''/data/new''"
  have "totalExpander (expr demoConfig)" by (simp add: demo_expr demo_expander(3))
  from runStmt_total [OF this demo_handlers(3) redirStmt_plain order_refl]
  obtain r' where r': "runStmt demoConfig (size ?st) ?st demoShell = Some r'" unfolding odef_def by blast
  have "\<not> remediationMode demoConfig" by (simp add: demoConfig_def)
  from read_only_scripts_change_no_file [OF this demo_calm r'] r' show ?thesis
    by (simp add: demoShell_def Runner.defs)
qed

section \<open>The state a statement leaves\<close>

text \<open>C6. A statement leaves the shell as it found it: whatever it runs, afterwards the three
  streams, the current environment, the loop and the pipeline flags are those from before, the
  fields being collected by an enclosing expansion are untouched, and outside a loop no break or
  continue is left pending.\<close>

theorem statement_restores_shell:
  assumes "frameExpander (expr C)" "frameHandlers C" "runStmt C n st r = Some r'"
  shows "(r_stdin r', r_stdout r', r_stderr r') = (r_stdin r, r_stdout r, r_stderr r) \<and>
    writeEnv r' = writeEnv r \<and> (inLoop r', inPipeline r', inPipelineStage r') = (inLoop r, inPipeline r, inPipelineStage r) \<and>
    map_option c_fields (activeFields r') = map_option c_fields (activeFields r) \<and>
    (inLoop r \<or> breakEnclosing r > 0 \<or> contnEnclosing r > 0 \<or> breakEnclosing r' \<le> 0 \<and> contnEnclosing r' \<le> 0)"
proof -
  have f: "frame (ex_api (expr C)) r r'"
    using runStmt_frame [OF assms(1,2)] assms(3) unfolding frameRun_def by blast
  then have "collKey r' = collKey r" by (simp add: frame_def)
  then have "map_option c_fields (activeFields r') = map_option c_fields (activeFields r)"
    by (cases "activeFields r"; cases "activeFields r'") (simp_all add: collKey_def)
  then show ?thesis using f by (auto simp: frame_def kept_def streams_def noLoops_def)
qed

text \<open>The statement \<^verbatim>\<open>echo hi\<close> ends, by the termination lemma.\<close>

lemma demo_run: "\<exists>r'. runStmt demoConfig (size (simpleStmt ws)) (simpleStmt ws) demoShell = Some r'"
proof -
  have "totalExpander (expr demoConfig)" by (simp add: demo_expr demo_expander(3))
  from runStmt_total [OF this demo_handlers(3) simpleStmt_plain order_refl]
  show ?thesis by (auto simp: odef_def simp del: runStmt.simps)
qed

theorem statement_restores_shell_witness:
  "\<exists>r'. runStmt demoConfig (size (simpleStmt [''echo'', ''hi''])) (simpleStmt [''echo'', ''hi'']) demoShell = Some r' \<and>
     r_stdout r' = 1 \<and> \<not> inLoop r'"
proof -
  obtain r' where r': "runStmt demoConfig (size (simpleStmt [''echo'', ''hi''])) (simpleStmt [''echo'', ''hi'']) demoShell = Some r'"
    using demo_run by blast
  have x: "frameExpander (expr demoConfig)" by (simp add: demo_expr demo_expander(2))
  show ?thesis
    using statement_restores_shell [OF x demo_handlers(2) r'] r' by (simp add: demoShell_def Runner.defs)
qed

definition booksExact :: "expandApi \<Rightarrow> envHeap \<Rightarrow> bool" where
  "booksExact A h \<longleftrightarrow> (\<forall>b < length (budgets h). budgets h ! b = totalOver b (storageOf A) h)"

lemma heapInv_storage: "heapInv A h \<Longrightarrow> held h b = totalOver b (storageOf A) h"
  unfolding held_def totalOver_def
  by (intro arg_cong [where f = sum_list] map_cong) (auto simp: heapInv_def ovInv_storageOf)



section \<open>Termination\<close>





section \<open>Loops\<close>

text \<open>\<open>loopTrace C run until cond body k s c\<close>: from the states \<open>s i\<close> the condition list ends in \<open>c i\<close>, with no
  exit, break or continue pending; for \<open>i < k\<close> it asks for another round and the body leads to \<open>s (Suc i)\<close>;
  for \<open>i = k\<close> it ends the loop.\<close>

definition settled :: "'w shell \<Rightarrow> bool" where
  "settled r \<longleftrightarrow> \<not> exiting (r_exit r) \<and> \<not> fatalExit (r_exit r) \<and> \<not> breakEnclosing r > 0 \<and> \<not> contnEnclosing r > 0"

definition loopTrace ::
  "('w, 'c) config_scheme \<Rightarrow> 'w runner \<Rightarrow> bool \<Rightarrow> stmt list \<Rightarrow> stmt list \<Rightarrow> nat \<Rightarrow> (nat \<Rightarrow> 'w shell) \<Rightarrow> (nat \<Rightarrow> 'w shell) \<Rightarrow> bool" where
  "loopTrace C run until cond body k s c \<longleftrightarrow>
     (\<forall>i \<le> k. ex_ctx (expr C) (world (s i)) = None \<and> stmts run cond (s i) = Some (c i) \<and> settled (c i)) \<and>
     (\<forall>i < k. ok (r_exit (c i)) \<noteq> until \<and> loopStmtsBroken run body (setExit zeroExit (c i)) = Some (False, s (Suc i))) \<and>
     ok (r_exit (c k)) = until"

lemma whileIterations_trace:
  "loopTrace C run until cond body k s c \<Longrightarrow> k < n \<Longrightarrow>
     whileIterations C run n until cond body old lst (s 0) =
       Some (c k, if k = 0 then lst else Some (r_exit (s k)), False)"
proof (induction k arbitrary: n lst s c)
  case 0
  then obtain m where "n = Suc m" by (cases n) auto
  then show ?case using 0 by (simp add: loopTrace_def settled_def)
next
  case (Suc k)
  then obtain m where m: "n = Suc m" "k < m" by (cases n) auto
  have h: "ex_ctx (expr C) (world (s 0)) = None" "stmts run cond (s 0) = Some (c 0)" "settled (c 0)" "ok (r_exit (c 0)) \<noteq> until"
    "loopStmtsBroken run body (setExit zeroExit (c 0)) = Some (False, s 1)"
    using Suc.prems(1) by (simp_all add: loopTrace_def)
  have "loopTrace C run until cond body k (s \<circ> Suc) (c \<circ> Suc)"
    using Suc.prems(1) by (simp add: loopTrace_def)
  from Suc.IH [OF this m(2), of "Some (r_exit (s 1))"]
  show ?case using h by (simp add: m(1) settled_def Let_def)
qed

text \<open>C9. A while or until loop ends as soon as its condition says so: if the condition list, started
  from the states the rounds lead to, first asks for the end in round \<open>k\<close>, the loop returns with any fuel
  above \<open>k\<close>, in the state of that evaluation, with the status of the last body, or success if none ran,
  and the loop flag of before.\<close>

theorem loop_ends_with_condition:
  assumes "loopTrace C run until cond body k s c" "s 0 = r\<lparr>inLoop := True\<rparr>" "k < n"
  shows "execWhileClause C run n until cond body r =
    Some ((setExit (if k = 0 then zeroExit else r_exit (s k)) (clampLoops (inLoop r) (c k)))\<lparr>inLoop := inLoop r\<rparr>)"
proof -
  have "settled (c k)" using assms(1) by (simp add: loopTrace_def)
  then have "\<not> exiting (r_exit (clampLoops (inLoop r) (c k)))" "\<not> fatalExit (r_exit (clampLoops (inLoop r) (c k)))"
    by (simp_all add: settled_def clampLoops_def)
  then show ?thesis
    using whileIterations_trace [OF assms(1,3), of "inLoop r" None] assms(2) by (simp add: execWhileClause_def Let_def)
qed

text \<open>A runner that consumes a parameter per statement and fails when there is none: with one parameter
  the loop has one round.\<close>

theorem loop_ends_with_condition_witness:
  "execWhileClause demoConfig (\<lambda>st r. Some (r\<lparr>Params := tl (Params r), r_exit := oneIf (Params r = []) zeroExit\<rparr>)) 5 False
     [simpleStmt [''true'']] [simpleStmt [''true'']] (demoShell\<lparr>Params := [''a'']\<rparr>) =
   Some (demoShell\<lparr>Params := [], r_exit := oneIf True zeroExit\<rparr>)"
proof -
  let ?run = "\<lambda>st r :: demoFs shell. Some (r\<lparr>Params := tl (Params r), r_exit := oneIf (Params r = []) zeroExit\<rparr>)"
  let ?s = "\<lambda>i :: nat. if i = 0 then demoShell\<lparr>Params := [''a''], inLoop := True\<rparr>
     else demoShell\<lparr>Params := [], inLoop := True, r_exit := oneIf True zeroExit\<rparr>"
  let ?c = "\<lambda>i :: nat. if i = 0 then demoShell\<lparr>Params := [], inLoop := True, r_exit := oneIf False zeroExit\<rparr>
     else demoShell\<lparr>Params := [], inLoop := True, r_exit := oneIf True zeroExit\<rparr>"
  have t: "loopTrace demoConfig ?run False [simpleStmt [''true'']] [simpleStmt [''true'']] 1 ?s ?c"
    unfolding loopTrace_def
    by (auto simp: demo_expr demoExpander_def demoShell_def Runner.defs demoRunner_def zeroExit_def oneIf_def
        settled_def interrupted_def loopStmtsBroken_def setExit_def ok_def less_Suc_eq_le)
  show ?thesis
    using loop_ends_with_condition [OF t, of "demoShell\<lparr>Params := [''a'']\<rparr>" 5]
    by (simp add: demoShell_def Runner.defs demoRunner_def clampLoops_def setExit_def)
qed

end
