(* ===== verification/Command_Config.thy ===== *)
theory Command_Config
  imports Shell_Exec
begin

text \<open>
  The configuration of commands: parsing the allowlist and the list of commands that may be
  elevated.  Names carry a namespace, as in \<^verbatim>\<open>rshell:echo\<close>.
\<close>

definition IndexByte :: "char \<Rightarrow> bytes \<Rightarrow> nat option" where
  "IndexByte c s = (if c \<in> set s then Some (length (takeWhile (\<lambda>x. x \<noteq> c) s)) else None)"

datatype configErr =
    EmptyCommandName | MissingNamespace bytes | MultipleColons bytes | UnknownNamespace bytes bytes
  | EmptyCommand bytes | ElevateCallbackRequired | InvalidElevatedCommand bytes

abbreviation chCOLON :: char where "chCOLON \<equiv> CHR '':''"

definition parseAllowedCommand :: "bytes \<Rightarrow> configErr + bytes" where
  "parseAllowedCommand n =
     (if n = [] then Inl EmptyCommandName
      else (case IndexByte chCOLON n of
              None \<Rightarrow> Inl (MissingNamespace n)
            | Some idx \<Rightarrow>
                (let ns = take idx n; c = drop (idx + 1) n in
                 if IndexByte chCOLON c \<noteq> None then Inl (MultipleColons n)
                 else if ns \<noteq> ''rshell'' then Inl (UnknownNamespace n ns)
                 else if c = [] then Inl (EmptyCommand n)
                 else Inr c)))"

text \<open>The map of allowed names, as the list of its keys in the order they were set.\<close>

fun parseAllowedCommands :: "bytes list \<Rightarrow> configErr + bytes list" where
  "parseAllowedCommands [] = Inr []"
| "parseAllowedCommands (n # ns) =
     (case parseAllowedCommand n of
        Inl e \<Rightarrow> Inl e
      | Inr c \<Rightarrow> (case parseAllowedCommands ns of Inl e \<Rightarrow> Inl e | Inr m \<Rightarrow> Inr (c # m)))"

definition AllowedCommands :: "bytes list \<Rightarrow> 'w config \<Rightarrow> configErr + 'w config" where
  "AllowedCommands names C =
     (case parseAllowedCommands names of Inl e \<Rightarrow> Inl e | Inr m \<Rightarrow> Inr (C\<lparr>allowedCommands := m\<rparr>))"

definition elevatedCommand :: "bytes \<Rightarrow> configErr + bytes" where
  "elevatedCommand n =
     (case IndexByte chCOLON n of
        None \<Rightarrow> Inl (InvalidElevatedCommand n)
      | Some separator \<Rightarrow>
          if separator \<noteq> length ''rshell'' \<or> IndexByte chCOLON (drop (separator + 1) n) \<noteq> None \<or>
             length n = length ''rshell:''
          then Inl (InvalidElevatedCommand n) else Inr (drop (separator + 1) n))"

fun elevatedNames :: "bytes list \<Rightarrow> configErr + bytes list" where
  "elevatedNames [] = Inr []"
| "elevatedNames (n # ns) =
     (case elevatedCommand n of
        Inl e \<Rightarrow> Inl e
      | Inr c \<Rightarrow> (case elevatedNames ns of Inl e \<Rightarrow> Inl e | Inr m \<Rightarrow> Inr (c # m)))"

definition SelectiveElevation ::
  "bytes list \<Rightarrow> (bytes \<Rightarrow> ('w shell \<Rightarrow> ('w shell \<times> Result) option) \<Rightarrow> 'w shell
     \<Rightarrow> ('w shell \<times> Result \<times> goError option) option) option \<Rightarrow> 'w config \<Rightarrow> configErr + 'w config" where
  "SelectiveElevation names el C =
     (case el of
        None \<Rightarrow> Inl ElevateCallbackRequired
      | Some f \<Rightarrow>
          (case elevatedNames names of
             Inl e \<Rightarrow> Inl e
           | Inr m \<Rightarrow> Inr (C\<lparr>elevate := Some f, elevatableCommands := m\<rparr>)))"

section \<open>What is accepted\<close>

lemma IndexByte_None [simp]: "IndexByte c s = None \<longleftrightarrow> c \<notin> set s"
  by (simp add: IndexByte_def)

lemma IndexByte_append: "c \<notin> set s \<Longrightarrow> IndexByte c (s @ c # t) = Some (length s)"
  unfolding IndexByte_def by (induction s) auto

lemma IndexByte_split:
  assumes "IndexByte c s = Some i"
  shows "s = take i s @ c # drop (i + 1) s" "c \<notin> set (take i s)"
proof -
  have "c \<in> set s" using assms by (simp add: IndexByte_def split: if_splits)
  then obtain u v where "s = u @ c # v" "c \<notin> set u" using split_list_first by metis
  moreover from this have "i = length u" using assms IndexByte_append by fastforce
  ultimately show "s = take i s @ c # drop (i + 1) s" "c \<notin> set (take i s)" by simp_all
qed

lemma parseAllowedCommand_iff:
  "parseAllowedCommand n = Inr c \<longleftrightarrow> n = ''rshell:'' @ c \<and> c \<noteq> [] \<and> chCOLON \<notin> set c"
proof
  assume p: "parseAllowedCommand n = Inr c"
  then obtain i where i: "IndexByte chCOLON n = Some i" "take i n = ''rshell''" "c = drop (i + 1) n" "c \<noteq> []" "chCOLON \<notin> set c"
    by (auto simp: parseAllowedCommand_def Let_def split: if_splits option.splits)
  then have "n = ''rshell'' @ chCOLON # c" using IndexByte_split(1) [OF i(1)] by simp
  then show "n = ''rshell:'' @ c \<and> c \<noteq> [] \<and> chCOLON \<notin> set c" using i(4,5) by simp
next
  assume "n = ''rshell:'' @ c \<and> c \<noteq> [] \<and> chCOLON \<notin> set c"
  then show "parseAllowedCommand n = Inr c"
    using IndexByte_append [of chCOLON "''rshell''" c] by (simp add: parseAllowedCommand_def Let_def)
qed

lemma parseAllowedCommands_iff:
  "parseAllowedCommands ns = Inr m \<longleftrightarrow> ns = map (append ''rshell:'') m \<and> (\<forall>c\<in>set m. c \<noteq> [] \<and> chCOLON \<notin> set c)"
proof (induction ns arbitrary: m)
  case (Cons n ns)
  have "parseAllowedCommands (n # ns) = Inr m \<longleftrightarrow>
      (\<exists>c m'. m = c # m' \<and> parseAllowedCommand n = Inr c \<and> parseAllowedCommands ns = Inr m')"
    by (cases "parseAllowedCommand n"; cases "parseAllowedCommands ns") auto
  then show ?case unfolding parseAllowedCommand_iff Cons.IH by (cases m) auto
qed auto

text \<open>The elevation list takes any namespace of six characters, which the allowlist refuses.\<close>

lemma elevation_namespace_unchecked:
  "elevatedNames [''system:rm''] = Inr [''rm'']"
  "parseAllowedCommands [''system:rm''] = Inl (UnknownNamespace ''system:rm'' ''system'')"
  by (simp_all add: elevatedCommand_def parseAllowedCommand_def IndexByte_def)

end
