(* ===== verification/Builtin_Args.thy ===== *)
theory Builtin_Args
  imports Builtins_Basic
begin

text \<open>
  What the builtins share around their arguments (\<^verbatim>\<open>builtins/builtins.go\<close>): the obsolete form of a
  count and the escaping of text that goes into diagnostics.
\<close>

section \<open>Obsolete counts\<close>

definition isDigit :: "char \<Rightarrow> bool" where
  "isDigit c \<longleftrightarrow> 48 \<le> (of_char c :: nat) \<and> (of_char c :: nat) \<le> 57"

definition NormalizeBareNumberArg :: "bytes list \<Rightarrow> bytes list \<Rightarrow> bytes list" where
  "NormalizeBareNumberArg args valueFlags =
     (case args of
        [] \<Rightarrow> args
      | a # rest \<Rightarrow>
          if a = ''--'' then args
          else if length a \<ge> 2 \<and> a ! 0 = CHR ''-'' \<and> isDigit (a ! 1) then ''-n'' # tl a # rest
          else args)"

text \<open>More than a bare number is rewritten.\<close>

lemma normalize_not_only_digits: "NormalizeBareNumberArg [''-5x''] vf = [''-n'', ''5x'']"
  by (simp add: NormalizeBareNumberArg_def isDigit_def)

section \<open>Diagnostics\<close>

definition IsControl :: "nat \<Rightarrow> bool" where
  "IsControl r \<longleftrightarrow> r < 0x20 \<or> (0x7F \<le> r \<and> r < 0xA0)"

text \<open>The format characters of Unicode (\<^verbatim>\<open>unicode.Cf\<close>), as ranges.\<close>

definition rangesCf :: "(nat \<times> nat) list" where
  "rangesCf = [(0xAD, 0xAD), (0x600, 0x605), (0x61C, 0x61C), (0x6DD, 0x6DD), (0x70F, 0x70F), (0x890, 0x891),
     (0x8E2, 0x8E2), (0x180E, 0x180E), (0x200B, 0x200F), (0x202A, 0x202E), (0x2060, 0x2064), (0x2066, 0x206F),
     (0xFEFF, 0xFEFF), (0xFFF9, 0xFFFB), (0x110BD, 0x110BD), (0x110CD, 0x110CD), (0x13430, 0x1343F),
     (0x1BCA0, 0x1BCA3), (0x1D173, 0x1D17A), (0xE0001, 0xE0001), (0xE0020, 0xE007F)]"

definition unsafeRune :: "nat \<Rightarrow> bool" where
  "unsafeRune r \<longleftrightarrow> IsControl r \<or> r = 0x2028 \<or> r = 0x2029 \<or> list_ex (\<lambda>(lo, hi). lo \<le> r \<and> r \<le> hi) rangesCf"

definition hexDigit :: "nat \<Rightarrow> char" where
  "hexDigit d = char_of (if d < 10 then 48 + d else 87 + d)"

function hexPad :: "nat \<Rightarrow> nat \<Rightarrow> bytes" where
  "hexPad w n = (if n < 16 \<and> w \<le> 1 then [hexDigit n] else hexPad (w - 1) (n div 16) @ [hexDigit (n mod 16)])"
  by auto
termination by (relation "measure (\<lambda>(w, n). w + n)") (auto simp: not_less)

declare hexPad.simps [simp del]

definition escapeRune :: "bool \<Rightarrow> nat \<Rightarrow> bytes" where
  "escapeRune escapeBackslash r =
     (if r = of_char chBS \<and> escapeBackslash then [chBS, chBS]
      else if r = of_char chNL then [chBS, CHR ''n'']
      else if r = of_char chCR then [chBS, CHR ''r'']
      else if r = of_char chTAB then [chBS, CHR ''t'']
      else if unsafeRune r then
        (if r > 0xFF then [chBS, CHR ''u''] @ hexPad 4 r else [chBS, CHR ''x''] @ hexPad 2 r)
      else encodeRune r)"

definition escapeUnsafeRunes :: "bytes \<Rightarrow> bool \<Rightarrow> bytes" where
  "escapeUnsafeRunes s escapeBackslash = concat (map (escapeRune escapeBackslash) (runes s))"

definition SafeOperand :: "bytes \<Rightarrow> bytes" where "SafeOperand s = escapeUnsafeRunes s True"

definition SafeMessage :: "bytes \<Rightarrow> bytes" where "SafeMessage s = escapeUnsafeRunes s False"

section \<open>UTF-8\<close>

definition scalarValue :: "nat \<Rightarrow> bool" where
  "scalarValue v \<longleftrightarrow> v < 0xD800 \<or> (0xDFFF < v \<and> v \<le> 0x10FFFF)"

lemma encode_bytes:
  "0x80 \<le> v \<Longrightarrow> v < 0x800 \<Longrightarrow> encodeRune v = map char_of [0xC0 + v div 64, 0x80 + v mod 64]"
  "0x800 \<le> v \<Longrightarrow> v < 0x10000 \<Longrightarrow> scalarValue v \<Longrightarrow>
     encodeRune v = map char_of [0xE0 + v div 4096, 0x80 + v div 64 mod 64, 0x80 + v mod 64]"
  "0x10000 \<le> v \<Longrightarrow> v \<le> 0x10FFFF \<Longrightarrow>
     encodeRune v = map char_of [0xF0 + v div 262144, 0x80 + v div 4096 mod 64, 0x80 + v div 64 mod 64, 0x80 + v mod 64]"
proof -
  assume "0x800 \<le> v" "v < 0x10000" "scalarValue v"
  moreover from this have "\<not> ((0xD800 \<le> v \<and> v \<le> 0xDFFF) \<or> v > 0x10FFFF)" by (auto simp: scalarValue_def)
  ultimately show "encodeRune v = map char_of [0xE0 + v div 4096, 0x80 + v div 64 mod 64, 0x80 + v mod 64]"
    unfolding encodeRune_def Let_def by (simp only: if_not_P if_P if_False not_less list.map)
next
  assume "0x10000 \<le> v" "v \<le> 0x10FFFF"
  moreover from this have "\<not> ((0xD800 \<le> v \<and> v \<le> 0xDFFF) \<or> v > 0x10FFFF)" "\<not> v < 0x80" "\<not> v < 0x800" by auto
  ultimately show "encodeRune v =
      map char_of [0xF0 + v div 262144, 0x80 + v div 4096 mod 64, 0x80 + v div 64 mod 64, 0x80 + v mod 64]"
    unfolding encodeRune_def Let_def by (simp only: if_not_P if_P if_False not_less list.map)
qed (simp add: encodeRune_def)

lemma mod_lead: "b < k \<Longrightarrow> (n * k + b) mod k = b" for b k n :: nat
  by simp

lemma decode2:
  assumes "2 \<le> b" "b < 32" "c1 < 64"
  shows "decodeRune (map char_of [0xC0 + b, 0x80 + c1] @ t) = (b * 64 + c1, 2)"
proof -
  have "(0xC0 + b) mod 32 = b" "(0x80 + c1) mod 64 = c1"
    using mod_lead [of b 32 6] mod_lead [of c1 64 2] assms by simp_all
  then show ?thesis using assms by (simp add: decodeRune_def contByte_def low6_def)
qed

lemma decode3:
  assumes "b < 16" "c1 < 64" "c2 < 64" "b = 0 \<Longrightarrow> 0x20 \<le> c1" "b = 13 \<Longrightarrow> c1 \<le> 0x1F"
  shows "decodeRune (map char_of [0xE0 + b, 0x80 + c1, 0x80 + c2] @ t) = (b * 4096 + c1 * 64 + c2, 3)"
proof -
  have "(0xE0 + b) mod 16 = b" "(0x80 + c1) mod 64 = c1" "(0x80 + c2) mod 64 = c2"
    using mod_lead [of b 16 14] mod_lead [of c1 64 2] mod_lead [of c2 64 2] assms by simp_all
  then show ?thesis using assms by (simp add: decodeRune_def contByte_def low6_def)
qed

lemma decode4:
  assumes "b \<le> 4" "c1 < 64" "c2 < 64" "c3 < 64" "b = 0 \<Longrightarrow> 0x10 \<le> c1" "b = 4 \<Longrightarrow> c1 \<le> 0xF"
  shows "decodeRune (map char_of [0xF0 + b, 0x80 + c1, 0x80 + c2, 0x80 + c3] @ t) =
    (b * 262144 + c1 * 4096 + c2 * 64 + c3, 4)"
proof -
  have "(0xF0 + b) mod 8 = b" "(0x80 + c1) mod 64 = c1" "(0x80 + c2) mod 64 = c2" "(0x80 + c3) mod 64 = c3"
    using mod_lead [of b 8 30] mod_lead [of c1 64 2] mod_lead [of c2 64 2] mod_lead [of c3 64 2] assms by simp_all
  then show ?thesis using assms by (simp add: decodeRune_def contByte_def low6_def)
qed

lemma decode_encode:
  assumes "scalarValue v"
  shows "decodeRune (encodeRune v @ t) = (v, length (encodeRune v))"
proof -
  consider "v < 0x80" | "0x80 \<le> v" "v < 0x800" | "0x800 \<le> v" "v < 0x10000" | "0x10000 \<le> v" "v \<le> 0x10FFFF"
    using assms unfolding scalarValue_def by linarith
  then show ?thesis
  proof cases
    case 1
    then show ?thesis by (simp add: encodeRune_def decodeRune_def)
  next
    case 2
    then have "2 \<le> v div 64" "v div 64 < 32" "v mod 64 < 64" "v div 64 * 64 + v mod 64 = v" by auto
    with decode2 [of "v div 64" "v mod 64" t] show ?thesis unfolding encode_bytes(1) [OF 2] by simp
  next
    case 3
    define w where "w = v div 64"
    have w: "w < 1024" "32 \<le> w" "w < 864 \<or> 896 \<le> w" "v = w * 64 + v mod 64"
      using 3 assms unfolding w_def scalarValue_def by auto
    have "w div 64 * 64 + w mod 64 = w" by simp
    then have "w div 64 \<le> 15" "w div 64 = 13 \<Longrightarrow> w mod 64 \<le> 31" "w div 64 = 0 \<Longrightarrow> 32 \<le> w mod 64" using w(1-3) by auto
    moreover have "w div 64 * 4096 + w mod 64 * 64 + v mod 64 = v" using w(4) \<open>w div 64 * 64 + w mod 64 = w\<close> by linarith
    moreover have d: "v div 4096 = w div 64" "v div 64 = w" unfolding w_def by (simp_all add: div_mult2_eq [symmetric])
    ultimately show ?thesis using decode3 [of "w div 64" "w mod 64" "v mod 64" t] 3
      unfolding encode_bytes(2) [OF 3 assms] d by simp
  next
    case 4
    define w where "w = v div 64"
    define u where "u = w div 64"
    have w: "w div 64 * 64 + w mod 64 = w" "v = w * 64 + v mod 64" unfolding w_def by simp_all
    have u: "u < 272" "16 \<le> u" "u div 64 * 64 + u mod 64 = u" using 4 unfolding u_def w_def by auto
    then have "u div 64 \<le> 4" "u div 64 = 4 \<Longrightarrow> u mod 64 \<le> 15" "u div 64 = 0 \<Longrightarrow> 16 \<le> u mod 64" by auto
    moreover have "u div 64 * 262144 + u mod 64 * 4096 + w mod 64 * 64 + v mod 64 = v"
      using w u(3) unfolding u_def [symmetric] by linarith
    moreover have d: "v div 262144 = u div 64" "v div 4096 = u" "v div 64 = w"
      unfolding u_def w_def by (simp_all add: div_mult2_eq [symmetric])
    ultimately show ?thesis using decode4 [of "u div 64" "u mod 64" "w mod 64" "v mod 64" t] 4
      unfolding encode_bytes(3) [OF 4] d by simp
  qed
qed

lemma encode_nonempty [simp]: "encodeRune v \<noteq> []"
  by (simp add: encodeRune_def Let_def)

lemma runes_encode: "scalarValue v \<Longrightarrow> runes (encodeRune v @ t) = v # runes t"
  by (subst runes.simps) (simp add: decode_encode)

lemma low6_lt: "low6 c < 64"
  by (simp add: low6_def)

lemma decode_scalar3:
  assumes "0xE0 \<le> b" "b \<le> 0xEF" "b = 0xED \<longrightarrow> contByte 0x80 0x9F c1" "x < 64"
  shows "scalarValue (b mod 16 * 4096 + low6 c1 * 64 + x)"
proof -
  obtain k where k: "b = 14 * 16 + k" "k < 16" using assms(1,2) by (auto simp: le_iff_add)
  have m: "b mod 16 = k" unfolding k(1) by (rule mod_lead) (rule k(2))
  have "low6 c1 \<le> 31" if "k = 13"
  proof -
    have "0x80 \<le> (of_char c1 :: nat)" "(of_char c1 :: nat) \<le> 0x9F" using assms(3) k that by (simp_all add: contByte_def)
    then obtain j where "of_char c1 = 2 * 64 + j" "j < (32 :: nat)" by (auto simp: le_iff_add)
    then show ?thesis using mod_lead [of j 64 2] by (simp add: low6_def)
  qed
  then show ?thesis using k(2) low6_lt [of c1] assms(4) unfolding m scalarValue_def
    by (cases "k < 13"; cases "k = 13") auto
qed

lemma decode_scalar4:
  assumes "0xF0 \<le> b" "b \<le> 0xF4" "contByte (if b = 0xF0 then 0x90 else 0x80) (if b = 0xF4 then 0x8F else 0xBF) c1" "x < 64" "y < 64"
  shows "scalarValue (b mod 8 * 262144 + low6 c1 * 4096 + x * 64 + y)"
proof -
  obtain k where k: "b = 30 * 8 + k" "k \<le> 4" using that [of "b - 240"] assms(1,2) by simp
  have m: "b mod 8 = k" unfolding k(1) by (rule mod_lead) (use k(2) in simp)
  have "0x80 \<le> (of_char c1 :: nat)" "(of_char c1 :: nat) \<le> 0xBF" using assms(3) by (auto simp: contByte_def split: if_splits)
  then obtain j where j: "of_char c1 = 2 * 64 + j" "j < (64 :: nat)" by (auto simp: le_iff_add)
  then have l: "low6 c1 = j" using mod_lead [of j 64 2] by (simp add: low6_def)
  have "k = 0 \<Longrightarrow> 16 \<le> j" "k = 4 \<Longrightarrow> j \<le> 15" using assms(3) j k by (auto simp: contByte_def)
  then show ?thesis using k(2) j(2) assms(4,5) unfolding m l scalarValue_def by (cases "k = 0"; cases "k = 4") auto
qed

lemma decode_scalar: "scalarValue (fst (decodeRune s))"
proof (cases s)
  case (Cons c0 s1)
  have e: "scalarValue runeError" by (simp add: scalarValue_def runeError_def)
  have t: "scalarValue (b mod 32 * 64 + low6 c)" for b c
  proof -
    have "b mod 32 < 32" by simp
    then show ?thesis using low6_lt [of c] unfolding scalarValue_def by linarith
  qed
  define b where "b = (of_char c0 :: nat)"
  consider "b < 0x80" | "0xC2 \<le> b" "b \<le> 0xDF" | "0xE0 \<le> b" "b \<le> 0xEF" | "0xF0 \<le> b" "b \<le> 0xF4"
    | "0x80 \<le> b" "b < 0xC2 \<or> 0xF4 < b" by linarith
  then show ?thesis
  proof cases
    case 1 then show ?thesis by (simp add: decodeRune_def Cons flip: b_def) (simp add: scalarValue_def)
  next
    case 2 then show ?thesis using e t by (auto simp: decodeRune_def Cons simp flip: b_def split: list.split)
  next
    case 3 then show ?thesis
      using e decode_scalar3 [OF 3 _ low6_lt] by (auto simp: decodeRune_def Cons simp flip: b_def split: list.split)
  next
    case 4 then show ?thesis
      using e decode_scalar4 [OF 4 _ low6_lt low6_lt] by (auto simp: decodeRune_def Cons simp flip: b_def split: list.split)
  next
    case 5 then show ?thesis using e by (auto simp: decodeRune_def Cons simp flip: b_def)
  qed
qed (simp add: decodeRune_def scalarValue_def runeError_def)

lemma runes_scalar: "r \<in> set (runes s) \<Longrightarrow> scalarValue r"
proof (induction s rule: runes.induct)
  case (1 s)
  then show ?case by (cases "s = []") (auto simp: runes.simps [of s] decode_scalar)
qed

lemma runes_ascii: "of_char c < (0x80 :: nat) \<Longrightarrow> runes (c # t) = of_char c # runes t"
  by (subst runes.simps) (simp add: decodeRune_def)

section \<open>Escaped text is harmless\<close>

definition cleanText :: "bytes \<Rightarrow> bool" where
  "cleanText t \<longleftrightarrow> (\<forall>u. runes (t @ u) = runes t @ runes u) \<and> (\<forall>r \<in> set (runes t). \<not> unsafeRune r)"

lemma clean_append: "cleanText s \<Longrightarrow> cleanText t \<Longrightarrow> cleanText (s @ t)"
  by (auto simp: cleanText_def)

lemma clean_ascii: "0x20 \<le> (of_char c :: nat) \<Longrightarrow> of_char c < (0x7F :: nat) \<Longrightarrow> cleanText [c]"
  by (simp add: cleanText_def runes_ascii unsafeRune_def IsControl_def rangesCf_def)

lemma clean_Cons: "0x20 \<le> (of_char c :: nat) \<Longrightarrow> of_char c < (0x7F :: nat) \<Longrightarrow> cleanText t \<Longrightarrow> cleanText (c # t)"
  using clean_append [OF clean_ascii, of c t] by simp

lemma clean_Nil: "cleanText []"
  by (simp add: cleanText_def)

lemma clean_hexDigit: "d < 16 \<Longrightarrow> cleanText [hexDigit d]"
  by (rule clean_ascii) (auto simp: hexDigit_def)

lemma clean_hexPad: "cleanText (hexPad w n)"
proof (induction w n rule: hexPad.induct)
  case (1 w n)
  then show ?case by (subst hexPad.simps) (auto simp: clean_hexDigit intro: clean_append)
qed

lemma clean_encode: "scalarValue r \<Longrightarrow> \<not> unsafeRune r \<Longrightarrow> cleanText (encodeRune r)"
  using runes_encode [of r "[]"] by (simp add: cleanText_def runes_encode)

lemma clean_escapeRune: "scalarValue r \<Longrightarrow> cleanText (escapeRune b r)"
  unfolding escapeRune_def by (auto intro!: clean_Cons clean_Nil clean_hexPad clean_encode)

text \<open>C12. Text escaped for a diagnostic is harmless: whatever the bytes of the operand, no rune of the escaped
  text is a control character, a line or paragraph separator or a format character, so an operand can
  neither start a new line of the diagnostics nor send a control sequence.\<close>

theorem escaped_operand_harmless:
  "list_all (\<lambda>r. \<not> unsafeRune r) (runes (SafeOperand s)) \<and> list_all (\<lambda>r. \<not> unsafeRune r) (runes (SafeMessage s))"
proof -
  have "cleanText (concat (map (escapeRune b) rs))" if "\<forall>r \<in> set rs. scalarValue r" for b rs
    using that by (induction rs) (auto simp: clean_Nil intro: clean_append clean_escapeRune)
  then have "cleanText (escapeUnsafeRunes s b)" for b
    unfolding escapeUnsafeRunes_def using runes_scalar by blast
  then show ?thesis by (auto simp: SafeOperand_def SafeMessage_def cleanText_def list_all_iff)
qed

end
