(* ===== verification/Stream_IO.thy ===== *)
theory Stream_IO
  imports Runner_Vars
begin

text \<open>
  Streams as the text builtins see them: a reader that hands out its content in pieces, the
  line scanner of the standard library over a split function, an output that may fail, and a
  context that may be cancelled between two checks.  The last section relates a circular array
  to the end of the sequence written to it.
\<close>

section \<open>Readers\<close>

datatype readStatus = More | AtEOF | ReadFail goError

type_synonym reads = "(bytes \<times> readStatus) list"

text \<open>\<^verbatim>\<open>io.Reader\<close>: a call gives at most as many bytes as asked for, and says whether the end or a failure came
  with them; the list holds what the calls give, and a piece that does not fit is handed out in parts.\<close>

fun Read :: "nat \<Rightarrow> reads \<Rightarrow> (bytes \<times> readStatus) \<times> reads" where
  "Read k [] = (([], AtEOF), [])"
| "Read k ((b, e) # rs) = (if length b \<le> k then ((b, e), rs) else ((take k b, More), (drop k b, e) # rs))"

fun content :: "reads \<Rightarrow> bytes" where
  "content [] = []"
| "content ((b, e) # rs) = b @ (if e = More then content rs else [])"

fun finalErr :: "reads \<Rightarrow> goError option" where
  "finalErr [] = None"
| "finalErr ((b, More) # rs) = finalErr rs"
| "finalErr ((b, AtEOF) # rs) = None"
| "finalErr ((b, ReadFail e) # rs) = Some e"

definition pending :: "reads \<Rightarrow> nat" where
  "pending rs = (\<Sum>(b, e) \<leftarrow> rs. Suc (length b))"

lemma Read_pending: "Read k rs = ((b, e), rs') \<Longrightarrow> 0 < k \<Longrightarrow> e = More \<Longrightarrow> pending rs' < pending rs"
  by (cases "(k, rs)" rule: Read.cases) (auto simp: pending_def split: if_splits)

lemma Read_length: "Read k rs = ((b, e), rs') \<Longrightarrow> length b \<le> k"
  by (cases "(k, rs)" rule: Read.cases) (auto split: if_splits)

lemma Read_more: "Read k rs = ((b, More), rs') \<Longrightarrow> content rs = b @ content rs' \<and> finalErr rs = finalErr rs'"
proof (cases "(k, rs)" rule: Read.cases)
  case (2 k' b' e rs'')
  assume "Read k rs = ((b, More), rs')"
  then show ?thesis using 2 by (cases e) (auto split: if_splits)
qed simp

lemma Read_eof: "Read k rs = ((b, AtEOF), rs') \<Longrightarrow> content rs = b \<and> finalErr rs = None"
  by (cases "(k, rs)" rule: Read.cases) (auto split: if_splits)

lemma Read_fail: "Read k rs = ((b, ReadFail e), rs') \<Longrightarrow> content rs = b \<and> finalErr rs = Some e"
  by (cases "(k, rs)" rule: Read.cases) (auto split: if_splits)

lemmas Read_results = Read_more Read_eof Read_fail

section \<open>Outputs and the context\<close>

record 'w streamEnv =
  cancelledAt :: "nat \<Rightarrow> goError option"
  stdoutWrite :: "bytes \<Rightarrow> 'w \<Rightarrow> 'w \<times> goError option"

record 'w stream =
  checks :: nat
  sink :: 'w

text \<open>\<^verbatim>\<open>ctx.Err()\<close>: the context is asked for the next time.\<close>

definition ctxErr :: "('w, 'e) streamEnv_scheme \<Rightarrow> 'w stream \<Rightarrow> goError option \<times> 'w stream" where
  "ctxErr E s = (cancelledAt E (checks s), s\<lparr>checks := Suc (checks s)\<rparr>)"

definition writeTo :: "('w, 'e) streamEnv_scheme \<Rightarrow> bytes \<Rightarrow> 'w stream \<Rightarrow> goError option \<times> 'w stream" where
  "writeTo E b s = (case stdoutWrite E b (sink s) of (w, e) \<Rightarrow> (e, s\<lparr>sink := w\<rparr>))"

fun writeAll :: "('w, 'e) streamEnv_scheme \<Rightarrow> bytes list \<Rightarrow> 'w stream \<Rightarrow> goError option \<times> 'w stream" where
  "writeAll E [] s = (None, s)"
| "writeAll E (b # bs) s =
     (case writeTo E b s of (Some e, s) \<Rightarrow> (Some e, s) | (None, s) \<Rightarrow> writeAll E bs s)"

text \<open>An output that takes everything, under a context that is never cancelled.\<close>

definition steady :: "bytes streamEnv" where
  "steady = \<lparr>cancelledAt = \<lambda>_. None, stdoutWrite = \<lambda>b w. (w @ b, None)\<rparr>"

lemma steady_simps [simp]:
  "ctxErr steady s = (None, s\<lparr>checks := Suc (checks s)\<rparr>)"
  "writeTo steady b s = (None, s\<lparr>sink := sink s @ b\<rparr>)"
  by (simp_all add: ctxErr_def writeTo_def steady_def)

lemma cancelledAt_steady [simp]: "cancelledAt steady k = None"
  by (simp add: steady_def)

lemma writeAll_steady [simp]: "writeAll steady bs s = (None, s\<lparr>sink := sink s @ concat bs\<rparr>)"
  by (induction bs arbitrary: s) simp_all

section \<open>The line scanner\<close>

text \<open>\<^verbatim>\<open>bufio.Scanner\<close> with a buffer of at most \<open>limit\<close> bytes: the split function sees what fits the buffer; when
  the buffer is full and gives no token the scan fails, and at the end of the input or a failure it
  sees the rest once more, as the last of the data.  The results are the tokens and \<^verbatim>\<open>Err()\<close>.\<close>

definition ErrTooLong :: goError where "ErrTooLong = OtherErr ''bufio.Scanner: token too long''"

type_synonym splitFunc = "bytes \<Rightarrow> bool \<Rightarrow> nat \<times> bytes option"

function scanTokens :: "nat \<Rightarrow> splitFunc \<Rightarrow> bytes \<Rightarrow> goError option \<Rightarrow> bytes list \<times> goError option" where
  "scanTokens limit split data e =
     (case split (take limit data) False of
        (Suc n, Some tok) \<Rightarrow>
          if data = [] then ([], e)
          else (let (ts, e') = scanTokens limit split (drop (Suc n) data) e in (tok # ts, e'))
      | _ \<Rightarrow>
          if limit \<le> length data then ([], Some ErrTooLong)
          else (case split data True of
                  (Suc n, Some tok) \<Rightarrow>
                    if data = [] then ([], e)
                    else (let (ts, e') = scanTokens limit split (drop (Suc n) data) e in (tok # ts, e'))
                | _ \<Rightarrow> ([], e)))"
  by pat_completeness auto
termination by (relation "measure (\<lambda>(limit, split, data, e). length data)") auto

declare scanTokens.simps [simp del]

section \<open>Circular arrays\<close>

definition lastn :: "nat \<Rightarrow> 'a list \<Rightarrow> 'a list" where
  "lastn n xs = drop (length xs - n) xs"

lemma lastn_all [simp]: "length xs \<le> n \<Longrightarrow> lastn n xs = xs"
  by (simp add: lastn_def)

lemma length_lastn [simp]: "length (lastn n xs) = min n (length xs)"
  by (simp add: lastn_def min_def)

text \<open>The slots hold the last elements of \<open>xs\<close>, element \<open>j\<close> at \<open>j\<close> modulo the size.\<close>

definition ringHolds :: "'a list \<Rightarrow> 'a list \<Rightarrow> bool" where
  "ringHolds slots xs \<longleftrightarrow>
     (\<forall>j < length xs. length xs - length slots \<le> j \<longrightarrow> slots ! (j mod length slots) = xs ! j)"

lemma ringHolds_Nil [simp]: "ringHolds slots []"
  by (simp add: ringHolds_def)

lemma mod_window:
  fixes j n k :: nat
  assumes "j < n" "n \<le> j + k" "j mod k = n mod k"
  shows "n = j + k"
proof -
  have "k dvd n - j" using assms(1,3) by (metis mod_eq_dvd_iff_nat less_imp_le)
  moreover have "0 < n - j" "n - j \<le> k" using assms(1,2) by auto
  ultimately have "n - j = k" by (meson dvd_imp_le le_antisym)
  then show ?thesis using assms(1) by simp
qed

lemma ringHolds_push:
  assumes "ringHolds slots xs" "slots \<noteq> []"
  shows "ringHolds (slots[length xs mod length slots := x]) (xs @ [x])"
  unfolding ringHolds_def
proof (intro allI impI)
  fix j assume j: "j < length (xs @ [x])" "length (xs @ [x]) - length (slots[length xs mod length slots := x]) \<le> j"
  show "slots[length xs mod length slots := x] ! (j mod length (slots[length xs mod length slots := x])) = (xs @ [x]) ! j"
  proof (cases "j = length xs")
    case False
    then have "j < length xs" "length xs < j + length slots" using j by auto
    moreover from this have "j mod length slots \<noteq> length xs mod length slots"
      using mod_window [of j "length xs" "length slots"] by auto
    ultimately show ?thesis using assms(1) by (simp add: ringHolds_def nth_append)
  qed (use assms(2) in simp)
qed

lemma ringHolds_emit:
  assumes "ringHolds slots xs" "k \<le> length slots" "k \<le> length xs"
  shows "map (\<lambda>i. slots ! ((length xs - k + i) mod length slots)) [0..<k] = lastn k xs"
  using assms by (intro nth_equalityI) (simp_all add: ringHolds_def lastn_def)

end
