(* ===== verification/Tail.thy ===== *)
theory Tail
  imports Builtin_Args Stream_IO
begin

text \<open>
  The builtin \<^verbatim>\<open>tail\<close> (\<^verbatim>\<open>builtins/tail/tail.go\<close>): counts with their suffixes, the flags that remember their
  order, the last lines through a ring buffer, the last bytes through a circular buffer, and the
  offset modes.  Parsing the command line into flags is the flag package; its calls of \<^verbatim>\<open>Set\<close> are modelled.
\<close>

section \<open>Limits\<close>

definition MaxCount :: int where "MaxCount = 2147483647"
definition MaxLineBytes :: nat where "MaxLineBytes = 1048576"
definition MaxRingLines :: nat where "MaxRingLines = 100000"
definition MaxRingBytes :: nat where "MaxRingBytes = 5242880"
definition MaxBytesBuffer :: nat where "MaxBytesBuffer = 5242880"
definition MaxTotalReadBytes :: nat where "MaxTotalReadBytes = 268435456"

lemmas limit_defs = MaxLineBytes_def MaxRingLines_def MaxRingBytes_def MaxBytesBuffer_def MaxTotalReadBytes_def

definition tail_normalizeArgs :: "bytes list \<Rightarrow> bytes list" where
  "tail_normalizeArgs args = NormalizeBareNumberArg args [''-n'', ''-c'', ''--lines'', ''--bytes'']"

section \<open>Counts\<close>

record countMode =
  cm_n :: int
  cm_offset :: bool

text \<open>\<^verbatim>\<open>strconv.ParseUint\<close> and \<^verbatim>\<open>strconv.ParseInt\<close> in base 10 with 64 bits.\<close>

datatype numErr = ErrSyntax | ErrRange

definition ParseUint :: "bytes \<Rightarrow> numErr + nat" where
  "ParseUint s =
     (if s = [] then Inl ErrSyntax
      else (case digits 0 s of None \<Rightarrow> Inl ErrSyntax | Some n \<Rightarrow> if n < 2 ^ 64 then Inr n else Inl ErrRange))"

definition ParseInt :: "bytes \<Rightarrow> numErr + int" where
  "ParseInt s =
     (let neg = (s \<noteq> [] \<and> hd s = CHR ''-'');
          body = (if s \<noteq> [] \<and> (hd s = CHR ''-'' \<or> hd s = CHR ''+'') then tl s else s)
      in case ParseUint body of
           Inl e \<Rightarrow> Inl e
         | Inr un \<Rightarrow>
             if \<not> neg \<and> un \<ge> 2 ^ 63 then Inl ErrRange
             else if neg \<and> un > 2 ^ 63 then Inl ErrRange
             else Inr (if neg then - int un else int un))"

definition countMultiplier :: "bytes \<Rightarrow> int option" where
  "countMultiplier s =
     (if s = ''b'' then Some 512
      else if s \<in> {''kB'', ''KB''} then Some 1000
      else if s \<in> {''k'', ''K'', ''KiB''} then Some 1024
      else if s = ''MB'' then Some 1000000
      else if s \<in> {''m'', ''M'', ''MiB''} then Some 1048576
      else if s = ''GB'' then Some 1000000000
      else if s \<in> {''G'', ''GiB''} then Some 1073741824
      else if s = ''TB'' then Some 1000000000000
      else if s \<in> {''T'', ''TiB''} then Some 1099511627776
      else if s = ''PB'' then Some 1000000000000000
      else if s \<in> {''P'', ''PiB''} then Some 1125899906842624
      else if s = ''EB'' then Some 1000000000000000000
      else if s \<in> {''E'', ''EiB''} then Some 1152921504606846976
      else if s \<in> {''ZB'', ''Z'', ''ZiB'', ''YB'', ''Y'', ''YiB''} then Some 0
      else None)"

text \<open>The number before the suffix.\<close>

definition countNumber :: "bool \<Rightarrow> bytes \<Rightarrow> nat \<Rightarrow> bytes \<Rightarrow> int option" where
  "countNumber isOffset parseStr numEnd sfx =
     (if numEnd = 0 then (if sfx = [] \<or> isOffset then None else Some 1)
      else if numEnd = 1 \<and> hd parseStr = CHR ''-'' then (if sfx = [] then None else Some (- 1))
      else (case ParseInt (take numEnd parseStr) of
              Inr n \<Rightarrow> Some n
            | Inl ErrSyntax \<Rightarrow> None
            | Inl ErrRange \<Rightarrow>
                if sfx \<noteq> [] then None
                else (let absStr = take numEnd parseStr;
                          absStr = (if absStr \<noteq> [] \<and> hd absStr = CHR ''-'' then tl absStr else absStr)
                      in case ParseUint absStr of Inr _ \<Rightarrow> Some MaxCount | Inl _ \<Rightarrow> None)))"

text \<open>The number with the suffix applied; the minimum of 64 bits has no absolute value.\<close>

definition scaleCount :: "bytes \<Rightarrow> int \<Rightarrow> int option" where
  "scaleCount sfx n =
     (if sfx = [] then Some n
      else (case countMultiplier sfx of
              None \<Rightarrow> None
            | Some factor \<Rightarrow>
                if n = - (2 ^ 63) then None
                else (let n = (if n < 0 then - n else n) in
                      if factor = 0 then (if n \<noteq> 0 then None else Some 0)
                      else if n > MaxCount div factor then Some MaxCount
                      else Some (n * factor))))"

definition neg64 :: "int \<Rightarrow> int" where "neg64 n = (if n = - (2 ^ 63) then n else - n)"

definition clampCount :: "int \<Rightarrow> int" where
  "clampCount n =
     (let n = (if n < 0 then (let n = neg64 n in if n < 0 then MaxCount else n) else n)
      in if n > MaxCount then MaxCount else n)"

definition parseCount :: "bytes \<Rightarrow> countMode option" where
  "parseCount s =
     (if s = [] then None
      else
        (let isOffset = (hd s = CHR ''+'');
             parseStr = (if isOffset then tl s else s) in
         if isOffset \<and> (parseStr = [] \<or> hd parseStr = CHR ''+'' \<or> hd parseStr = CHR ''-'') then None
         else
           (let signEnd = (if parseStr \<noteq> [] \<and> hd parseStr = CHR ''-'' then 1 else 0);
                numEnd = signEnd + length (takeWhile isDigit (drop signEnd parseStr));
                sfx = drop numEnd parseStr in
            case countNumber isOffset parseStr numEnd sfx of
              None \<Rightarrow> None
            | Some n \<Rightarrow>
                (case scaleCount sfx n of
                   None \<Rightarrow> None
                 | Some n \<Rightarrow> Some \<lparr>cm_n = clampCount n, cm_offset = isOffset\<rparr>))))"

section \<open>Flags\<close>

text \<open>The flags of a pair share the counter \<open>seq\<close>, which is threaded through.\<close>

record modeFlag =
  mf_val :: bytes
  mf_pos :: nat
  offsetSeen :: bool
  invalid :: bytes
  hasInvalid :: bool
  invalidPos :: nat

definition newModeFlag :: "bytes \<Rightarrow> modeFlag" where
  "newModeFlag defaultVal =
     \<lparr>mf_val = defaultVal, mf_pos = 0, offsetSeen = False, invalid = [], hasInvalid = False, invalidPos = 0\<rparr>"

definition modeFlag_Set :: "bytes \<Rightarrow> nat \<Rightarrow> modeFlag \<Rightarrow> nat \<times> modeFlag" where
  "modeFlag_Set s seq f =
     (let f = f\<lparr>mf_val := s\<rparr>;
          f = (if s \<noteq> [] \<and> hd s = CHR ''+'' then f\<lparr>offsetSeen := True\<rparr> else f);
          seq = Suc seq;
          f = f\<lparr>mf_pos := seq\<rparr>;
          f = (if \<not> hasInvalid f \<and> parseCount s = None
               then f\<lparr>invalid := s, hasInvalid := True, invalidPos := seq\<rparr> else f)
      in (seq, f))"

record headerFlag =
  hf_pos :: nat

definition headerFlagSentinel :: bytes where "headerFlagSentinel = [CHR 0x01]"

definition headerFlag_Set :: "bytes \<Rightarrow> nat \<Rightarrow> headerFlag \<Rightarrow> goError + nat \<times> headerFlag" where
  "headerFlag_Set s seq f =
     (if s \<noteq> headerFlagSentinel then Inl (OtherErr ''does not take a value'')
      else Inr (Suc seq, f\<lparr>hf_pos := Suc seq\<rparr>))"

definition reportLinesInvalidFirst :: "modeFlag \<Rightarrow> modeFlag \<Rightarrow> bool" where
  "reportLinesInvalidFirst lines bytes =
     (if \<not> hasInvalid lines then False
      else if \<not> hasInvalid bytes then True
      else invalidPos lines < invalidPos bytes)"

section \<open>The last lines\<close>

definition scanPreserving :: "char \<Rightarrow> splitFunc" where
  "scanPreserving d data atEOF =
     (if atEOF \<and> data = [] then (0, None)
      else if d \<in> set data then (let i = length (takeWhile (\<lambda>b. b \<noteq> d) data) in (i + 1, Some (take (i + 1) data)))
      else if atEOF then (length data, Some data)
      else (0, None))"

definition scanLinesPreservingNewline :: splitFunc where
  "scanLinesPreservingNewline = scanPreserving chNL"

definition scanNULPreservingNUL :: splitFunc where
  "scanNULPreservingNUL = scanPreserving (CHR 0x00)"

definition tailTokens :: "bool \<Rightarrow> reads \<Rightarrow> bytes list \<times> goError option" where
  "tailTokens nullDelim rs =
     scanTokens MaxLineBytes (if nullDelim then scanNULPreservingNUL else scanLinesPreservingNewline) (content rs) (finalErr rs)"

definition errReadLimit :: goError where "errReadLimit = OtherErr ''input too large: read limit exceeded''"
definition errLineBuffer :: goError where "errLineBuffer = OtherErr ''input too large: line buffer limit exceeded''"
definition errRingMemory :: goError where "errRingMemory = OtherErr ''input too large: ring buffer memory limit exceeded''"
definition errByteBuffer :: goError where "errByteBuffer = OtherErr ''input too large: byte buffer limit exceeded''"

record lineRing =
  ring :: "bytes list"
  ringHead :: nat
  ringCount :: nat
  ringBytes :: nat
  totalRead :: nat

definition ringSizeFor :: "int \<Rightarrow> nat" where
  "ringSizeFor cnt = (if cnt < int MaxRingLines then nat cnt else MaxRingLines)"

definition newRing :: "nat \<Rightarrow> lineRing" where
  "newRing ringSize = \<lparr>ring = replicate ringSize [], ringHead = 0, ringCount = 0, ringBytes = 0, totalRead = 0\<rparr>"

text \<open>One token into the ring: the guards, the eviction of the oldest line, the new line.\<close>

definition ringPush :: "int \<Rightarrow> bool \<Rightarrow> bytes \<Rightarrow> lineRing \<Rightarrow> goError + lineRing" where
  "ringPush cnt isRegularFile raw R =
     (let ringSize = ringSizeFor cnt;
          R = R\<lparr>totalRead := totalRead R + length raw\<rparr> in
      if \<not> isRegularFile \<and> totalRead R > MaxTotalReadBytes then Inl errReadLimit
      else if ringCount R = ringSize \<and> int ringSize < cnt then Inl errLineBuffer
      else
        (let R = (if ringCount R = ringSize then R\<lparr>ringBytes := ringBytes R - length (ring R ! ringHead R)\<rparr> else R);
             R = R\<lparr>ring := (ring R)[ringHead R := raw]\<rparr>;
             R = R\<lparr>ringBytes := ringBytes R + length (ring R ! ringHead R)\<rparr> in
         if ringBytes R > MaxRingBytes then Inl errRingMemory
         else
           (let R = R\<lparr>ringHead := (ringHead R + 1) mod ringSize\<rparr>
            in Inr (if ringCount R < ringSize then R\<lparr>ringCount := ringCount R + 1\<rparr> else R))))"

fun ringLoop :: "('w, 'e) streamEnv_scheme \<Rightarrow> int \<Rightarrow> bool \<Rightarrow> bytes list \<Rightarrow> lineRing \<Rightarrow> 'w stream \<Rightarrow> (goError + lineRing) \<times> 'w stream" where
  "ringLoop E cnt isRegularFile [] R s = (Inr R, s)"
| "ringLoop E cnt isRegularFile (raw # ts) R s =
     (case ctxErr E s of
        (Some e, s) \<Rightarrow> (Inl e, s)
      | (None, s) \<Rightarrow>
          (case ringPush cnt isRegularFile raw R of
             Inl e \<Rightarrow> (Inl e, s)
           | Inr R \<Rightarrow> ringLoop E cnt isRegularFile ts R s))"

definition readLastLines ::
  "('w, 'e) streamEnv_scheme \<Rightarrow> reads \<Rightarrow> int \<Rightarrow> bool \<Rightarrow> bool \<Rightarrow> 'w stream \<Rightarrow> goError option \<times> 'w stream" where
  "readLastLines E rs cnt nullDelim isRegularFile s =
     (if cnt = 0 then (None, s)
      else
        (let ringSize = ringSizeFor cnt; (ts, scErr) = tailTokens nullDelim rs in
         case ringLoop E cnt isRegularFile ts (newRing ringSize) s of
           (Inl e, s) \<Rightarrow> (Some e, s)
         | (Inr R, s) \<Rightarrow>
             (case scErr of
                Some e \<Rightarrow> (Some e, s)
              | None \<Rightarrow>
                  (let start = (ringHead R + ringSize - ringCount R) mod ringSize
                   in writeAll E (map (\<lambda>i. ring R ! ((start + i) mod ringSize)) [0..<ringCount R]) s))))"

fun skipLoop :: "('w, 'e) streamEnv_scheme \<Rightarrow> int \<Rightarrow> int \<Rightarrow> bytes list \<Rightarrow> 'w stream \<Rightarrow> goError option \<times> 'w stream" where
  "skipLoop E skipCount skipped [] s = (None, s)"
| "skipLoop E skipCount skipped (tok # ts) s =
     (case ctxErr E s of
        (Some e, s) \<Rightarrow> (Some e, s)
      | (None, s) \<Rightarrow>
          if skipped < skipCount then skipLoop E skipCount (skipped + 1) ts s
          else (case writeTo E tok s of (Some e, s) \<Rightarrow> (Some e, s) | (None, s) \<Rightarrow> skipLoop E skipCount skipped ts s))"

definition skipLines :: "('w, 'e) streamEnv_scheme \<Rightarrow> reads \<Rightarrow> int \<Rightarrow> bool \<Rightarrow> 'w stream \<Rightarrow> goError option \<times> 'w stream" where
  "skipLines E rs n nullDelim s =
     (let skipCount = max (n - 1) 0; (ts, scErr) = tailTokens nullDelim rs in
      case skipLoop E skipCount 0 ts s of
        (Some e, s) \<Rightarrow> (Some e, s)
      | (None, s) \<Rightarrow> (scErr, s))"

section \<open>The last bytes\<close>

text \<open>A piece goes into the circular buffer in as many copies as it crosses the end; the buffer is not empty
  here, since a count of zero returns at once.\<close>

function copyIn :: "bytes \<Rightarrow> nat \<Rightarrow> bytes \<Rightarrow> bytes \<times> nat" where
  "copyIn circ totalWritten tmp =
     (if tmp = [] \<or> circ = [] then (circ, totalWritten)
      else
        (let bufSize = length circ;
             pos = totalWritten mod bufSize;
             canWrite = min (bufSize - pos) (length tmp)
         in copyIn (take pos circ @ take canWrite tmp @ drop (pos + canWrite) circ) (totalWritten + canWrite) (drop canWrite tmp)))"
  by auto
termination by (relation "measure (\<lambda>(circ, readSoFar, tmp). length tmp)") auto

declare copyIn.simps [simp del]

function byteLoop ::
  "('w, 'e) streamEnv_scheme \<Rightarrow> int \<Rightarrow> bool \<Rightarrow> reads \<Rightarrow> bytes \<Rightarrow> nat \<Rightarrow> 'w stream \<Rightarrow> (goError + bytes \<times> nat) \<times> 'w stream" where
  "byteLoop E cnt isRegularFile rs circ totalWritten s =
     (case ctxErr E s of
        (Some e, s) \<Rightarrow> (Inl e, s)
      | (None, s) \<Rightarrow>
          (case Read 32768 rs of
             ((tmp, st), rs) \<Rightarrow>
               (let (circ, totalWritten) = copyIn circ totalWritten tmp in
                if totalWritten > length circ \<and> cnt > int (length circ) then (Inl errByteBuffer, s)
                else if \<not> isRegularFile \<and> totalWritten > MaxTotalReadBytes then (Inl errReadLimit, s)
                else (case st of
                        AtEOF \<Rightarrow> (Inr (circ, totalWritten), s)
                      | ReadFail e \<Rightarrow> (Inl e, s)
                      | More \<Rightarrow> byteLoop E cnt isRegularFile rs circ totalWritten s))))"
  by auto
termination by (relation "measure (\<lambda>(E, c, i, rs, circ, t, s). pending rs)") (auto dest!: Read_pending [OF sym])

declare byteLoop.simps [simp del]

definition readLastBytes ::
  "('w, 'e) streamEnv_scheme \<Rightarrow> reads \<Rightarrow> int \<Rightarrow> bool \<Rightarrow> 'w stream \<Rightarrow> goError option \<times> 'w stream" where
  "readLastBytes E rs cnt isRegularFile s =
     (if cnt = 0 then (None, s)
      else
        (let bufSize = (if cnt < int MaxBytesBuffer then nat cnt else MaxBytesBuffer) in
         case byteLoop E cnt isRegularFile rs (replicate bufSize (CHR 0x00)) 0 s of
           (Inl e, s) \<Rightarrow> (Some e, s)
         | (Inr (circ, totalWritten), s) \<Rightarrow>
             if totalWritten = 0 then (None, s)
             else if totalWritten \<le> bufSize then writeTo E (take totalWritten circ) s
             else
               (let start = totalWritten mod bufSize in
                case writeTo E (drop start circ) s of
                  (Some e, s) \<Rightarrow> (Some e, s)
                | (None, s) \<Rightarrow> writeTo E (take start circ) s)))"

text \<open>The bytes to skip: either the end of the input comes first, or the rest is left to read.\<close>

function discard :: "('w, 'e) streamEnv_scheme \<Rightarrow> int \<Rightarrow> int \<Rightarrow> reads \<Rightarrow> 'w stream \<Rightarrow> (goError option + reads) \<times> 'w stream" where
  "discard E skipCount readSoFar rs s =
     (if \<not> readSoFar < skipCount then (Inr rs, s)
      else
        (case ctxErr E s of
           (Some e, s) \<Rightarrow> (Inl (Some e), s)
         | (None, s) \<Rightarrow>
             (case Read (nat (min 32768 (skipCount - readSoFar))) rs of
                ((b, st), rs) \<Rightarrow>
                  (case st of
                     AtEOF \<Rightarrow> (Inl None, s)
                   | ReadFail e \<Rightarrow> (Inl (Some e), s)
                   | More \<Rightarrow> discard E skipCount (readSoFar + int (length b)) rs s))))"
  by auto
termination by (relation "measure (\<lambda>(E, k, t, rs, s). pending rs)") (auto dest!: Read_pending [OF sym])

declare discard.simps [simp del]

function streamRest :: "('w, 'e) streamEnv_scheme \<Rightarrow> reads \<Rightarrow> 'w stream \<Rightarrow> goError option \<times> 'w stream" where
  "streamRest E rs s =
     (case ctxErr E s of
        (Some e, s) \<Rightarrow> (Some e, s)
      | (None, s) \<Rightarrow>
          (case Read 32768 rs of
             ((b, st), rs) \<Rightarrow>
               (case (if b \<noteq> [] then writeTo E b s else (None, s)) of
                  (Some werr, s) \<Rightarrow> (Some werr, s)
                | (None, s) \<Rightarrow>
                    (case st of
                       AtEOF \<Rightarrow> (None, s)
                     | ReadFail e \<Rightarrow> (Some e, s)
                     | More \<Rightarrow> streamRest E rs s))))"
  by auto
termination by (relation "measure (\<lambda>(E, rs, s). pending rs)") (auto dest!: Read_pending [OF sym])

declare streamRest.simps [simp del]

definition skipBytes :: "('w, 'e) streamEnv_scheme \<Rightarrow> reads \<Rightarrow> int \<Rightarrow> 'w stream \<Rightarrow> goError option \<times> 'w stream" where
  "skipBytes E rs n s =
     (let skipCount = max (n - 1) 0 in
      case discard E skipCount 0 rs s of
        (Inl e, s) \<Rightarrow> (e, s)
      | (Inr rs, s) \<Rightarrow> streamRest E rs s)"

section \<open>Files and the command\<close>

text \<open>What a run of the command meets besides its output: files are opened through the call context, and the
  standard input is there or not.  What the standard input still gives to the operand of a given
  position is a parameter, since it depends on how far an earlier operand read ahead; with it comes whether
  it is a regular file.\<close>

record 'w tailEnv = "'w streamEnv" +
  stderrWrite :: "bytes \<Rightarrow> 'w \<Rightarrow> 'w"
  tailOpen :: "bytes \<Rightarrow> 'w \<Rightarrow> (goError + reads \<times> bool) \<times> 'w"
  tailClose :: "'w \<Rightarrow> 'w"
  stdinAt :: "nat \<Rightarrow> (reads \<times> bool) option"
  portableErr :: "goError \<Rightarrow> bytes"

definition outTo :: "'w tailEnv \<Rightarrow> bytes \<Rightarrow> 'w stream \<Rightarrow> 'w stream" where
  "outTo E b s = snd (writeTo E b s)"

definition errTo :: "'w tailEnv \<Rightarrow> bytes \<Rightarrow> 'w stream \<Rightarrow> 'w stream" where
  "errTo E b s = s\<lparr>sink := stderrWrite E b (sink s)\<rparr>"

text \<open>The header line, with an empty line before it unless it is the first.\<close>

definition tailHeader :: "'w tailEnv \<Rightarrow> bool \<Rightarrow> countMode \<Rightarrow> bytes \<Rightarrow> bool \<times> 'w stream \<Rightarrow> bool \<times> 'w stream" where
  "tailHeader E printHeaders cm name hs =
     (case hs of (headerPrinted, s) \<Rightarrow>
        if printHeaders \<and> (cm_offset cm \<or> cm_n cm > 0)
        then (True, outTo E (''==> '' @ name @ '' <=='' @ [chNL]) (if headerPrinted then outTo E [chNL] s else s))
        else (headerPrinted, s))"

definition tailBody ::
  "'w tailEnv \<Rightarrow> bool \<Rightarrow> countMode \<Rightarrow> bool \<Rightarrow> reads \<times> bool \<Rightarrow> 'w stream \<Rightarrow> goError option \<times> 'w stream" where
  "tailBody E useBytesMode cm zeroTerm rc s =
     (case rc of (rs, isRegularFile) \<Rightarrow>
        if useBytesMode then
          (if cm_offset cm then skipBytes E rs (cm_n cm) s else readLastBytes E rs (cm_n cm) isRegularFile s)
        else if cm_offset cm then skipLines E rs (cm_n cm) zeroTerm s
        else readLastLines E rs (cm_n cm) zeroTerm isRegularFile s)"

definition processFile ::
  "'w tailEnv \<Rightarrow> nat \<Rightarrow> bytes \<Rightarrow> bool \<Rightarrow> bool \<Rightarrow> countMode \<Rightarrow> bool \<Rightarrow> bool \<times> 'w stream \<Rightarrow> goError option \<times> bool \<times> 'w stream" where
  "processFile E i file printHeaders useBytesMode cm zeroTerm hs =
     (if file = ''-'' then
        (case tailHeader E printHeaders cm ''standard input'' hs of (headerPrinted, s) \<Rightarrow>
           (case stdinAt E i of
              None \<Rightarrow> (None, headerPrinted, s)
            | Some rc \<Rightarrow> (case tailBody E useBytesMode cm zeroTerm rc s of (e, s) \<Rightarrow> (e, headerPrinted, s))))
      else if cm_n cm = 0 \<and> \<not> cm_offset cm then (None, hs)
      else
        (case hs of (headerPrinted, s) \<Rightarrow>
           (case tailOpen E file (sink s) of
              (Inl e, w) \<Rightarrow> (Some e, headerPrinted, s\<lparr>sink := w\<rparr>)
            | (Inr rc, w) \<Rightarrow>
                (case tailHeader E printHeaders cm file (headerPrinted, s\<lparr>sink := w\<rparr>) of (headerPrinted, s) \<Rightarrow>
                   (case tailBody E useBytesMode cm zeroTerm rc s of (e, s) \<Rightarrow>
                      (e, headerPrinted, s\<lparr>sink := tailClose E (sink s)\<rparr>))))))"

fun tailFiles ::
  "'w tailEnv \<Rightarrow> bool \<Rightarrow> bool \<Rightarrow> countMode \<Rightarrow> bool \<Rightarrow> nat \<Rightarrow> bytes list \<Rightarrow> bool \<Rightarrow> bool \<times> 'w stream \<Rightarrow> bool \<times> 'w stream" where
  "tailFiles E ph ub cm z i [] failed hs = (failed, snd hs)"
| "tailFiles E ph ub cm z i (file # files) failed hs =
     (case ctxErr E (snd hs) of
        (Some _, s) \<Rightarrow> (failed, s)
      | (None, s) \<Rightarrow>
          (case processFile E i file ph ub cm z (fst hs, s) of
             (None, hs) \<Rightarrow> tailFiles E ph ub cm z (Suc i) files failed hs
           | (Some e, headerPrinted, s) \<Rightarrow>
               (let name = (if file = ''-'' then ''standard input'' else file);
                    s = errTo E (''tail: '' @ name @ '': '' @ portableErr E e @ [chNL]) s
                in tailFiles E ph ub cm z (Suc i) files True (headerPrinted, s))))"

text \<open>The flags after parsing, and the text the flag package prints for them.\<close>

record tailFlags =
  tf_help :: bool
  tf_zero :: bool
  tf_quiet :: headerFlag
  tf_silent :: headerFlag
  tf_verbose :: headerFlag
  tf_lines :: modeFlag
  tf_bytes :: modeFlag
  tf_defaults :: bytes

definition invalidCount :: "'w tailEnv \<Rightarrow> bytes \<Rightarrow> bytes \<Rightarrow> 'w stream \<Rightarrow> Result \<times> 'w stream" where
  "invalidCount E label v s =
     (zeroResult\<lparr>Code := 1\<rparr>,
      errTo E (''tail: invalid number of '' @ label @ '': '' @ [CHR 0x27] @ SafeOperand v @ [CHR 0x27, chNL]) s)"

definition tail_run :: "'w tailEnv \<Rightarrow> tailFlags \<Rightarrow> bytes list \<Rightarrow> 'w stream \<Rightarrow> Result \<times> 'w stream" where
  "tail_run E fl files s =
     (if reportLinesInvalidFirst (tf_lines fl) (tf_bytes fl) then invalidCount E ''lines'' (invalid (tf_lines fl)) s
      else if hasInvalid (tf_bytes fl) then invalidCount E ''bytes'' (invalid (tf_bytes fl)) s
      else if tf_help fl then
        (zeroResult,
         outTo E (tf_defaults fl)
           (outTo E (''With no FILE, or when FILE is -, read standard input.'' @ [chNL, chNL])
             (outTo E (''Print the last 10 lines of each FILE to standard output.'' @ [chNL])
               (outTo E (''Usage: tail [OPTION]... [FILE]...'' @ [chNL]) s))))
      else
        (let useBytesMode = (mf_pos (tf_bytes fl) > mf_pos (tf_lines fl));
             (countStr, modeLabel) =
               (if useBytesMode then (mf_val (tf_bytes fl), ''bytes'') else (mf_val (tf_lines fl), ''lines'')) in
         case parseCount countStr of
           None \<Rightarrow> invalidCount E modeLabel countStr s
         | Some cm \<Rightarrow>
             (let cm = (if offsetSeen (tf_lines fl) \<or> offsetSeen (tf_bytes fl) then cm\<lparr>cm_offset := True\<rparr> else cm);
                  files = (if files = [] then [''-''] else files);
                  suppressPos = max (hf_pos (tf_quiet fl)) (hf_pos (tf_silent fl));
                  printHeaders =
                    (if hf_pos (tf_verbose fl) > suppressPos then True
                     else if suppressPos > hf_pos (tf_verbose fl) then False else length files > 1);
                  (failed, s) = tailFiles E printHeaders useBytesMode cm (tf_zero fl) 0 files False (False, s)
              in (if failed then zeroResult\<lparr>Code := 1\<rparr> else zeroResult, s))))"

end
