(* ===== verification/Tail_Properties.thy ===== *)
theory Tail_Properties
  imports Tail
begin

text \<open>
  What \<^verbatim>\<open>tail\<close> prints: the ring buffer is refined from the list of all lines read, the circular buffer from
  all bytes read, and a count has the value its digits and its suffix say.
\<close>

section \<open>The ring buffer\<close>

abbreviation sizes :: "bytes list \<Rightarrow> nat" where "sizes ts \<equiv> sum_list (map length ts)"

definition ringRep :: "nat \<Rightarrow> bytes list \<Rightarrow> lineRing \<Rightarrow> bool" where
  "ringRep k ts R \<longleftrightarrow>
     length (ring R) = k \<and> ringHolds (ring R) ts \<and> ringHead R = length ts mod k \<and> ringCount R = min (length ts) k \<and>
     ringBytes R = sizes (lastn k ts) \<and> totalRead R = sizes ts"

text \<open>The limit the lines read so far exceed.\<close>

definition limitErr :: "int \<Rightarrow> bool \<Rightarrow> bytes list \<Rightarrow> goError option" where
  "limitErr cnt reg ts =
     (if \<not> reg \<and> sizes ts > MaxTotalReadBytes then Some errReadLimit
      else if length ts > MaxRingLines \<and> cnt > int MaxRingLines then Some errLineBuffer
      else if sizes (lastn (nat (min cnt (int MaxRingLines))) ts) > MaxRingBytes then Some errRingMemory
      else None)"

lemma ringSizeFor_min: "0 \<le> cnt \<Longrightarrow> ringSizeFor cnt = nat (min cnt (int MaxRingLines))"
  by (simp add: ringSizeFor_def min_def)

lemma lastn_snoc: "0 < k \<Longrightarrow> lastn k (ts @ [x]) = (if length ts < k then ts @ [x] else tl (lastn k ts) @ [x])"
  by (simp add: lastn_def drop_Suc tl_drop Suc_diff_le)

lemma lastn_full: "0 < k \<Longrightarrow> k \<le> length ts \<Longrightarrow> lastn k ts = ts ! (length ts - k) # tl (lastn k ts)"
  by (simp add: lastn_def Cons_nth_drop_Suc [symmetric])

lemma sizes_lastn_snoc:
  "0 < k \<Longrightarrow> sizes (lastn k (ts @ [x])) =
     (if k \<le> length ts then sizes (lastn k ts) - length (ts ! (length ts - k)) else sizes (lastn k ts)) + length x"
  using lastn_full [of k ts] by (simp add: lastn_snoc) (metis add_diff_cancel_left' list.simps(9) sum_list.Cons)

lemma oldest_at_head:
  assumes "ringHolds slots ts" "slots \<noteq> []" "length slots \<le> length ts"
  shows "slots ! (length ts mod length slots) = ts ! (length ts - length slots)"
proof -
  have "(length ts - length slots) mod length slots = length ts mod length slots"
    using assms(3) by (simp add: le_mod_geq)
  moreover have "length ts - length slots < length ts" using assms(2,3) by (cases slots) auto
  ultimately show ?thesis using assms(1) unfolding ringHolds_def by (metis order_refl)
qed

lemma ringPush_refines:
  assumes "ringRep (ringSizeFor cnt) ts R" "0 < cnt"
  shows "case limitErr cnt reg (ts @ [raw]) of
      Some e \<Rightarrow> ringPush cnt reg raw R = Inl e
    | None \<Rightarrow> \<exists>R'. ringPush cnt reg raw R = Inr R' \<and> ringRep (ringSizeFor cnt) (ts @ [raw]) R'"
proof -
  let ?k = "ringSizeFor cnt"
  have k: "0 < ?k" "?k = nat (min cnt (int MaxRingLines))" using assms(2) by (auto simp: ringSizeFor_def limit_defs)
  note rep = assms(1) [unfolded ringRep_def]
  have ne: "ring R \<noteq> []" using rep k(1) by auto
  have h: "ringHead R < length (ring R)" using rep k(1) by simp
  have total: "totalRead R + length raw = sizes (ts @ [raw])" using rep by simp
  have full: "ringCount R = ?k \<longleftrightarrow> ?k \<le> length ts" using rep by auto
  have lim: "?k \<le> length ts \<and> int ?k < cnt \<longleftrightarrow> length (ts @ [raw]) > MaxRingLines \<and> cnt > int MaxRingLines"
    by (auto simp: ringSizeFor_def)
  have b: "(if ?k \<le> length ts then ringBytes R - length (ring R ! ringHead R) else ringBytes R) + length raw =
      sizes (lastn ?k (ts @ [raw]))"
    using oldest_at_head [of "ring R" ts] rep ne by (simp add: sizes_lastn_snoc [OF k(1)])
  have push: "ringHolds ((ring R)[ringHead R := raw]) (ts @ [raw])" using ringHolds_push [OF _ ne, of ts raw] rep by simp
  have hd: "(ringHead R + 1) mod ?k = length (ts @ [raw]) mod ?k" using rep by (simp add: mod_Suc_eq)
  have c: "min (length (ts @ [raw])) ?k = (if ringCount R < ?k then ringCount R + 1 else ringCount R)" using rep by auto
  define R1 where "R1 = R\<lparr>ring := (ring R)[ringHead R := raw], ringHead := length (ts @ [raw]) mod ?k,
      ringCount := min (length (ts @ [raw])) ?k, ringBytes := sizes (lastn ?k (ts @ [raw])), totalRead := sizes (ts @ [raw])\<rparr>"
  have "ringRep ?k (ts @ [raw]) R1" using push rep unfolding ringRep_def R1_def by simp
  moreover have "ringPush cnt reg raw R =
      (if \<not> reg \<and> sizes (ts @ [raw]) > MaxTotalReadBytes then Inl errReadLimit
       else if ?k \<le> length ts \<and> int ?k < cnt then Inl errLineBuffer
       else if sizes (lastn ?k (ts @ [raw])) > MaxRingBytes then Inl errRingMemory
       else Inr R1)"
    unfolding ringPush_def Let_def R1_def c hd [symmetric] total [symmetric] b [symmetric] using full h by simp
  ultimately show ?thesis unfolding limitErr_def k(2) [symmetric] lim [symmetric] by (auto split: if_splits)
qed

text \<open>Where reading stops early, if it does: the first check that finds the context cancelled, or the first line that
  exceeds a limit, with the number of checks made.\<close>

fun inputStop :: "('w, 'e) streamEnv_scheme \<Rightarrow> int \<Rightarrow> bool \<Rightarrow> nat \<Rightarrow> bytes list \<Rightarrow> bytes list \<Rightarrow> (goError \<times> nat) option" where
  "inputStop E cnt reg k seen [] = None"
| "inputStop E cnt reg k seen (t # ts) =
     (case cancelledAt E k of
        Some e \<Rightarrow> Some (e, Suc k)
      | None \<Rightarrow>
          (case limitErr cnt reg (seen @ [t]) of
             Some e \<Rightarrow> Some (e, Suc k)
           | None \<Rightarrow> inputStop E cnt reg (Suc k) (seen @ [t]) ts))"

lemma ringLoop_refines:
  assumes "ringRep (ringSizeFor cnt) seen R" "0 < cnt"
  shows "case inputStop E cnt reg (checks s) seen ts of
      Some (e, k) \<Rightarrow> ringLoop E cnt reg ts R s = (Inl e, s\<lparr>checks := k\<rparr>)
    | None \<Rightarrow> \<exists>R'. ringLoop E cnt reg ts R s = (Inr R', s\<lparr>checks := checks s + length ts\<rparr>) \<and>
        ringRep (ringSizeFor cnt) (seen @ ts) R' \<and> (ts \<noteq> [] \<longrightarrow> limitErr cnt reg (seen @ ts) = None)"
  using assms(1)
proof (induction ts arbitrary: seen R s)
  case (Cons t ts)
  show ?case
  proof (cases "cancelledAt E (checks s)")
    case c: None
    show ?thesis
    proof (cases "limitErr cnt reg (seen @ [t])")
      case l: None
      then obtain R' where R': "ringPush cnt reg t R = Inr R'" "ringRep (ringSizeFor cnt) (seen @ [t]) R'"
        using ringPush_refines [OF Cons.prems assms(2), of reg t] by auto
      define s1 where "s1 = s\<lparr>checks := Suc (checks s)\<rparr>"
      have s1: "checks s1 = Suc (checks s)" "s1\<lparr>checks := n\<rparr> = s\<lparr>checks := n\<rparr>" for n by (simp_all add: s1_def)
      have stop: "inputStop E cnt reg (checks s) seen (t # ts) = inputStop E cnt reg (checks s1) (seen @ [t]) ts"
        using c l s1 by simp
      have loop: "ringLoop E cnt reg (t # ts) R s = ringLoop E cnt reg ts R' s1" using c R'(1) by (simp add: ctxErr_def s1_def)
      have "limitErr cnt reg (seen @ t # ts) = None" if "ts \<noteq> [] \<longrightarrow> limitErr cnt reg ((seen @ [t]) @ ts) = None"
        using that l by (cases "ts = []") auto
      then show ?thesis
        using Cons.IH [OF R'(2), of s1] unfolding stop loop s1 by (auto split: option.splits)
    next
      case (Some e)
      then have "ringPush cnt reg t R = Inl e" using ringPush_refines [OF Cons.prems assms(2), of reg t] by simp
      then show ?thesis using c Some by (simp add: ctxErr_def)
    qed
  qed (simp add: ctxErr_def)
qed simp

definition tailLinesSpec ::
  "('w, 'e) streamEnv_scheme \<Rightarrow> reads \<Rightarrow> int \<Rightarrow> bool \<Rightarrow> bool \<Rightarrow> 'w stream \<Rightarrow> goError option \<times> 'w stream" where
  "tailLinesSpec E rs cnt nullDelim reg s =
     (let (ts, scErr) = tailTokens nullDelim rs in
      if cnt = 0 then (None, s)
      else (case inputStop E cnt reg (checks s) [] ts of
              Some (e, k) \<Rightarrow> (Some e, s\<lparr>checks := k\<rparr>)
            | None \<Rightarrow>
                (let s = s\<lparr>checks := checks s + length ts\<rparr> in
                 case scErr of Some e \<Rightarrow> (Some e, s) | None \<Rightarrow> writeAll E (lastn (nat cnt) ts) s)))"

lemma ring_emitted:
  assumes "ringRep k ts R" "0 < k"
  shows "map (\<lambda>i. ring R ! (((ringHead R + k - ringCount R) mod k + i) mod k)) [0..<ringCount R] = lastn k ts"
proof -
  note rep = assms(1) [unfolded ringRep_def]
  let ?c = "min (length ts) k"
  have "(length ts mod k + k - ?c) mod k = (length ts - ?c) mod k"
  proof (cases "k \<le> length ts")
    case True then show ?thesis by (simp add: min_def le_mod_geq)
  next
    case False then show ?thesis by (simp add: min_def)
  qed
  then have "((ringHead R + k - ringCount R) mod k + i) mod k = (length ts - ?c + i) mod k" for i
    using rep by (metis mod_add_left_eq)
  moreover have "lastn ?c ts = lastn k ts" by (simp add: lastn_def min_def)
  ultimately show ?thesis using ringHolds_emit [of "ring R" ts ?c] rep by simp
qed

text \<open>C10. The ring buffer implements the last lines: whatever the input, the count, the context and the output,
  printing through the ring does what keeping all lines and writing the last ones would do, with
  the same errors: at the first cancelled check, the first line over a limit, a failing scan or a
  failing write.\<close>

theorem last_lines_refined:
  assumes "0 \<le> cnt"
  shows "readLastLines E rs cnt nullDelim reg s = tailLinesSpec E rs cnt nullDelim reg s"
proof (cases "cnt = 0")
  case False
  then have pos: "0 < cnt" using assms by simp
  let ?k = "ringSizeFor cnt"
  obtain ts scErr where t: "tailTokens nullDelim rs = (ts, scErr)" by force
  have k: "0 < ?k" using pos by (auto simp: ringSizeFor_def limit_defs)
  have "ringRep ?k [] (newRing ?k)" by (simp add: ringRep_def newRing_def)
  note loop = ringLoop_refines [OF this pos, where E = E and reg = reg and s = s and ts = ts]
  show ?thesis
  proof (cases "inputStop E cnt reg (checks s) [] ts")
    case None
    then obtain R where R: "ringLoop E cnt reg ts (newRing ?k) s = (Inr R, s\<lparr>checks := checks s + length ts\<rparr>)"
      "ringRep ?k ts R" "ts \<noteq> [] \<longrightarrow> limitErr cnt reg ts = None"
      using loop by auto
    have "lastn ?k ts = lastn (nat cnt) ts"
    proof (cases "cnt < int MaxRingLines")
      case False
      then have "length ts \<le> MaxRingLines \<or> cnt = int MaxRingLines"
        using R(3) by (cases "ts = []") (auto simp: limitErr_def split: if_splits)
      then show ?thesis using False by (auto simp: ringSizeFor_def)
    qed (simp add: ringSizeFor_def)
    then show ?thesis
      using R(1) None False t ring_emitted [OF R(2) k]
      by (cases scErr) (simp_all add: readLastLines_def tailLinesSpec_def Let_def)
  qed (use loop False t in \<open>auto simp: readLastLines_def tailLinesSpec_def Let_def\<close>)
qed (simp add: readLastLines_def tailLinesSpec_def split: prod.split)

lemma scan_line:
  assumes "d \<notin> set l" "length l < limit"
  shows "scanTokens limit (scanPreserving d) (l @ d # rest) e =
    (let (ts, e') = scanTokens limit (scanPreserving d) rest e in ((l @ [d]) # ts, e'))"
proof -
  have t: "take limit (l @ d # rest) = l @ d # take (limit - Suc (length l)) rest"
    using assms(2) by (simp add: take_Cons')
  have w: "takeWhile (\<lambda>b. b \<noteq> d) (l @ d # r) = l" for r using assms(1) by (induction l) auto
  have "scanPreserving d (take limit (l @ d # rest)) False = (Suc (length l), Some (l @ [d]))"
    unfolding t by (simp add: scanPreserving_def Let_def w)
  then show ?thesis by (subst scanTokens.simps) simp
qed

lemma scan_last:
  assumes "d \<notin> set l" "length l < limit"
  shows "scanTokens limit (scanPreserving d) l e = (if l = [] then [] else [l], e)"
proof -
  have n: "scanTokens limit (scanPreserving d) [] e = ([], e)"
    using assms(2) by (subst scanTokens.simps) (simp add: scanPreserving_def)
  show ?thesis
  proof (cases "l = []")
    case False
    then obtain m where m: "length l = Suc m" by (cases l) auto
    have "take limit l = l" using assms(2) by simp
    then show ?thesis using assms False m n by (subst scanTokens.simps) (simp add: scanPreserving_def)
  qed (simp add: n)
qed

text \<open>The last two lines of three, read in two pieces.\<close>

theorem last_lines_refined_witness:
  "readLastLines steady [(''a'' @ [chNL] @ ''b'', More), (chNL # ''c'', AtEOF)] 2 False False \<lparr>checks = 0, sink = []\<rparr> =
     (None, \<lparr>checks = 3, sink = ''b'' @ [chNL] @ ''c''\<rparr>)"
proof -
  let ?rs = "[(''a'' @ [chNL] @ ''b'', More), (chNL # ''c'', AtEOF)]"
  have "tailTokens False ?rs = ([''a'' @ [chNL], ''b'' @ [chNL], ''c''], None)"
    using scan_line [of chNL "''a''" MaxLineBytes "''b'' @ [chNL] @ ''c''" None]
      scan_line [of chNL "''b''" MaxLineBytes "''c''" None] scan_last [of chNL "''c''" MaxLineBytes None]
    by (simp add: tailTokens_def scanLinesPreservingNewline_def limit_defs)
  moreover have "(0 :: int) \<le> 2" by simp
  note last_lines_refined [OF this, of steady ?rs False False "\<lparr>checks = 0, sink = []\<rparr>"]
  ultimately show ?thesis
    by (simp add: tailLinesSpec_def limitErr_def limit_defs lastn_def)
qed

section \<open>The circular buffer\<close>

lemma ringHolds_block:
  assumes "ringHolds circ xs" "circ \<noteq> []" "length b \<le> length circ - length xs mod length circ"
  shows "ringHolds (take (length xs mod length circ) circ @ b @ drop (length xs mod length circ + length b) circ) (xs @ b)"
  using assms(3)
proof (induction b rule: rev_induct)
  case Nil
  then show ?case using assms(1) by simp
next
  case (snoc x b)
  let ?p = "length xs mod length circ"
  let ?c = "take ?p circ @ b @ drop (?p + length b) circ"
  have p: "?p < length circ" "?p + length b < length circ" using assms(2) snoc.prems by auto
  have len: "length ?c = length circ" using p by simp
  have "(length xs + length b) mod length circ = ?p + length b" using p by (metis mod_add_left_eq mod_less)
  then have "ringHolds (?c[?p + length b := x]) ((xs @ b) @ [x])"
    using ringHolds_push [of ?c "xs @ b" x] snoc len assms(2) by fastforce
  moreover have "?c[?p + length b := x] = take ?p circ @ (b @ [x]) @ drop (?p + length (b @ [x])) circ"
    using p by (simp add: list_update_append Cons_nth_drop_Suc [symmetric])
  ultimately show ?case by simp
qed

lemma copyIn_holds:
  assumes "ringHolds circ xs" "circ \<noteq> []" "copyIn circ (length xs) tmp = (circ', n)"
  shows "ringHolds circ' (xs @ tmp) \<and> length circ' = length circ \<and> n = length xs + length tmp"
  using assms
proof (induction "length tmp" arbitrary: circ xs tmp rule: less_induct)
  case less
  show ?case
  proof (cases "tmp = []")
    case False
    let ?p = "length xs mod length circ"
    let ?w = "min (length circ - ?p) (length tmp)"
    let ?c = "take ?p circ @ take ?w tmp @ drop (?p + ?w) circ"
    have p: "?p < length circ" using less.prems(2) by simp
    have l: "length (take ?w tmp) = ?w" by simp
    have "ringHolds ?c (xs @ take ?w tmp)"
      using ringHolds_block [OF less.prems(1,2), of "take ?w tmp"] unfolding l by simp
    moreover have "?p + ?w \<le> length circ" using p by simp
    then have c: "length ?c = length circ" by simp
    moreover have "?c \<noteq> []" using c less.prems(2) by auto
    moreover have "copyIn ?c (length (xs @ take ?w tmp)) (drop ?w tmp) = (circ', n)"
      using less.prems False by (subst (asm) copyIn.simps) (simp add: Let_def)
    moreover have "length (drop ?w tmp) < length tmp" using p False by simp
    ultimately have "ringHolds circ' ((xs @ take ?w tmp) @ drop ?w tmp) \<and> length circ' = length ?c \<and>
        n = length (xs @ take ?w tmp) + length (drop ?w tmp)"
      using less.hyps by blast
    then show ?thesis using c by (simp add: min_def)
  qed (use less.prems in \<open>simp add: copyIn.simps\<close>)
qed

lemma ring_unrolled:
  assumes "ringHolds circ xs" "circ \<noteq> []"
  shows "length xs \<le> length circ \<Longrightarrow> take (length xs) circ = xs"
    "length circ \<le> length xs \<Longrightarrow>
       drop (length xs mod length circ) circ @ take (length xs mod length circ) circ = lastn (length circ) xs"
proof -
  assume "length xs \<le> length circ"
  then show "take (length xs) circ = xs"
    using assms(1) by (intro nth_equalityI) (auto simp: ringHolds_def)
next
  assume l: "length circ \<le> length xs"
  let ?k = "length circ"
  have "rotate (length xs mod ?k) circ = lastn ?k xs"
  proof (rule nth_equalityI)
    fix i assume "i < length (rotate (length xs mod ?k) circ)"
    then have i: "i < ?k" by simp
    have "(length xs mod ?k + i) mod ?k = (length xs - ?k + i) mod ?k"
      using l by (metis le_mod_geq mod_add_left_eq)
    then show "rotate (length xs mod ?k) circ ! i = lastn ?k xs ! i"
      using i l assms(1) by (simp add: nth_rotate lastn_def ringHolds_def)
  qed (use l in simp)
  then show "drop (length xs mod ?k) circ @ take (length xs mod ?k) circ = lastn ?k xs"
    by (simp add: rotate_drop_take)
qed

definition bytesFit :: "int \<Rightarrow> bool \<Rightarrow> nat \<Rightarrow> nat \<Rightarrow> bool" where
  "bytesFit cnt reg k n \<longleftrightarrow> (n \<le> k \<or> cnt \<le> int k) \<and> (reg \<or> n \<le> MaxTotalReadBytes)"

lemma bytesFit_mono: "bytesFit cnt reg k n \<Longrightarrow> m \<le> n \<Longrightarrow> bytesFit cnt reg k m"
  by (auto simp: bytesFit_def)

lemma byteLoop_step:
  assumes "Read 32768 rs = ((tmp, st), rs')" "copyIn circ n tmp = (circ', n')" "s' = s\<lparr>checks := Suc (checks s)\<rparr>"
  shows "byteLoop steady cnt reg rs circ n s =
    (if bytesFit cnt reg (length circ') n'
     then (case st of AtEOF \<Rightarrow> (Inr (circ', n'), s') | ReadFail e \<Rightarrow> (Inl e, s') | More \<Rightarrow> byteLoop steady cnt reg rs' circ' n' s')
     else (Inl (if n' > length circ' \<and> cnt > int (length circ') then errByteBuffer else errReadLimit), s'))"
  using assms by (subst byteLoop.simps) (auto simp: bytesFit_def not_less)

lemma byteLoop_result:
  assumes "ringHolds circ xs" "circ \<noteq> []"
  shows "\<exists>res s'. byteLoop steady cnt reg rs circ (length xs) s = (res, s') \<and> sink s' = sink s \<and>
    (if finalErr rs = None \<and> bytesFit cnt reg (length circ) (length (xs @ content rs))
     then \<exists>circ'. res = Inr (circ', length (xs @ content rs)) \<and> ringHolds circ' (xs @ content rs) \<and> length circ' = length circ
     else \<exists>e. res = Inl e)"
  using assms
proof (induction "pending rs" arbitrary: circ xs rs s rule: less_induct)
  case less
  obtain tmp st rs' where r: "Read 32768 rs = ((tmp, st), rs')" by (metis prod.exhaust)
  obtain circ' n where cp: "copyIn circ (length xs) tmp = (circ', n)" by force
  from copyIn_holds [OF less.prems this]
  have h: "ringHolds circ' (xs @ tmp)" "length circ' = length circ" "circ' \<noteq> []" "n = length (xs @ tmp)"
    using less.prems(2) by auto
  have step: "byteLoop steady cnt reg rs circ (length xs) s =
      (if bytesFit cnt reg (length circ) (length (xs @ tmp))
       then (case st of AtEOF \<Rightarrow> (Inr (circ', length (xs @ tmp)), s\<lparr>checks := Suc (checks s)\<rparr>)
               | ReadFail e \<Rightarrow> (Inl e, s\<lparr>checks := Suc (checks s)\<rparr>)
               | More \<Rightarrow> byteLoop steady cnt reg rs' circ' (length (xs @ tmp)) (s\<lparr>checks := Suc (checks s)\<rparr>))
       else (Inl (if length (xs @ tmp) > length circ \<and> cnt > int (length circ) then errByteBuffer else errReadLimit),
         s\<lparr>checks := Suc (checks s)\<rparr>))"
    using byteLoop_step [OF r cp refl] unfolding h(2,4) .
  show ?case
  proof (cases st)
    case More
    have c: "content rs = tmp @ content rs'" "finalErr rs = finalErr rs'" using Read_more r More by auto
    have "pending rs' < pending rs" using Read_pending [OF r] More by simp
    from less.hyps [OF this h(1,3), of "s\<lparr>checks := Suc (checks s)\<rparr>"] show ?thesis
      using bytesFit_mono [of cnt reg "length circ" "length (xs @ content rs)" "length (xs @ tmp)"] More h(2) c
      unfolding step by auto
  next
    case AtEOF
    then have "content rs = tmp" "finalErr rs = None" using Read_eof r by auto
    then show ?thesis unfolding step using AtEOF h by auto
  next
    case (ReadFail e)
    then have "finalErr rs = Some e" using Read_fail r by blast
    then show ?thesis unfolding step using ReadFail by auto
  qed
qed

text \<open>C11. The circular buffer implements the last bytes: in whatever pieces the input comes, printing the last
  bytes writes exactly the last \<open>cnt\<close> bytes of the input, or it reports an error and writes nothing; it
  reports one exactly when reading fails, when more bytes are wanted than the buffer can hold and the
  input has them, or when a stream is longer than may be read.\<close>

theorem last_bytes_refined:
  assumes "0 \<le> cnt"
  shows "\<exists>e s'. readLastBytes steady rs cnt reg s = (e, s') \<and>
    (if cnt = 0 \<or> finalErr rs = None \<and> (length (content rs) \<le> MaxBytesBuffer \<or> cnt \<le> int MaxBytesBuffer) \<and>
          (reg \<or> length (content rs) \<le> MaxTotalReadBytes)
     then e = None \<and> sink s' = sink s @ lastn (nat cnt) (content rs)
     else e \<noteq> None \<and> sink s' = sink s)"
proof (cases "cnt = 0")
  case False
  define k where "k = (if cnt < int MaxBytesBuffer then nat cnt else MaxBytesBuffer)"
  let ?D = "content rs"
  have k: "0 < k" using False assms by (auto simp: k_def limit_defs)
  have fit: "bytesFit cnt reg k (length ?D) \<longleftrightarrow>
      (length ?D \<le> MaxBytesBuffer \<or> cnt \<le> int MaxBytesBuffer) \<and> (reg \<or> length ?D \<le> MaxTotalReadBytes)"
    using assms by (auto simp: bytesFit_def k_def)
  obtain res s' where r: "byteLoop steady cnt reg rs (replicate k (CHR 0x00)) 0 s = (res, s')" "sink s' = sink s"
    "if finalErr rs = None \<and> bytesFit cnt reg k (length ?D)
     then \<exists>circ'. res = Inr (circ', length ?D) \<and> ringHolds circ' ?D \<and> length circ' = k else \<exists>e. res = Inl e"
    using byteLoop_result [of "replicate k (CHR 0x00)" "[]" cnt reg rs s] k
    unfolding append_Nil length_replicate list.size(3) by auto
  show ?thesis
  proof (cases "finalErr rs = None \<and> bytesFit cnt reg k (length ?D)")
    case True
    then obtain circ where c: "res = Inr (circ, length ?D)" "ringHolds circ ?D" "length circ = k" "circ \<noteq> []"
      using r(3) k by (metis list.size(3) less_irrefl)
    have "lastn (nat cnt) ?D = lastn k ?D" using True assms by (auto simp: bytesFit_def k_def)
    then show ?thesis
      using True fit False r(1,2) c ring_unrolled [OF c(2,4)]
      by (cases "length ?D \<le> k") (auto simp: readLastBytes_def Let_def simp flip: k_def)
  next
    case no: False
    then obtain e where "res = Inl e" using r(3) by auto
    then show ?thesis using no fit False r(1,2) by (auto simp: readLastBytes_def Let_def simp flip: k_def)
  qed
qed (simp add: readLastBytes_def lastn_def)

text \<open>The last three bytes of five, in two pieces.\<close>

theorem last_bytes_refined_witness:
  "\<exists>s'. readLastBytes steady [(''ab'', More), (''cde'', AtEOF)] 3 False \<lparr>checks = 0, sink = []\<rparr> = (None, s') \<and> sink s' = ''cde''"
  using last_bytes_refined [of 3 "[(''ab'', More), (''cde'', AtEOF)]" False "\<lparr>checks = 0, sink = []\<rparr>"]
  by (simp add: limit_defs lastn_def)

section \<open>Offsets\<close>

lemma skipLoop_steady:
  "\<exists>s'. skipLoop steady k j ts s = (None, s') \<and> sink s' = sink s @ concat (drop (nat (k - j)) ts)"
proof (induction ts arbitrary: j s)
  case (Cons t ts)
  show ?case
  proof (cases "j < k")
    case True
    then have "nat (k - j) = Suc (nat (k - (j + 1)))" by simp
    then show ?thesis using Cons.IH [of "j + 1" "s\<lparr>checks := Suc (checks s)\<rparr>"] True by simp
  next
    case False
    then show ?thesis using Cons.IH [of j "s\<lparr>checks := Suc (checks s), sink := sink s @ t\<rparr>"] by (auto simp: drop_Cons')
  qed
qed simp

lemma streamRest_steady: "\<exists>s'. streamRest steady rs s = (finalErr rs, s') \<and> sink s' = sink s @ content rs"
proof (induction "pending rs" arbitrary: rs s rule: less_induct)
  case less
  obtain b st rs' where r: "Read 32768 rs = ((b, st), rs')" by (metis prod.exhaust)
  let ?s = "s\<lparr>checks := Suc (checks s), sink := sink s @ b\<rparr>"
  have step: "streamRest steady rs s =
      (case st of AtEOF \<Rightarrow> (None, ?s) | ReadFail e \<Rightarrow> (Some e, ?s) | More \<Rightarrow> streamRest steady rs' ?s)"
    using r by (subst streamRest.simps) (simp split: readStatus.split)
  show ?case
  proof (cases st)
    case More
    then have c: "content rs = b @ content rs'" "finalErr rs = finalErr rs'" using Read_more r by auto
    have "pending rs' < pending rs" using Read_pending [OF r] More by simp
    from less.hyps [OF this, of ?s] show ?thesis using c More unfolding step by auto
  next
    case AtEOF
    then show ?thesis using Read_eof r unfolding step by auto
  next
    case (ReadFail e)
    then show ?thesis using Read_fail r unfolding step by auto
  qed
qed

lemma discard_steady:
  assumes "0 \<le> j"
  shows "\<exists>res s'. discard steady k j rs s = (res, s') \<and> sink s' = sink s \<and>
    (case res of Inl e \<Rightarrow> e = finalErr rs \<and> int (length (content rs)) \<le> k - j
       | Inr rs' \<Rightarrow> finalErr rs' = finalErr rs \<and> content rs' = drop (nat (k - j)) (content rs))"
  using assms
proof (induction "pending rs" arbitrary: rs j s rule: less_induct)
  case less
  show ?case
  proof (cases "j < k")
    case True
    let ?m = "nat (min 32768 (k - j))"
    obtain b st rs' where r: "Read ?m rs = ((b, st), rs')" by (metis prod.exhaust)
    have b: "int (length b) \<le> k - j" using Read_length [OF r] True by simp
    let ?s = "s\<lparr>checks := Suc (checks s)\<rparr>"
    have step: "discard steady k j rs s =
        (case st of AtEOF \<Rightarrow> (Inl None, ?s) | ReadFail e \<Rightarrow> (Inl (Some e), ?s) | More \<Rightarrow> discard steady k (j + int (length b)) rs' ?s)"
      using r True by (subst discard.simps) simp
    show ?thesis
    proof (cases st)
      case More
      then have c: "content rs = b @ content rs'" "finalErr rs = finalErr rs'" using Read_more r by auto
      have "pending rs' < pending rs" using Read_pending [OF r] More True by simp
      moreover have "0 \<le> j + int (length b)" using less.prems by simp
      moreover have "nat (k - j) = length b + nat (k - (j + int (length b)))" using b by simp
      moreover obtain res s' where d: "discard steady k (j + int (length b)) rs' ?s = (res, s')" "sink s' = sink ?s"
        "case res of Inl e \<Rightarrow> e = finalErr rs' \<and> int (length (content rs')) \<le> k - (j + int (length b))
           | Inr rs2 \<Rightarrow> finalErr rs2 = finalErr rs' \<and> content rs2 = drop (nat (k - (j + int (length b)))) (content rs')"
        using less.hyps [OF calculation(1,2), of ?s] by blast
      ultimately have "case res of Inl e \<Rightarrow> e = finalErr rs \<and> int (length (content rs)) \<le> k - j
           | Inr rs2 \<Rightarrow> finalErr rs2 = finalErr rs \<and> content rs2 = drop (nat (k - j)) (content rs)"
        using c by (cases res) simp_all
      with d(1,2) show ?thesis unfolding step using More by simp
    next
      case AtEOF
      then show ?thesis using Read_eof r b unfolding step by auto
    next
      case (ReadFail e)
      then show ?thesis using Read_fail r b unfolding step by auto
    qed
  qed (simp add: discard.simps)
qed


section \<open>Counts\<close>

lemma clampCount_range: "0 \<le> clampCount n \<and> clampCount n \<le> MaxCount"
  by (simp add: clampCount_def neg64_def MaxCount_def Let_def)

lemma parseCount_range: "opost (\<lambda>cm. 0 \<le> cm_n cm \<and> cm_n cm \<le> MaxCount) (parseCount s)"
  unfolding parseCount_def Let_def by (intro opost_intros opost_None) (simp only: opost_Some countMode.simps clampCount_range)

lemma multiplier_suffix:
  assumes "countMultiplier sfx = Some m"
  shows "sfx \<noteq> [] \<and> \<not> isDigit (hd sfx)"
proof (rule ccontr)
  assume a: "\<not> (sfx \<noteq> [] \<and> \<not> isDigit (hd sfx))"
  have "isDigit c \<Longrightarrow> c \<notin> set ''bkKmMGTPEZY''" for c by (auto simp: isDigit_def)
  then have "countMultiplier sfx = None" using a by (cases sfx) (auto simp: countMultiplier_def)
  then show False using assms by simp
qed

lemma div_less_pos: "a div m < v \<longleftrightarrow> a < v * m" if "0 < m" for a m v :: int
proof -
  have a: "a = a div m * m + a mod m" "0 \<le> a mod m" "a mod m < m" using that by simp_all
  show ?thesis
  proof
    assume "a div m < v"
    then have "(a div m + 1) * m \<le> v * m" using that by (intro mult_right_mono) auto
    moreover have "(a div m + 1) * m = a div m * m + m" by (simp add: distrib_right)
    ultimately show "a < v * m" using a by linarith
  next
    assume l: "a < v * m"
    show "a div m < v"
    proof (rule ccontr)
      assume "\<not> a div m < v"
      then have "v * m \<le> a div m * m" using that by (intro mult_right_mono) auto
      then show False using a l by linarith
    qed
  qed
qed

lemma scaled_and_clamped:
  assumes "sfx = [] \<and> m = 1 \<or> countMultiplier sfx = Some m \<and> 0 < m" "\<bar>n\<bar> = int v" "v < 2 ^ 63"
  shows "\<exists>n'. scaleCount sfx n = Some n' \<and> clampCount n' = min (int v * m) MaxCount"
  using assms(1)
proof
  assume s: "sfx = [] \<and> m = 1"
  have "n \<noteq> - (2 ^ 63)" using assms(2,3) by auto
  then have "clampCount n = min \<bar>n\<bar> MaxCount" by (auto simp: clampCount_def neg64_def Let_def)
  then show ?thesis using s assms(2) by (simp add: scaleCount_def)
next
  assume s: "countMultiplier sfx = Some m \<and> 0 < m"
  have n: "n \<noteq> - (2 ^ 63)" "(if n < 0 then - n else n) = int v" using assms(2,3) by auto
  have "scaleCount sfx n = Some (if int v * m > MaxCount then MaxCount else int v * m)"
    using s n multiplier_suffix [of sfx m] div_less_pos [of m MaxCount "int v"] unfolding scaleCount_def Let_def by simp
  moreover have "0 \<le> int v * m" using s by simp
  ultimately show ?thesis by (auto simp: clampCount_def MaxCount_def Let_def)
qed

text \<open>C40. A count means what it says: digits of value \<open>v\<close> below the 64-bit range, with a minus sign, a plus sign or none,
  and a suffix of multiplier \<open>m\<close> or none, parse to \<open>v * m\<close> or the greatest count, whichever is less,
  in offset mode exactly with a plus sign.\<close>

theorem count_means_value:
  assumes "ds \<noteq> []" "list_all isDigit ds" "digits 0 ds = Some v" "v < 2 ^ 63"
    "sfx = [] \<and> m = 1 \<or> countMultiplier sfx = Some m \<and> 0 < m" "sign = [] \<or> sign = ''-'' \<or> sign = ''+''"
  shows "parseCount (sign @ ds @ sfx) = Some \<lparr>cm_n = min (int v * m) MaxCount, cm_offset = (sign = ''+'')\<rparr>"
proof -
  obtain c ds' where ds: "ds = c # ds'" "isDigit c" using assms(1,2) by (cases ds) auto
  have c: "c \<noteq> CHR ''+''" "c \<noteq> CHR ''-''" using ds(2) by (auto simp: isDigit_def)
  have m: "0 < m" using assms(5) by auto
  have sfx: "takeWhile isDigit (ds @ sfx) = ds"
  proof -
    have "takeWhile isDigit sfx = []" using assms(5) multiplier_suffix [of sfx m] by (cases sfx) auto
    then show ?thesis using assms(2) by (simp add: takeWhile_append2 list_all_iff)
  qed
  have u: "ParseUint ds = Inr v" using assms(1,3,4) by (simp add: ParseUint_def)
  have pi: "ParseInt ds = Inr (int v)" "ParseInt (CHR ''-'' # ds) = Inr (- int v)"
    using u assms(4) c ds(1) by (simp_all add: ParseInt_def)
  have sg: "sign = [] \<or> sign = ''-'' \<or> sign = ''+''" using assms(6) .
  have num: "countNumber False (ds @ sfx) (length ds) sfx = Some (int v)"
    "countNumber True (ds @ sfx) (length ds) sfx = Some (int v)"
    "countNumber False (CHR ''-'' # ds @ sfx) (Suc (length ds)) sfx = Some (- int v)"
    using pi c ds(1) by (simp_all add: countNumber_def)
  obtain p q where p: "scaleCount sfx (int v) = Some p" "clampCount p = min (int v * m) MaxCount"
    and q: "scaleCount sfx (- int v) = Some q" "clampCount q = min (int v * m) MaxCount"
    using scaled_and_clamped [OF assms(5), of "int v" v] scaled_and_clamped [OF assms(5), of "- int v" v] assms(4) by auto
  have sfx': "takeWhile isDigit (c # ds' @ sfx) = c # ds'" using sfx ds(1) by simp
  show ?thesis using sg
  proof (elim disjE)
    assume "sign = []"
    then show ?thesis using num(1) p c sfx' by (simp add: parseCount_def Let_def ds(1))
  next
    assume "sign = ''-''"
    then show ?thesis using num(3) q c sfx' by (simp add: parseCount_def Let_def ds(1))
  next
    assume "sign = ''+''"
    then show ?thesis using num(2) p c sfx' by (simp add: parseCount_def Let_def ds(1))
  qed
qed

text \<open>Two kibibytes from the end.\<close>

theorem count_means_value_witness: "parseCount ''-2K'' = Some \<lparr>cm_n = 2048, cm_offset = False\<rparr>"
proof -
  have a: "''2'' \<noteq> []" "list_all isDigit ''2''" "digits 0 ''2'' = Some 2" "(2 :: nat) < 2 ^ 63"
    by (simp_all add: isDigit_def digitVal_def)
  have b: "''K'' = [] \<and> (1024 :: int) = 1 \<or> countMultiplier ''K'' = Some 1024 \<and> (0 :: int) < 1024"
    by (simp add: countMultiplier_def)
  show ?thesis using count_means_value [OF a b, of "''-''"] by (simp add: MaxCount_def)
qed

end
