(* ===== verification/Spec2Isabelle.thy ===== *)
theory Spec2Isabelle
  imports Nesting_Depth Runner_Vars Sandbox_Policy Field_Bound Expansion_Limits Script_Properties Command_Config Tail_Properties
begin

text \<open>
  A verification development of \<^bold>\<open>rshell\<close>, a shell interpreter in Go that runs untrusted scripts under a
  command policy, a path sandbox and resource limits.  Paths below are under \<^verbatim>\<open>src/\<close>.

  \<^bold>\<open>The program.\<close>  A script is scanned for its nesting depth, parsed by a third-party package, checked for the
  depth of its tree and validated; then it is interpreted.  The interpreter expands words through the
  parser package's expander, which calls back for variables and command substitutions; it keeps
  variables in overlay environments with a shared budget, opens redirections through the sandbox, and
  runs commands that pass the policy gates as builtins.

  \<^bold>\<open>Conventions.\<close>  A Go string is a list of characters, one per byte.  Errors are values: a sum or an option.
  Pointers are numbers into an explicit store.  The operating system is a record of functions on a state \<open>'w\<close>,
  and the expander, the parser's helpers and the builtins' registry are records too; what the code relies
  on of them is a named hypothesis, shown to hold of a concrete instance in \<open>Shell_Demo\<close> and in the
  examples of the sandbox theories.

  \<^bold>\<open>Shared theories.\<close>
  \<^item> \<open>Prelude\<close>: strings, fallible computations and the postconditions \<open>rspec\<close>.
  \<^item> \<open>Option_Calculus\<close>: rules for partial correctness, for the order of definedness and for definedness itself.
  \<^item> \<open>Go_Path\<close>: the lexical functions of \<^verbatim>\<open>path/filepath\<close>.
  \<^item> \<open>Stream_IO\<close>: readers in pieces, the line scanner, outputs that fail, circular arrays.

  \<^bold>\<open>Components.\<close>
  \<^item> \<^verbatim>\<open>interp/nesting.go\<close>: \<open>Nesting\<close> has the scanner's state, one definition per mode, and the tree guard;
    \<open>Nesting_Proofs\<close> and \<open>Nesting_Depth\<close> show that the scan ends without a panic, that its counter is the number of
    open frames, what it counts, and that the tree guard computes the depth.
  \<^item> \<^verbatim>\<open>interp/vars.go\<close>: \<open>Var_Storage\<close> has overlays, budgets and snapshots, \<open>Runner_Vars\<close> the runner's access to them.
    \<open>Var_Accounting\<close> and \<open>Var_Properties\<close> show that the budget is exact and capped, that read-only variables
    stay, that restores undo writes and that subshells are isolated.
  \<^item> \<^verbatim>\<open>allowedpaths/\<close>: \<open>Path_Policy\<close> (grants and the lexical policy), \<open>Write_Open\<close> (the no-follow walk, the hard-link guard,
    removal), \<open>Sandbox\<close> and \<open>Sandbox_Ops\<close> (resolution and every file operation), \<open>Sandbox_Policy\<close> (a change needs a
    read-write grant, links stay in the roots, a rewrite is complete or reported).
  \<^item> \<^verbatim>\<open>interp/validate.go\<close>: \<open>Tilde\<close> and \<open>Validate\<close>; every node of an accepted tree is supported, and the tilde analysis
    agrees with a reference expansion.
  \<^item> \<^verbatim>\<open>interp/runner_expand.go\<close>: \<open>Field_Sources\<close> and \<open>Expansion\<close>, with the bounds in \<open>Field_Bound\<close> and \<open>Expansion_Limits\<close>.
  \<^item> \<^verbatim>\<open>interp/runner_redir.go\<close>, \<^verbatim>\<open>runner_redir_remediation.go\<close>: \<open>Redirection\<close>.
  \<^item> \<^verbatim>\<open>interp/runner_exec.go\<close>, \<^verbatim>\<open>runner.go\<close>, \<^verbatim>\<open>handler.go\<close>: \<open>Shell_Syntax\<close> and \<open>Shell_Exec\<close>.  Its lemmas come in layers, each proved
    once per definition: \<open>Shell_Frame\<close> and \<open>Shell_Invariant\<close> (what a statement leaves alone), \<open>Shell_Fuel\<close> (more fuel
    changes no result), \<open>Shell_Total\<close> (termination), \<open>Shell_Policy\<close> (blocked commands), \<open>Shell_Readonly\<close> (files in
    read-only mode).  \<open>Script_Properties\<close> states the theorems on scripts.
  \<^item> \<^verbatim>\<open>interp/api.go\<close>: \<open>Command_Config\<close> has the options that set the allowlist and the elevatable commands.
  \<^item> \<^verbatim>\<open>builtins/\<close>: \<open>Builtins_Basic\<close> (true, false, exit, break, continue, echo), \<open>Builtin_Args\<close> (the obsolete count, escaping
    for diagnostics, UTF-8), \<open>Tail\<close> and \<open>Tail_Properties\<close> (the ring and circular buffers refine the list of
    all lines and bytes).

  \<^bold>\<open>Interfaces.\<close>  \<open>path_policy\<close> is what a policy of path grants promises; the lexical policy and the sandbox interpret it.
  \<open>variable_store\<close> is what the interpreter needs of variables; overlays interpret it.

  \<^bold>\<open>Fuel and bounds.\<close>  \<open>runStmt\<close> takes fuel, and \<open>None\<close> means that it ran out.  For a validated statement without
  while and until loops its size as a syntax tree is enough, and no larger amount changes a
  result; a while or until loop that its condition ends in round \<open>k\<close> needs more than \<open>k\<close>.  Link resolution makes at
  most as many rounds as the source's hop limit and one more.  All other loops are total
  functions.  Integers are unbounded where the source's sums stay far below 64 bits, and are
  written at their width where they can overflow, as in exit codes and in the counts of \<^verbatim>\<open>tail\<close>.

  \<^bold>\<open>Simplifications.\<close>  The two sides of a pipeline run one after the other, and the goroutine that feeds a heredoc is one
  step.  Standard library functions are modelled as far as the code uses them; the line scanner
  is modelled for split functions that consume input with every token, on readers that make progress.

  \<^bold>\<open>Not modelled.\<close>
  \<^item> The parser, the expander and the flag parser: third-party packages, parameters here.
  \<^item> Telemetry, tracing, the outer run loop and the remaining options of \<^verbatim>\<open>interp/api.go\<close>: they surround the interpreter.
  \<^item> The other builtins.  The theorems on scripts ask of a builtin only the contract of a handler: that it keeps
    the frame, returns, and does not write in read-only mode.
  \<^item> The Windows variants of the sandbox and of path handling.
  \<^item> Seccomp and Landlock rules, the privileged helper, systemd and \<^verbatim>\<open>/proc\<close> readers: they act on the
    operating system.
  \<^item> The command-line front end and the static analysis of the repository.
\<close>

end
